(* ===== verification/Prelude.thy ===== *)
theory Prelude
  imports Main "HOL-Library.Word"
begin

text \<open>
  The shared vocabulary of the development: Rust's fixed-width integers as words, Rust's
  \<open>Result\<close> as a sum type with the \<open>?\<close> operator as a bind, the same bind for code that also
  threads a state, and the fact collections the component theories extend.

  \<^item> \<open>u8\<close>, \<open>u32\<close>, \<open>u64\<close> are read with \<open>unat\<close>; \<open>i64\<close> is the same 64-bit word read with \<open>sint\<close>,
    so the source's \<open>as i64\<close> / \<open>as u64\<close> casts are the identity on the bits;
  \<^item> \<open>Inl e\<close> is \<open>Err(e)\<close>, \<open>Inr x\<close> is \<open>Ok(x)\<close>;
  \<^item> \<open>('w, 'e, 'a) cmd\<close> is a fallible operation on a state \<open>'w\<close>: it returns the result and
    the state that is left behind, on the error path too.
\<close>

type_synonym u8 = "8 word"
type_synonym u32 = "32 word"
type_synonym u64 = "64 word"
type_synonym i32 = "32 word"
type_synonym i64 = "64 word"

type_synonym ('w, 'e, 'a) cmd = "'w \<Rightarrow> ('e + 'a) \<times> 'w"

named_theorems cmd_simps "unfolding rules for the state-and-error combinators"
named_theorems cmd_splits "case splits for results of fallible operations"

section \<open>Results\<close>

definition bindR :: "'e + 'a \<Rightarrow> ('a \<Rightarrow> 'e + 'b) \<Rightarrow> 'e + 'b" where
  "bindR m f = (case m of Inl e \<Rightarrow> Inl e | Inr x \<Rightarrow> f x)"

definition ok_or :: "'a option \<Rightarrow> 'e \<Rightarrow> 'e + 'a" where
  "ok_or m e = (case m of None \<Rightarrow> Inl e | Some x \<Rightarrow> Inr x)"

definition map_err :: "('e \<Rightarrow> 'f) \<Rightarrow> 'e + 'a \<Rightarrow> 'f + 'a" where
  "map_err f m = (case m of Inl e \<Rightarrow> Inl (f e) | Inr x \<Rightarrow> Inr x)"

definition unwrap_or :: "'a option \<Rightarrow> 'a \<Rightarrow> 'a" where
  "unwrap_or m d = (case m of None \<Rightarrow> d | Some x \<Rightarrow> x)"

definition ok :: "'e + 'a \<Rightarrow> 'a option" where
  "ok m = (case m of Inl _ \<Rightarrow> None | Inr x \<Rightarrow> Some x)"

text \<open>\<open>iter.collect::<Result<Vec<_>, _>>()\<close>: the first error, or all the values.\<close>

fun collectR :: "('e + 'a) list \<Rightarrow> 'e + 'a list" where
  "collectR [] = Inr []"
| "collectR (r # rs) = bindR r (\<lambda>x. bindR (collectR rs) (\<lambda>xs. Inr (x # xs)))"

section \<open>Fallible operations on a state\<close>

definition retC :: "'a \<Rightarrow> ('w, 'e, 'a) cmd" where
  "retC x w = (Inr x, w)"

definition throwC :: "'e \<Rightarrow> ('w, 'e, 'a) cmd" where
  "throwC e w = (Inl e, w)"

definition liftC :: "'e + 'a \<Rightarrow> ('w, 'e, 'a) cmd" where
  "liftC r w = (r, w)"

text \<open>\<open>bindC m f\<close> is \<open>let x = m?; f(x)\<close>; \<open>matchC m g f\<close> is
  \<open>match m { Err(e) => g(e), Ok(x) => f(x) }\<close>.\<close>

definition bindC :: "('w, 'e, 'a) cmd \<Rightarrow> ('a \<Rightarrow> ('w, 'e, 'b) cmd) \<Rightarrow> ('w, 'e, 'b) cmd" where
  "bindC m f w = (case m w of (Inl e, w') \<Rightarrow> (Inl e, w') | (Inr x, w') \<Rightarrow> f x w')"

definition matchC ::
  "('w, 'e, 'a) cmd \<Rightarrow> ('e \<Rightarrow> ('w, 'f, 'b) cmd) \<Rightarrow> ('a \<Rightarrow> ('w, 'f, 'b) cmd) \<Rightarrow> ('w, 'f, 'b) cmd" where
  "matchC m g f w = (case m w of (Inl e, w') \<Rightarrow> g e w' | (Inr x, w') \<Rightarrow> f x w')"

definition mapErrC :: "('e \<Rightarrow> 'f) \<Rightarrow> ('w, 'e, 'a) cmd \<Rightarrow> ('w, 'f, 'a) cmd" where
  "mapErrC g m w = (case m w of (r, w') \<Rightarrow> (map_err g r, w'))"

section \<open>gRPC status values\<close>

text \<open>\<open>tonic::Code\<close> and \<open>tonic::Status\<close>: the canonical gRPC codes with an operator message.\<close>

datatype grpc_code =
    Code_Ok | Code_Cancelled | Code_Unknown | Code_InvalidArgument | Code_DeadlineExceeded
  | Code_NotFound | Code_AlreadyExists | Code_PermissionDenied | Code_ResourceExhausted
  | Code_FailedPrecondition | Code_Aborted | Code_OutOfRange | Code_Unimplemented
  | Code_Internal | Code_Unavailable | Code_DataLoss | Code_Unauthenticated

datatype grpc_status = Status (status_code: grpc_code) (status_message: string)

section \<open>Facts\<close>

lemma bindR_simps [simp]:
  "bindR (Inl e) f = Inl e"
  "bindR (Inr x) f = f x"
  by (simp_all add: bindR_def)

lemma bindR_Inr_iff: "bindR m f = Inr y \<longleftrightarrow> (\<exists>x. m = Inr x \<and> f x = Inr y)"
  by (cases m) simp_all

lemma collectR_Inr_iff: "collectR rs = Inr xs \<longleftrightarrow> rs = map Inr xs"
proof (induction rs arbitrary: xs)
  case (Cons r rs)
  then show ?case by (cases xs) (auto simp: bindR_Inr_iff)
qed auto

lemma ok_or_simps [simp]:
  "ok_or None e = Inl e"
  "ok_or (Some x) e = Inr x"
  by (simp_all add: ok_or_def)

lemma map_err_simps [simp]:
  "map_err f (Inl e) = Inl (f e)"
  "map_err f (Inr x) = Inr x"
  by (simp_all add: map_err_def)

lemma map_err_Inr_iff [simp]: "map_err f m = Inr x \<longleftrightarrow> m = Inr x"
  by (cases m) simp_all

lemma unwrap_or_simps [simp]:
  "unwrap_or None d = d"
  "unwrap_or (Some x) d = x"
  by (simp_all add: unwrap_or_def)

lemma ok_simps [simp]:
  "ok (Inl e) = None"
  "ok (Inr x) = Some x"
  by (simp_all add: ok_def)

lemma bindC_Inr_iff:
  "bindC m f w = (Inr y, w') \<longleftrightarrow> (\<exists>x v. m w = (Inr x, v) \<and> f x v = (Inr y, w'))"
  by (auto simp: bindC_def split: prod.splits sum.splits)

lemma bindC_Inl: "m w = (Inl e, w') \<Longrightarrow> bindC m f w = (Inl e, w')"
  by (simp add: bindC_def)

lemma bindC_Inr: "m w = (Inr x, w') \<Longrightarrow> bindC m f w = f x w'"
  by (simp add: bindC_def)

lemma matchC_Inl: "m w = (Inl e, w') \<Longrightarrow> matchC m g f w = g e w'"
  by (simp add: matchC_def)

lemma matchC_Inr: "m w = (Inr x, w') \<Longrightarrow> matchC m g f w = f x w'"
  by (simp add: matchC_def)

lemma retC_apply [simp, cmd_simps]: "retC x w = (Inr x, w)"
  by (simp add: retC_def)

lemma throwC_apply [simp, cmd_simps]: "throwC e w = (Inl e, w)"
  by (simp add: throwC_def)

lemma liftC_apply [simp, cmd_simps]: "liftC r w = (r, w)"
  by (simp add: liftC_def)

text \<open>A split rule for a result/state pair: one case per outcome.\<close>

lemma split_result [cmd_splits]:
  "P (case m of (Inl e, w') \<Rightarrow> f e w' | (Inr x, w') \<Rightarrow> g x w') \<longleftrightarrow>
     (\<forall>e w'. m = (Inl e, w') \<longrightarrow> P (f e w')) \<and> (\<forall>x w'. m = (Inr x, w') \<longrightarrow> P (g x w'))"
  by (auto split: prod.splits sum.splits)

text \<open>Occurrences of a kind of element in a list.\<close>

definition countP :: "('a \<Rightarrow> bool) \<Rightarrow> 'a list \<Rightarrow> nat" where
  "countP p xs = length (filter p xs)"

lemma countP_simps [simp]:
  "countP p [] = 0"
  "countP p (x # xs) = (if p x then Suc (countP p xs) else countP p xs)"
  "countP p (xs @ ys) = countP p xs + countP p ys"
  by (simp_all add: countP_def)

lemma countP_0_iff: "countP p xs = 0 \<longleftrightarrow> (\<forall>x \<in> set xs. \<not> p x)"
  by (induction xs) auto

end
