(* ===== verification/Primitives.thy ===== *)
theory Primitives
  imports Prelude
begin

text \<open>
  The value objects of \<open>src/primitives/\<close>: the two amount units with their Postgres encoding,
  the fixed-length byte newtypes with their hex wire form, opaque ids, BOLT11 strings and
  timestamps.

  The \<open>hex\<close> crate is a parameter: a pair of functions passed as a \<open>hex_codec\<close> record, whose
  documented behaviour is the locale \<open>hex_crate\<close>. A UUID is its 128 bits; an instant is an
  integer number of nanoseconds since the Unix epoch. Release builds of the gateway do not set
  \<open>overflow-checks\<close>, so Rust's \<open>+\<close> and \<open>*\<close> are the wrapping operations of words.
\<close>

section \<open>Amounts (milli_satoshi.rs)\<close>

datatype milli_satoshi = MilliSatoshi (as_u64: u64)

datatype satoshis = Satoshis (sat_u64: u64)

datatype milli_satoshi_error = Negative i64 | Overflow

definition ZERO :: milli_satoshi where
  "ZERO = MilliSatoshi 0"

text \<open>\<open>u64::div_ceil\<close>: the quotient, plus one when there is a remainder.\<close>

definition div_ceil :: "u64 \<Rightarrow> u64 \<Rightarrow> u64" where
  "div_ceil x y = (if x mod y > 0 then x div y + 1 else x div y)"

definition round_up_to_sat :: "milli_satoshi \<Rightarrow> milli_satoshi" where
  "round_up_to_sat m = MilliSatoshi (div_ceil (as_u64 m) 1000 * 1000)"

definition whole_sat :: "milli_satoshi \<Rightarrow> u64" where
  "whole_sat m = as_u64 m div 1000"

definition to_msat :: "satoshis \<Rightarrow> milli_satoshi" where
  "to_msat s = MilliSatoshi (sat_u64 s * 1000)"

definition msat_try_from :: "i64 \<Rightarrow> milli_satoshi_error + milli_satoshi" where
  "msat_try_from v = (if sint v < 0 then Inl (Negative v) else Inr (MilliSatoshi v))"

text \<open>\<open>u64::try_into::<i64>()\<close> fails above \<open>i64::MAX\<close>.\<close>

definition u64_to_i64 :: "u64 \<Rightarrow> i64 option" where
  "u64_to_i64 v = (if unat v < 2 ^ 63 then Some v else None)"

definition msat_encode :: "milli_satoshi \<Rightarrow> milli_satoshi_error + i64" where
  "msat_encode m = ok_or (u64_to_i64 (as_u64 m)) Overflow"

definition msat_decode :: "i64 \<Rightarrow> milli_satoshi_error + milli_satoshi" where
  "msat_decode v = (if sint v < 0 then Inl (Negative v) else Inr (MilliSatoshi v))"

instantiation milli_satoshi :: linorder
begin

definition less_eq_milli_satoshi :: "milli_satoshi \<Rightarrow> milli_satoshi \<Rightarrow> bool" where
  "a \<le> b \<longleftrightarrow> as_u64 a \<le> as_u64 b"

definition less_milli_satoshi :: "milli_satoshi \<Rightarrow> milli_satoshi \<Rightarrow> bool" where
  "a < b \<longleftrightarrow> as_u64 a < as_u64 b"

instance
  by standard
    (auto simp: less_eq_milli_satoshi_def less_milli_satoshi_def intro: milli_satoshi.expand)

end

abbreviation msat_nat :: "milli_satoshi \<Rightarrow> nat" where
  "msat_nat m \<equiv> unat (as_u64 m)"

section \<open>Byte newtypes and their hex form (payment_hash.rs, preimage.rs, pubkey.rs)\<close>

datatype from_hex_error = InvalidHexCharacter char nat | OddLength | InvalidStringLength

record hex_codec =
  hex_encode :: "u8 list \<Rightarrow> string"
  hex_decode :: "string \<Rightarrow> from_hex_error + u8 list"

datatype payment_hash = PaymentHash (hash_bytes: "u8 list")

datatype preimage = Preimage (preimage_bytes: "u8 list")

datatype pubkey = Pubkey (pubkey_bytes: "u8 list")

datatype bytes_error = Hex from_hex_error | InvalidLength nat

text \<open>\<open>Vec<u8>::try_into::<[u8; n]>()\<close>, with the length reported on failure.\<close>

definition try_into_array :: "nat \<Rightarrow> u8 list \<Rightarrow> bytes_error + u8 list" where
  "try_into_array n bs = (if length bs = n then Inr bs else Inl (InvalidLength (length bs)))"

definition hash_to_hex :: "hex_codec \<Rightarrow> payment_hash \<Rightarrow> string" where
  "hash_to_hex H h = hex_encode H (hash_bytes h)"

definition preimage_to_hex :: "hex_codec \<Rightarrow> preimage \<Rightarrow> string" where
  "preimage_to_hex H p = hex_encode H (preimage_bytes p)"

definition pubkey_to_hex :: "hex_codec \<Rightarrow> pubkey \<Rightarrow> string" where
  "pubkey_to_hex H p = hex_encode H (pubkey_bytes p)"

definition hash_from_str :: "hex_codec \<Rightarrow> string \<Rightarrow> bytes_error + payment_hash" where
  "hash_from_str H s =
     bindR (map_err Hex (hex_decode H s))
       (\<lambda>bs. bindR (try_into_array 32 bs) (\<lambda>arr. Inr (PaymentHash arr)))"

definition preimage_from_str :: "hex_codec \<Rightarrow> string \<Rightarrow> bytes_error + preimage" where
  "preimage_from_str H s =
     bindR (map_err Hex (hex_decode H s))
       (\<lambda>bs. bindR (try_into_array 32 bs) (\<lambda>arr. Inr (Preimage arr)))"

definition pubkey_from_str :: "hex_codec \<Rightarrow> string \<Rightarrow> bytes_error + pubkey" where
  "pubkey_from_str H s =
     bindR (map_err Hex (hex_decode H s))
       (\<lambda>bs. bindR (try_into_array 33 bs) (\<lambda>arr. Inr (Pubkey arr)))"

text \<open>The \<open>BYTEA\<close> column encoding and decoding.\<close>

definition hash_encode :: "payment_hash \<Rightarrow> u8 list" where
  "hash_encode h = hash_bytes h"

definition hash_decode :: "u8 list \<Rightarrow> bytes_error + payment_hash" where
  "hash_decode bs = bindR (try_into_array 32 bs) (\<lambda>arr. Inr (PaymentHash arr))"

definition preimage_encode :: "preimage \<Rightarrow> u8 list" where
  "preimage_encode p = preimage_bytes p"

definition preimage_decode :: "u8 list \<Rightarrow> bytes_error + preimage" where
  "preimage_decode bs = bindR (try_into_array 32 bs) (\<lambda>arr. Inr (Preimage arr))"

definition pubkey_encode :: "pubkey \<Rightarrow> u8 list" where
  "pubkey_encode p = pubkey_bytes p"

definition pubkey_decode :: "u8 list \<Rightarrow> bytes_error + pubkey" where
  "pubkey_decode bs = bindR (try_into_array 33 bs) (\<lambda>arr. Inr (Pubkey arr))"

text \<open>\<open>Preimage::payment_hash\<close>: the SHA-256 digest (the \<open>sha2\<close> crate is the parameter).\<close>

definition payment_hash_of :: "(u8 list \<Rightarrow> u8 list) \<Rightarrow> preimage \<Rightarrow> payment_hash" where
  "payment_hash_of sha256 p = PaymentHash (sha256 (preimage_bytes p))"

definition wf_hash :: "payment_hash \<Rightarrow> bool" where
  "wf_hash h \<longleftrightarrow> length (hash_bytes h) = 32"

definition wf_preimage :: "preimage \<Rightarrow> bool" where
  "wf_preimage p \<longleftrightarrow> length (preimage_bytes p) = 32"

definition wf_pubkey :: "pubkey \<Rightarrow> bool" where
  "wf_pubkey p \<longleftrightarrow> length (pubkey_bytes p) = 33"

section \<open>Ids, BOLT11 strings, timestamps (ids.rs, bolt_invoice.rs, timestamp.rs)\<close>

type_synonym uuid = "128 word"

datatype invoice_id = InvoiceId uuid

datatype payment_id = PaymentId uuid

datatype wallet_id = WalletId (wallet_uuid: uuid)

datatype bolt_invoice = BoltInvoice (bolt_str: string)

datatype timestamp = Timestamp (instant: int)

definition add_seconds :: "timestamp \<Rightarrow> int \<Rightarrow> timestamp" where
  "add_seconds t s = Timestamp (instant t + s * 10 ^ 9)"

instantiation timestamp :: linorder
begin

definition less_eq_timestamp :: "timestamp \<Rightarrow> timestamp \<Rightarrow> bool" where
  "a \<le> b \<longleftrightarrow> instant a \<le> instant b"

definition less_timestamp :: "timestamp \<Rightarrow> timestamp \<Rightarrow> bool" where
  "a < b \<longleftrightarrow> instant a < instant b"

instance
  by standard (auto simp: less_eq_timestamp_def less_timestamp_def intro: timestamp.expand)

end

section \<open>Facts on amounts\<close>

lemma unat_1000 [simp]: "unat (1000 :: u64) = 1000"
  by simp

lemma u64_bound: "unat (x :: u64) < 2 ^ 64"
  using unsigned_less [of x] by simp

lemma unat_whole_sat [simp]: "unat (whole_sat m) = msat_nat m div 1000"
  by (simp add: whole_sat_def unat_div_distrib)

lemma ceil_div_1000:
  "(if 0 < n mod 1000 then n div 1000 + 1 else n div 1000) = (n + 999) div (1000 :: nat)"
proof -
  define q r where "q = n div 1000" and "r = n mod 1000"
  have n: "n = q * 1000 + r" and r: "r < 1000"
    by (simp_all add: q_def r_def)
  have "(n + 999) div 1000 = (if 0 < r then q + 1 else q)"
    unfolding n using r by (intro div_nat_eqI) auto
  then show ?thesis
    by (simp add: q_def r_def)
qed

lemma unat_div_ceil_1000: "unat (div_ceil x 1000) = (unat x + 999) div 1000"
proof -
  have "unat x div 1000 + 1 < 2 ^ 64"
    using u64_bound [of x] div_le_dividend [of "unat x" 1000]
    by (cases "unat x = 0") (simp_all add: less_mult_imp_div_less)
  then have "unat (x div 1000 + 1) = unat x div 1000 + 1"
    by (simp add: unat_word_ariths unat_div_distrib)
  moreover have "x mod 1000 > 0 \<longleftrightarrow> unat x mod 1000 > 0"
    by (simp add: word_less_nat_alt unat_mod_distrib)
  ultimately show ?thesis
    by (simp add: div_ceil_def unat_div_distrib flip: ceil_div_1000)
qed

lemma ceil_1000_bounds:
  "n \<le> (n + 999) div 1000 * 1000" "(n + 999) div 1000 * 1000 < n + (1000 :: nat)"
proof -
  have "(n + 999) div 1000 * 1000 + (n + 999) mod 1000 = n + 999" "(n + 999) mod 1000 < 1000"
    by simp_all
  then show "n \<le> (n + 999) div 1000 * 1000" "(n + 999) div 1000 * 1000 < n + 1000"
    by linarith+
qed

text \<open>The largest amount that \<open>round_up_to_sat\<close> can round without leaving 64 bits.\<close>

abbreviation (input) max_roundable :: nat where
  "max_roundable \<equiv> 18446744073709551000"

lemma msat_nat_round_up:
  assumes "msat_nat m \<le> max_roundable"
  shows "msat_nat (round_up_to_sat m) = (msat_nat m + 999) div 1000 * 1000"
proof -
  have "(msat_nat m + 999) div 1000 \<le> (max_roundable + 999) div 1000"
    using assms by (intro div_le_mono) simp
  then have "(msat_nat m + 999) div 1000 * 1000 < 2 ^ 64"
    by simp
  then show ?thesis
    by (simp add: round_up_to_sat_def unat_word_ariths unat_div_ceil_1000)
qed

lemma u64_to_i64_Some: "u64_to_i64 v = Some w \<longleftrightarrow> w = v \<and> unat v < 2 ^ 63"
  by (auto simp: u64_to_i64_def)

lemma sint_nonneg_iff: "0 \<le> sint (v :: i64) \<longleftrightarrow> unat v < 2 ^ 63"
proof -
  have "0 \<le> sint v \<longleftrightarrow> \<not> bit v 63"
    by (simp add: sint_uint signed_take_bit_nonnegative_iff bit_uint_iff)
  also have "\<dots> \<longleftrightarrow> unat v < 2 ^ 63"
  proof -
    have "bit v 63 \<longleftrightarrow> bit (unat v) 63"
      by (simp add: bit_unsigned_iff)
    also have "\<dots> \<longleftrightarrow> odd (unat v div 2 ^ 63)"
      by (rule bit_iff_odd)
    finally have "bit v 63 \<longleftrightarrow> odd (unat v div 2 ^ 63)" .
    moreover have "unat v div 2 ^ 63 < 2"
      using u64_bound [of v] by (intro less_mult_imp_div_less) simp
    ultimately show ?thesis
      by (auto simp: div_eq_0_iff less_2_cases_iff)
  qed
  finally show ?thesis .
qed


lemma sint_neg_iff: "sint (v :: i64) < 0 \<longleftrightarrow> 2 ^ 63 \<le> unat v"
  using sint_nonneg_iff [of v] by linarith

lemma msat_encode_Inr: "msat_encode m = Inr v \<longleftrightarrow> v = as_u64 m \<and> msat_nat m < 2 ^ 63"
  by (auto simp: msat_encode_def u64_to_i64_def)

lemma msat_decode_Inr: "msat_decode v = Inr m \<longleftrightarrow> m = MilliSatoshi v \<and> unat v < 2 ^ 63"
  by (auto simp: msat_decode_def sint_neg_iff)

section \<open>The hex crate\<close>

text \<open>
  What the code relies on of \<open>hex::encode\<close> and \<open>hex::decode\<close>: two lowercase digits per byte,
  decoding inverts encoding, and a decoded string has twice as many characters as bytes.
\<close>

locale hex_crate =
  fixes H :: hex_codec
  assumes decode_encode: "hex_decode H (hex_encode H bs) = Inr bs"
    and encode_length: "length (hex_encode H bs) = 2 * length bs"
    and encode_lowercase: "set (hex_encode H bs) \<subseteq> set ''0123456789abcdef''"
    and decode_length: "hex_decode H s = Inr bs \<Longrightarrow> length s = 2 * length bs"
begin

lemma encode_inj: "hex_encode H a = hex_encode H b \<longleftrightarrow> a = b"
  by (metis decode_encode sum.inject(2))

lemma decode_sized:
  assumes "bindR (map_err Hex (hex_decode H s)) (\<lambda>bs. bindR (try_into_array n bs) g) = Inr x"
  obtains bs where "hex_decode H s = Inr bs" "length bs = n" "length s = 2 * n" "g bs = Inr x"
  using assms decode_length
  by (auto simp: bindR_Inr_iff try_into_array_def split: if_splits)

lemma hash_roundtrip: "wf_hash h \<Longrightarrow> hash_from_str H (hash_to_hex H h) = Inr h"
  by (simp add: hash_from_str_def hash_to_hex_def decode_encode try_into_array_def wf_hash_def)

lemma preimage_roundtrip: "wf_preimage p \<Longrightarrow> preimage_from_str H (preimage_to_hex H p) = Inr p"
  by (simp add: preimage_from_str_def preimage_to_hex_def decode_encode try_into_array_def wf_preimage_def)

lemma pubkey_roundtrip: "wf_pubkey p \<Longrightarrow> pubkey_from_str H (pubkey_to_hex H p) = Inr p"
  by (simp add: pubkey_from_str_def pubkey_to_hex_def decode_encode try_into_array_def wf_pubkey_def)

lemma hash_from_str_wf: "hash_from_str H s = Inr h \<Longrightarrow> wf_hash h \<and> length s = 64"
  unfolding hash_from_str_def by (erule decode_sized) (auto simp: wf_hash_def)

lemma preimage_from_str_wf: "preimage_from_str H s = Inr p \<Longrightarrow> wf_preimage p \<and> length s = 64"
  unfolding preimage_from_str_def by (erule decode_sized) (auto simp: wf_preimage_def)

lemma pubkey_from_str_wf: "pubkey_from_str H s = Inr p \<Longrightarrow> wf_pubkey p \<and> length s = 66"
  unfolding pubkey_from_str_def by (erule decode_sized) (auto simp: wf_pubkey_def)

lemma hash_to_hex_inj: "hash_to_hex H a = hash_to_hex H b \<longleftrightarrow> a = b"
  by (auto simp: hash_to_hex_def encode_inj intro: payment_hash.expand)

end

text \<open>
  A reference codec with the crate's behaviour (lowercase output, both cases accepted, odd
  lengths refused before any character is looked at, errors carry the index).
\<close>

definition hex_digits :: string where
  "hex_digits = ''0123456789abcdef''"

definition hex_digit :: "nat \<Rightarrow> char" where
  "hex_digit n = hex_digits ! n"

definition hex_val :: "char \<Rightarrow> nat option" where
  "hex_val c =
     (if c \<in> set ''0123456789'' then Some (of_char c - 48)
      else if c \<in> set ''abcdef'' then Some (of_char c - 87)
      else if c \<in> set ''ABCDEF'' then Some (of_char c - 55)
      else None)"

fun ref_hex_encode :: "u8 list \<Rightarrow> string" where
  "ref_hex_encode [] = []"
| "ref_hex_encode (b # bs) =
     hex_digit (unat b div 16) # hex_digit (unat b mod 16) # ref_hex_encode bs"

fun ref_hex_pairs :: "nat \<Rightarrow> string \<Rightarrow> from_hex_error + u8 list" where
  "ref_hex_pairs i (c # d # s) =
     bindR (ok_or (hex_val c) (InvalidHexCharacter c i)) (\<lambda>hi.
     bindR (ok_or (hex_val d) (InvalidHexCharacter d (i + 1))) (\<lambda>lo.
     bindR (ref_hex_pairs (i + 2) s) (\<lambda>bs. Inr (of_nat (hi * 16 + lo) # bs))))"
| "ref_hex_pairs i [] = Inr []"
| "ref_hex_pairs i [c] = Inl OddLength"

definition ref_hex_decode :: "string \<Rightarrow> from_hex_error + u8 list" where
  "ref_hex_decode s = (if odd (length s) then Inl OddLength else ref_hex_pairs 0 s)"

definition ref_hex :: hex_codec where
  "ref_hex = \<lparr>hex_encode = ref_hex_encode, hex_decode = ref_hex_decode\<rparr>"

lemma hex_digit_facts:
  assumes "n < 16"
  shows "hex_val (hex_digit n) = Some n" "hex_digit n \<in> set ''0123456789abcdef''"
proof -
  have "\<forall>k \<in> set [0..<16]. hex_val (hex_digit k) = Some k \<and> hex_digit k \<in> set ''0123456789abcdef''"
    by code_simp
  with assms show "hex_val (hex_digit n) = Some n" "hex_digit n \<in> set ''0123456789abcdef''"
    by simp_all
qed

lemma ref_hex_encode_length: "length (ref_hex_encode bs) = 2 * length bs"
  by (induction bs) simp_all

lemma nibbles: "unat (b :: u8) div 16 < 16" "unat b mod 16 < 16"
  using unsigned_less [of b, where ?'a = nat] by (simp_all add: less_mult_imp_div_less)

lemma join_nibbles: "(of_nat (unat b div 16 * 16 + unat b mod 16) :: u8) = b"
  by (simp only: div_mult_mod_eq of_nat_unat ucast_id)

lemma ref_hex_pairs_encode: "ref_hex_pairs i (ref_hex_encode bs) = Inr bs"
  by (induction bs arbitrary: i)
     (simp_all add: hex_digit_facts nibbles join_nibbles del: of_nat_add of_nat_mult)

lemma ref_hex_pairs_length: "ref_hex_pairs i s = Inr bs \<Longrightarrow> length s = 2 * length bs"
  by (induction i s arbitrary: bs rule: ref_hex_pairs.induct) (auto simp: bindR_Inr_iff)

lemma ref_hex_encode_set: "set (ref_hex_encode bs) \<subseteq> set ''0123456789abcdef''"
proof (induction bs)
  case (Cons b bs)
  then show ?case
    using hex_digit_facts(2) [OF nibbles(1), of b] hex_digit_facts(2) [OF nibbles(2), of b]
    by (simp only: ref_hex_encode.simps list.set(2) insert_subset simp_thms)
qed simp

interpretation ref_hex: hex_crate ref_hex
proof
  show "hex_decode ref_hex (hex_encode ref_hex bs) = Inr bs" for bs
    by (simp add: ref_hex_def ref_hex_decode_def ref_hex_encode_length ref_hex_pairs_encode)
  show "length (hex_encode ref_hex bs) = 2 * length bs" for bs
    by (simp add: ref_hex_def ref_hex_encode_length)
  show "set (hex_encode ref_hex bs) \<subseteq> set ''0123456789abcdef''" for bs
    using ref_hex_encode_set by (simp add: ref_hex_def)
  show "hex_decode ref_hex s = Inr bs \<Longrightarrow> length s = 2 * length bs" for s bs
    by (auto simp: ref_hex_def ref_hex_decode_def dest: ref_hex_pairs_length split: if_splits)
qed

section \<open>Properties\<close>

text \<open>\<open>round_up_to_sat\<close> on every amount: up to \<open>max_roundable\<close> it is the least multiple of
  1000 that is not below the argument, so a hold computed from it always covers the amount;
  on the 615 amounts above, the multiplication wraps and the result is 384 msat.\<close>

lemma round_up_to_sat_spec:
  "(if msat_nat m \<le> 18446744073709551000
    then msat_nat (round_up_to_sat m) mod 1000 = 0 \<and> m \<le> round_up_to_sat m \<and>
         msat_nat (round_up_to_sat m) < msat_nat m + 1000
    else msat_nat (round_up_to_sat m) = 384)"
proof (cases "msat_nat m \<le> max_roundable")
  case True
  define n where "n = msat_nat m"
  have r: "msat_nat (round_up_to_sat m) = (n + 999) div 1000 * 1000"
    using True by (simp add: msat_nat_round_up n_def)
  with True ceil_1000_bounds [of n] show ?thesis
    by (simp add: less_eq_milli_satoshi_def word_le_nat_alt n_def [symmetric])
next
  case False
  then have "(msat_nat m + 999) div 1000 = 18446744073709552"
    using u64_bound [of "as_u64 m"] by (intro div_nat_eqI) simp_all
  with False show ?thesis
    by (simp add: round_up_to_sat_def unat_word_ariths unat_div_ceil_1000)
qed

text \<open>The Postgres \<open>BIGINT\<close> encoding of amounts: decoding accepts a column value exactly
  when it is the encoding of the decoded amount, and an amount has an encoding exactly when it
  is below \<open>2^63\<close>.\<close>

lemma msat_column_roundtrip:
  "(msat_decode v = Inr m \<longleftrightarrow> msat_encode m = Inr v) \<and>
   ((\<exists>v. msat_encode m = Inr v) \<longleftrightarrow> msat_nat m < 2 ^ 63)"
  by (cases m) (auto simp: msat_encode_Inr msat_decode_Inr)

text \<open>The hex wire form of a payment hash: a 32-byte hash survives the round trip, distinct
  hashes have distinct wire forms, and whatever parses is a 64-character string of a 32-byte
  hash (so no truncated or padded hash enters the gateway).\<close>

lemma payment_hash_wire_roundtrip:
  assumes "hex_crate H"
  shows "(hash_from_str H (hash_to_hex H h) = Inr h \<longleftrightarrow> wf_hash h) \<and>
    (hash_to_hex H h = hash_to_hex H h' \<longleftrightarrow> h = h') \<and>
    (hash_from_str H s = Inr h' \<longrightarrow> wf_hash h' \<and> length s = 64)"
  using hex_crate.hash_roundtrip [OF assms] hex_crate.hash_from_str_wf [OF assms]
    hex_crate.hash_to_hex_inj [OF assms]
  by blast

end
