(* ===== verification/Event_Sourcing.thy ===== *)
theory Event_Sourcing
  imports Prelude
begin

text \<open>
  What the two aggregates share. The \<open>es-entity\<close> crate's \<open>EntityEvents\<close> container is a
  parameter: an \<open>es_crate\<close> record with the four operations the aggregates call, whose
  documented behaviour is the locale \<open>es_events\<close>. The locale \<open>event_sourced\<close> adds an entity with
  its hydration function and its command methods, states the contract of a command (it either
  leaves the entity alone or appends one event, and the entity stays the hydration of its own
  log), and derives what holds of every sequence of commands.
\<close>

section \<open>The event container of the es-entity crate\<close>

record ('es, 'id, 'ev) es_crate =
  ee_init :: "'id \<Rightarrow> 'ev list \<Rightarrow> 'es"
  ee_push :: "'ev \<Rightarrow> 'es \<Rightarrow> 'es"
  ee_iter_all :: "'es \<Rightarrow> 'ev list"
  ee_id :: "'es \<Rightarrow> 'id"

datatype idempotent = Executed | AlreadyApplied

datatype hydration_error = UninitializedFieldError string

text \<open>The errors of the generated repository methods, kept to what the sources match on.\<close>

datatype es_find_error = EsNotFound | EsFindOther string

datatype es_modify_error = EsConcurrentModification | EsModifyOther string

text \<open>\<open>idempotency_guard!(events.iter_all().rev(), already_applied: pat)\<close>: the walk over the log
  from its newest event that returns \<open>AlreadyApplied\<close> at the first match of the pattern.\<close>

definition already_applied :: "('es, 'id, 'ev) es_crate \<Rightarrow> ('ev \<Rightarrow> bool) \<Rightarrow> 'es \<Rightarrow> bool" where
  "already_applied E pat es = list_ex pat (rev (ee_iter_all E es))"

lemma already_applied_iff: "already_applied E pat es \<longleftrightarrow> (\<exists>ev \<in> set (ee_iter_all E es). pat ev)"
  by (simp add: already_applied_def list_ex_iff)

locale es_events =
  fixes E :: "('es, 'id, 'ev) es_crate"
  assumes iter_init: "ee_iter_all E (ee_init E i evs) = evs"
    and id_init: "ee_id E (ee_init E i evs) = i"
    and iter_push: "ee_iter_all E (ee_push E ev es) = ee_iter_all E es @ [ev]"
    and id_push: "ee_id E (ee_push E ev es) = ee_id E es"
begin

lemmas es_laws = iter_init id_init iter_push id_push

end

section \<open>Event-sourced entities\<close>

text \<open>Running command methods one after the other on the same entity.\<close>

fun run_commands :: "('x \<Rightarrow> ('err + idempotent) \<times> 'x) list \<Rightarrow> 'x \<Rightarrow> ('err + idempotent) list \<times> 'x" where
  "run_commands [] x = ([], x)"
| "run_commands (c # cs) x =
     (let (r, x1) = c x; (rs, x2) = run_commands cs x1 in (r # rs, x2))"

locale event_sourced = es_events E
  for E :: "('es, 'id, 'ev) es_crate" +
  fixes events_of :: "'x \<Rightarrow> 'es"
    and hydrate :: "'es \<Rightarrow> hydration_error + 'x"
    and commands :: "('x \<Rightarrow> ('err + idempotent) \<times> 'x) set"
  assumes command_contract:
    "c \<in> commands \<Longrightarrow> hydrate (events_of x) = Inr x \<Longrightarrow> c x = (r, x') \<Longrightarrow>
       (if r = Inr Executed
        then \<exists>ev. events_of x' = ee_push E ev (events_of x) \<and> hydrate (events_of x') = Inr x'
        else x' = x)"
begin

lemma command_keeps_hydration:
  assumes "c \<in> commands" "hydrate (events_of x) = Inr x" "c x = (r, x')"
  shows "hydrate (events_of x') = Inr x'"
  using command_contract [OF assms] assms(2) by (auto split: if_splits)

lemma command_log:
  assumes "c \<in> commands" "hydrate (events_of x) = Inr x" "c x = (r, x')"
  obtains "r \<noteq> Inr Executed" "x' = x"
  | ev where "r = Inr Executed" "ee_iter_all E (events_of x') = ee_iter_all E (events_of x) @ [ev]"
  using command_contract [OF assms] by (auto simp: iter_push split: if_splits)

text \<open>After any sequence of commands the entity is the hydration of its log, the log has only
  grown, and it has grown by one event per \<open>Executed\<close> answer.\<close>

lemma run_hydration:
  assumes "set cs \<subseteq> commands" "hydrate (events_of x) = Inr x" "run_commands cs x = (rs, x')"
  shows "hydrate (events_of x') = Inr x'"
  using assms
proof (induction cs arbitrary: x rs)
  case (Cons c cs)
  obtain r x1 where c: "c x = (r, x1)" by fastforce
  with Cons.prems have "hydrate (events_of x1) = Inr x1"
    by (auto intro: command_keeps_hydration)
  with Cons.prems c show ?case
    by (auto split: prod.splits intro: Cons.IH)
qed simp

lemma run_log:
  assumes "set cs \<subseteq> commands" "hydrate (events_of x) = Inr x" "run_commands cs x = (rs, x')"
  shows "\<exists>evs. ee_iter_all E (events_of x') = ee_iter_all E (events_of x) @ evs \<and>
    length evs = countP (\<lambda>r. r = Inr Executed) rs"
  using assms
proof (induction cs arbitrary: x rs)
  case (Cons c cs)
  obtain r x1 where c: "c x = (r, x1)" by fastforce
  obtain rs' where rs': "run_commands cs x1 = (rs', x')" "rs = r # rs'"
    using Cons.prems(3) c by (auto split: prod.splits)
  have c': "c \<in> commands" using Cons.prems(1) by simp
  have "hydrate (events_of x1) = Inr x1"
    using command_keeps_hydration [OF c' Cons.prems(2) c] .
  then obtain evs where evs:
    "ee_iter_all E (events_of x') = ee_iter_all E (events_of x1) @ evs"
    "length evs = countP (\<lambda>r. r = Inr Executed) rs'"
    using Cons.IH [OF _ _ rs'(1)] Cons.prems(1) by auto
  from command_log [OF c' Cons.prems(2) c] show ?case
  proof cases
    case 1
    with evs rs'(2) show ?thesis by auto
  next
    case (2 ev)
    with evs rs'(2) show ?thesis
      by (intro exI [of _ "ev # evs"]) simp
  qed
qed simp

end

section \<open>A list-backed container\<close>

text \<open>The container as the crate documents it: the entity id, the events loaded from the
  database and the events pushed since.\<close>

record ('id, 'ev) entity_events =
  entity_id :: 'id
  persisted_events :: "'ev list"
  new_events :: "'ev list"

definition ref_es :: "(('id, 'ev) entity_events, 'id, 'ev) es_crate" where
  "ref_es = \<lparr>
     ee_init = (\<lambda>i evs. \<lparr>entity_id = i, persisted_events = [], new_events = evs\<rparr>),
     ee_push = (\<lambda>ev es. es\<lparr>new_events := new_events es @ [ev]\<rparr>),
     ee_iter_all = (\<lambda>es. persisted_events es @ new_events es),
     ee_id = entity_id\<rparr>"

interpretation ref_es: es_events ref_es
  by unfold_locales (simp_all add: ref_es_def)

end
