(* ===== verification/Invoice.thy ===== *)
theory Invoice
  imports Primitives Event_Sourcing
begin

text \<open>
  The inbound aggregate of \<open>src/invoice/\<close>: lifecycle states, events, errors, the validating
  constructor, the four command methods, hydration from the event log, and the projection
  queries of the repository. The lifecycle specification \<open>inv_log\<close> is an automaton over event
  logs; the commands refine it.
\<close>

section \<open>States, events, errors\<close>

datatype invoice_state = Open | Held | Settled | Canceled

datatype cancel_reason = Expired

datatype invoice_event =
    EvCreated payment_hash preimage wallet_id "milli_satoshi option" timestamp bolt_invoice string timestamp
  | EvHtlcHeld timestamp milli_satoshi
  | EvSettled timestamp
  | EvSettledIntraledger timestamp
  | EvCanceled timestamp cancel_reason

text \<open>The error types generated by the repository derive are kept to the constructors the
  sources match on; the rest is an opaque description.\<close>

datatype invoice_column = InvoiceColumn_ExternalId | InvoiceColumn_PaymentHash | InvoiceColumn_Other

datatype invoice_create_error =
    InvoiceConstraintViolation "invoice_column option" "string option"
  | InvoiceCreateOther string

datatype invoice_error =
    InvInvalidAmount
  | InvNotFound payment_hash
  | InvInvalidStateTransition invoice_state string
  | InvDuplicateExternalId string
  | InvInvalidExternalId string
  | InvoiceCreate invoice_create_error
  | InvoiceModify es_modify_error
  | InvoiceFind es_find_error
  | InvoiceQuery string
  | InvSqlx string

definition invoice_create_error_into :: "invoice_create_error \<Rightarrow> invoice_error" where
  "invoice_create_error_into e =
     (case e of
        InvoiceConstraintViolation (Some InvoiceColumn_ExternalId) v \<Rightarrow>
          InvDuplicateExternalId (unwrap_or v [])
      | other \<Rightarrow> InvoiceCreate other)"

fun invoice_state_str :: "invoice_state \<Rightarrow> string" where
  "invoice_state_str Open = ''open''"
| "invoice_state_str Held = ''held''"
| "invoice_state_str Settled = ''settled''"
| "invoice_state_str Canceled = ''canceled''"

fun cancel_reason_str :: "cancel_reason \<Rightarrow> string" where
  "cancel_reason_str Expired = ''Expired''"

section \<open>The validating constructor\<close>

definition SECS_PER_MIN :: u32 where
  "SECS_PER_MIN = 60"

definition SECS_PER_HOUR :: u32 where
  "SECS_PER_HOUR = 60 * 60"

definition SECS_PER_4_HOURS :: u32 where
  "SECS_PER_4_HOURS = SECS_PER_HOUR * 4"

definition SECS_PER_DAY :: u32 where
  "SECS_PER_DAY = SECS_PER_HOUR * 24"

definition BTC_INVOICE_MIN_SECONDS :: u32 where
  "BTC_INVOICE_MIN_SECONDS = SECS_PER_MIN"

definition BTC_INVOICE_MAX_SECONDS :: u32 where
  "BTC_INVOICE_MAX_SECONDS = SECS_PER_DAY"

definition BTC_INVOICE_DEFAULT_SECONDS :: u32 where
  "BTC_INVOICE_DEFAULT_SECONDS = SECS_PER_4_HOURS"

lemmas expiry_consts = SECS_PER_MIN_def SECS_PER_HOUR_def SECS_PER_4_HOURS_def SECS_PER_DAY_def
  BTC_INVOICE_MIN_SECONDS_def BTC_INVOICE_MAX_SECONDS_def BTC_INVOICE_DEFAULT_SECONDS_def

record new_invoice =
  ni_id :: invoice_id
  ni_payment_hash :: payment_hash
  ni_payment_preimage :: preimage
  ni_wallet_id :: wallet_id
  ni_amount_msat :: "milli_satoshi option"
  ni_expiry_at :: timestamp
  ni_bolt_invoice :: bolt_invoice
  ni_external_id :: string
  ni_created_at :: timestamp

text \<open>\<open>InvoiceId::new()\<close> draws a random UUID; the draw is the argument \<open>new_id\<close>.\<close>

definition effective_expiry :: "u32 \<Rightarrow> u32" where
  "effective_expiry expiry_seconds =
     (if BTC_INVOICE_MIN_SECONDS \<le> expiry_seconds \<and> expiry_seconds \<le> BTC_INVOICE_MAX_SECONDS
      then expiry_seconds else BTC_INVOICE_DEFAULT_SECONDS)"

definition new_invoice_try_new ::
  "invoice_id \<Rightarrow> payment_hash \<Rightarrow> preimage \<Rightarrow> wallet_id \<Rightarrow> milli_satoshi option \<Rightarrow> u32 \<Rightarrow>
   bolt_invoice \<Rightarrow> string \<Rightarrow> timestamp \<Rightarrow> invoice_error + new_invoice" where
  "new_invoice_try_new new_id hash pre wallet amount_msat expiry_seconds bolt external_id now =
     (if (case amount_msat of Some a \<Rightarrow> as_u64 a = 0 | None \<Rightarrow> False) then Inl InvInvalidAmount
      else
        let expiry_at = add_seconds now (uint (effective_expiry expiry_seconds)) in
        Inr \<lparr>ni_id = new_id, ni_payment_hash = hash, ni_payment_preimage = pre,
             ni_wallet_id = wallet, ni_amount_msat = amount_msat, ni_expiry_at = expiry_at,
             ni_bolt_invoice = bolt, ni_external_id = external_id, ni_created_at = now\<rparr>)"

definition new_invoice_state_str :: "new_invoice \<Rightarrow> string" where
  "new_invoice_state_str n = invoice_state_str Open"

definition new_invoice_into_events ::
  "('es, invoice_id, invoice_event) es_crate \<Rightarrow> new_invoice \<Rightarrow> 'es" where
  "new_invoice_into_events E n =
     ee_init E (ni_id n)
       [EvCreated (ni_payment_hash n) (ni_payment_preimage n) (ni_wallet_id n) (ni_amount_msat n)
          (ni_expiry_at n) (ni_bolt_invoice n) (ni_external_id n) (ni_created_at n)]"

section \<open>The aggregate and its commands\<close>

record 'es invoice =
  inv_id :: invoice_id
  inv_payment_hash :: payment_hash
  inv_payment_preimage :: preimage
  inv_wallet_id :: wallet_id
  inv_amount_msat :: "milli_satoshi option"
  inv_expiry_at :: timestamp
  inv_bolt_invoice :: bolt_invoice
  inv_external_id :: string
  inv_state :: invoice_state
  inv_created_at :: timestamp
  inv_held_amount_msat :: "milli_satoshi option"
  inv_canceled_reason :: "cancel_reason option"
  inv_events :: 'es

fun is_HtlcHeld :: "invoice_event \<Rightarrow> bool" where
  "is_HtlcHeld (EvHtlcHeld _ _) = True" | "is_HtlcHeld _ = False"

fun is_Settled :: "invoice_event \<Rightarrow> bool" where
  "is_Settled (EvSettled _) = True" | "is_Settled _ = False"

fun is_SettledIntraledger :: "invoice_event \<Rightarrow> bool" where
  "is_SettledIntraledger (EvSettledIntraledger _) = True" | "is_SettledIntraledger _ = False"

fun is_Canceled :: "invoice_event \<Rightarrow> bool" where
  "is_Canceled (EvCanceled _ _) = True" | "is_Canceled _ = False"

definition mark_held ::
  "('es, invoice_id, invoice_event) es_crate \<Rightarrow> milli_satoshi \<Rightarrow> timestamp \<Rightarrow>
   ('es invoice, invoice_error, idempotent) cmd" where
  "mark_held E htlc_amount_msat held_at self =
     (if already_applied E is_HtlcHeld (inv_events self) then (Inr AlreadyApplied, self)
      else if inv_state self \<noteq> Open
      then (Inl (InvInvalidStateTransition (inv_state self) ''mark_held''), self)
      else (Inr Executed,
            self\<lparr>inv_events := ee_push E (EvHtlcHeld held_at htlc_amount_msat) (inv_events self),
                 inv_state := Held, inv_held_amount_msat := Some htlc_amount_msat\<rparr>))"

definition settle_invoice ::
  "('es, invoice_id, invoice_event) es_crate \<Rightarrow> timestamp \<Rightarrow> ('es invoice, invoice_error, idempotent) cmd" where
  "settle_invoice E settled_at self =
     (if already_applied E is_Settled (inv_events self) then (Inr AlreadyApplied, self)
      else if inv_state self \<noteq> Held
      then (Inl (InvInvalidStateTransition (inv_state self) ''settle''), self)
      else (Inr Executed,
            self\<lparr>inv_events := ee_push E (EvSettled settled_at) (inv_events self), inv_state := Settled\<rparr>))"

definition settle_intraledger ::
  "('es, invoice_id, invoice_event) es_crate \<Rightarrow> timestamp \<Rightarrow> ('es invoice, invoice_error, idempotent) cmd" where
  "settle_intraledger E settled_at self =
     (if already_applied E is_SettledIntraledger (inv_events self) then (Inr AlreadyApplied, self)
      else if inv_state self \<noteq> Open
      then (Inl (InvInvalidStateTransition (inv_state self) ''settle_intraledger''), self)
      else (Inr Executed,
            self\<lparr>inv_events := ee_push E (EvSettledIntraledger settled_at) (inv_events self),
                 inv_state := Settled\<rparr>))"

definition cancel_invoice ::
  "('es, invoice_id, invoice_event) es_crate \<Rightarrow> cancel_reason \<Rightarrow> timestamp \<Rightarrow>
   ('es invoice, invoice_error, idempotent) cmd" where
  "cancel_invoice E reason canceled_at self =
     (if already_applied E is_Canceled (inv_events self) then (Inr AlreadyApplied, self)
      else if inv_state self \<notin> {Open, Held}
      then (Inl (InvInvalidStateTransition (inv_state self) ''cancel''), self)
      else (Inr Executed,
            self\<lparr>inv_events := ee_push E (EvCanceled canceled_at reason) (inv_events self),
                 inv_state := Canceled, inv_canceled_reason := Some reason\<rparr>))"

section \<open>Hydration\<close>

record invoice_builder =
  ib_payment_hash :: "payment_hash option"
  ib_payment_preimage :: "preimage option"
  ib_wallet_id :: "wallet_id option"
  ib_amount_msat :: "milli_satoshi option option"
  ib_expiry_at :: "timestamp option"
  ib_bolt_invoice :: "bolt_invoice option"
  ib_external_id :: "string option"
  ib_state :: "invoice_state option"
  ib_created_at :: "timestamp option"
  ib_held_amount_msat :: "milli_satoshi option option"
  ib_canceled_reason :: "cancel_reason option option"

definition invoice_builder_default :: invoice_builder where
  "invoice_builder_default =
     \<lparr>ib_payment_hash = None, ib_payment_preimage = None, ib_wallet_id = None,
      ib_amount_msat = None, ib_expiry_at = None, ib_bolt_invoice = None, ib_external_id = None,
      ib_state = None, ib_created_at = None, ib_held_amount_msat = None, ib_canceled_reason = None\<rparr>"

fun invoice_apply_event :: "invoice_builder \<Rightarrow> invoice_event \<Rightarrow> invoice_builder" where
  "invoice_apply_event b (EvCreated hash pre wallet amount expiry bolt ext created) =
     b\<lparr>ib_payment_hash := Some hash, ib_payment_preimage := Some pre, ib_wallet_id := Some wallet,
       ib_amount_msat := Some amount, ib_expiry_at := Some expiry, ib_bolt_invoice := Some bolt,
       ib_external_id := Some ext, ib_created_at := Some created\<rparr>"
| "invoice_apply_event b (EvHtlcHeld _ amt) =
     b\<lparr>ib_state := Some Held, ib_held_amount_msat := Some (Some amt)\<rparr>"
| "invoice_apply_event b (EvSettled _) = b\<lparr>ib_state := Some Settled\<rparr>"
| "invoice_apply_event b (EvSettledIntraledger _) = b\<lparr>ib_state := Some Settled\<rparr>"
| "invoice_apply_event b (EvCanceled _ reason) =
     b\<lparr>ib_state := Some Canceled, ib_canceled_reason := Some (Some reason)\<rparr>"

text \<open>The derived \<open>build()\<close>: fields in declaration order, the first missing required one is the
  error, defaults for the three fields that declare one.\<close>

definition invoice_build :: "invoice_id \<Rightarrow> invoice_builder \<Rightarrow> 'es \<Rightarrow> hydration_error + 'es invoice" where
  "invoice_build i b es =
     bindR (ok_or (ib_payment_hash b) (UninitializedFieldError ''payment_hash'')) (\<lambda>hash.
     bindR (ok_or (ib_payment_preimage b) (UninitializedFieldError ''payment_preimage'')) (\<lambda>pre.
     bindR (ok_or (ib_wallet_id b) (UninitializedFieldError ''wallet_id'')) (\<lambda>wallet.
     bindR (ok_or (ib_amount_msat b) (UninitializedFieldError ''amount_msat'')) (\<lambda>amount.
     bindR (ok_or (ib_expiry_at b) (UninitializedFieldError ''expiry_at'')) (\<lambda>expiry.
     bindR (ok_or (ib_bolt_invoice b) (UninitializedFieldError ''bolt_invoice'')) (\<lambda>bolt.
     bindR (ok_or (ib_external_id b) (UninitializedFieldError ''external_id'')) (\<lambda>ext.
     bindR (ok_or (ib_created_at b) (UninitializedFieldError ''created_at'')) (\<lambda>created.
     Inr \<lparr>inv_id = i, inv_payment_hash = hash, inv_payment_preimage = pre, inv_wallet_id = wallet,
          inv_amount_msat = amount, inv_expiry_at = expiry, inv_bolt_invoice = bolt,
          inv_external_id = ext, inv_state = unwrap_or (ib_state b) Open, inv_created_at = created,
          inv_held_amount_msat = unwrap_or (ib_held_amount_msat b) None,
          inv_canceled_reason = unwrap_or (ib_canceled_reason b) None, inv_events = es\<rparr>))))))))"

definition invoice_try_from_events ::
  "('es, invoice_id, invoice_event) es_crate \<Rightarrow> 'es \<Rightarrow> hydration_error + 'es invoice" where
  "invoice_try_from_events E es =
     invoice_build (ee_id E es)
       (foldl invoice_apply_event invoice_builder_default (ee_iter_all E es)) es"

section \<open>Projection queries of the repository (repo.rs)\<close>

text \<open>The two hand-written queries, over the rows of the \<open>invoices\<close> table in the order the
  database returns them. The loads that follow the first one are in \<open>App_Invoices\<close>.\<close>

record invoice_row =
  ir_id :: invoice_id
  ir_payment_hash :: payment_hash
  ir_state :: string

definition open_invoice_ids :: "invoice_row list \<Rightarrow> invoice_id list" where
  "open_invoice_ids rows = map ir_id (filter (\<lambda>row. ir_state row \<in> {''open'', ''held''}) rows)"

definition list_held :: "i64 \<Rightarrow> invoice_row list \<Rightarrow> invoice_error + payment_hash list" where
  "list_held limit rows =
     (if sint limit < 0 then Inl (InvSqlx ''LIMIT must not be negative'')
      else Inr (map ir_payment_hash
        (take (nat (sint limit)) (filter (\<lambda>row. ir_state row = ''held'') rows))))"


section \<open>Lifecycle specification\<close>

text \<open>The lifecycle as an automaton on events, and the logs it accepts with the state each
  log ends in.\<close>

fun inv_next :: "invoice_state \<Rightarrow> invoice_event \<Rightarrow> invoice_state option" where
  "inv_next Open (EvHtlcHeld _ _) = Some Held"
| "inv_next Open (EvSettledIntraledger _) = Some Settled"
| "inv_next Open (EvCanceled _ _) = Some Canceled"
| "inv_next Held (EvSettled _) = Some Settled"
| "inv_next Held (EvCanceled _ _) = Some Canceled"
| "inv_next _ _ = None"

fun_cases inv_next_SomeE: "inv_next s ev = Some s'"

inductive inv_log :: "invoice_event list \<Rightarrow> invoice_state \<Rightarrow> bool" where
  created: "inv_log [EvCreated hash pre wallet amount expiry bolt ext at] Open"
| event: "inv_log evs s \<Longrightarrow> inv_next s ev = Some s' \<Longrightarrow> inv_log (evs @ [ev]) s'"

lemma inv_log_steps:
  "inv_log evs Open \<Longrightarrow> inv_log (evs @ [EvHtlcHeld t a]) Held"
  "inv_log evs Open \<Longrightarrow> inv_log (evs @ [EvSettledIntraledger t]) Settled"
  "inv_log evs Open \<Longrightarrow> inv_log (evs @ [EvCanceled t c]) Canceled"
  "inv_log evs Held \<Longrightarrow> inv_log (evs @ [EvSettled t]) Settled"
  "inv_log evs Held \<Longrightarrow> inv_log (evs @ [EvCanceled t c]) Canceled"
  by (auto elim: inv_log.event)

definition inv_terminal :: "invoice_state \<Rightarrow> bool" where
  "inv_terminal s \<longleftrightarrow> s = Settled \<or> s = Canceled"

lemma inv_terminal_stuck: "inv_terminal s \<Longrightarrow> inv_next s ev = None"
  by (cases s; cases ev) (auto simp: inv_terminal_def)

text \<open>What a log of the automaton contains, by its state.\<close>

definition inv_has :: "(invoice_event \<Rightarrow> bool) \<Rightarrow> invoice_event list \<Rightarrow> bool" where
  "inv_has p evs \<longleftrightarrow> (\<exists>ev \<in> set evs. p ev)"

lemma inv_has_simps [simp]:
  "inv_has p [] = False"
  "inv_has p (x # xs) = (p x \<or> inv_has p xs)"
  "inv_has p (xs @ ys) = (inv_has p xs \<or> inv_has p ys)"
  by (auto simp: inv_has_def)

lemma already_applied_inv: "already_applied E p es = inv_has p (ee_iter_all E es)"
  by (simp add: already_applied_iff inv_has_def)

lemma inv_log_shape:
  assumes "inv_log evs s"
  shows "(inv_has is_HtlcHeld evs \<longrightarrow> s \<noteq> Open) \<and> (s = Held \<longrightarrow> inv_has is_HtlcHeld evs) \<and>
    (inv_has is_Settled evs \<longrightarrow> s = Settled \<and> inv_has is_HtlcHeld evs) \<and>
    (inv_has is_SettledIntraledger evs \<longrightarrow> s = Settled \<and> \<not> inv_has is_HtlcHeld evs) \<and>
    (inv_has is_Canceled evs \<longleftrightarrow> s = Canceled) \<and>
    (s = Settled \<longrightarrow> inv_has is_Settled evs \<noteq> inv_has is_SettledIntraledger evs)"
  using assms
proof induction
  case (event evs s ev s')
  then show ?case by (cases s; cases ev) auto
qed simp

lemma inv_log_not_Nil: "inv_log evs s \<Longrightarrow> evs \<noteq> []"
  by (induction rule: inv_log.induct) simp_all

lemma inv_log_functional: "inv_log evs s \<Longrightarrow> inv_log evs s' \<Longrightarrow> s' = s"
proof (induction arbitrary: s' rule: inv_log.induct)
  case (created hash pre wallet amount expiry bolt ext at)
  then show ?case by (cases rule: inv_log.cases) (auto dest: inv_log_not_Nil)
next
  case (event evs s ev s1)
  from event.prems show ?case
  proof (cases rule: inv_log.cases)
    case created
    then show ?thesis using inv_log_not_Nil [OF event.hyps(1)] by simp
  next
    case (event evs0 s0 ev0)
    then show ?thesis using event.IH event.hyps(2) by simp
  qed
qed

lemma inv_log_counts:
  assumes "inv_log evs s"
  shows "countP is_HtlcHeld evs \<le> 1"
    "countP is_Settled evs + countP is_SettledIntraledger evs + countP is_Canceled evs =
       (if inv_terminal s then 1 else 0)"
  using assms
proof induction
  case (event evs s ev s')
  {
    case 1
    then show ?case
      using event inv_log_shape [OF event.hyps(1)]
      by (cases s; cases ev) (auto simp: inv_has_def countP_0_iff)
  next
    case 2
    then show ?case
      using event by (cases s; cases ev) (auto simp: inv_terminal_def)
  }
qed (simp_all add: inv_terminal_def)

section \<open>Hydration facts\<close>

lemma foldl_snoc_apply:
  "foldl invoice_apply_event b (evs @ [ev]) = invoice_apply_event (foldl invoice_apply_event b evs) ev"
  by simp

lemma invoice_build_Inr_iff:
  "invoice_build i b es = Inr x \<longleftrightarrow>
     inv_id x = i \<and> inv_events x = es \<and>
     ib_payment_hash b = Some (inv_payment_hash x) \<and>
     ib_payment_preimage b = Some (inv_payment_preimage x) \<and>
     ib_wallet_id b = Some (inv_wallet_id x) \<and> ib_amount_msat b = Some (inv_amount_msat x) \<and>
     ib_expiry_at b = Some (inv_expiry_at x) \<and> ib_bolt_invoice b = Some (inv_bolt_invoice x) \<and>
     ib_external_id b = Some (inv_external_id x) \<and> ib_created_at b = Some (inv_created_at x) \<and>
     inv_state x = unwrap_or (ib_state b) Open \<and>
     inv_held_amount_msat x = unwrap_or (ib_held_amount_msat b) None \<and>
     inv_canceled_reason x = unwrap_or (ib_canceled_reason b) None"
  by (cases x) (auto simp: invoice_build_def bindR_Inr_iff ok_or_def split: option.splits)

lemmas invoice_hydrates_iff = invoice_try_from_events_def invoice_build_Inr_iff

lemma invoice_command_simps:
  "mark_held E a t x = (r, x') \<Longrightarrow> r = Inr Executed \<Longrightarrow>
     x' = x\<lparr>inv_events := ee_push E (EvHtlcHeld t a) (inv_events x), inv_state := Held,
            inv_held_amount_msat := Some a\<rparr> \<and> inv_state x = Open"
  "settle_invoice E t x = (r, x') \<Longrightarrow> r = Inr Executed \<Longrightarrow>
     x' = x\<lparr>inv_events := ee_push E (EvSettled t) (inv_events x), inv_state := Settled\<rparr> \<and>
     inv_state x = Held"
  "settle_intraledger E t x = (r, x') \<Longrightarrow> r = Inr Executed \<Longrightarrow>
     x' = x\<lparr>inv_events := ee_push E (EvSettledIntraledger t) (inv_events x), inv_state := Settled\<rparr> \<and>
     inv_state x = Open"
  "cancel_invoice E c t x = (r, x') \<Longrightarrow> r = Inr Executed \<Longrightarrow>
     x' = x\<lparr>inv_events := ee_push E (EvCanceled t c) (inv_events x), inv_state := Canceled,
            inv_canceled_reason := Some c\<rparr> \<and> inv_state x \<in> {Open, Held}"
  by (auto simp: mark_held_def settle_invoice_def settle_intraledger_def cancel_invoice_def
      split: if_splits)

lemma invoice_command_noop:
  "mark_held E a t x = (r, x') \<Longrightarrow> r \<noteq> Inr Executed \<Longrightarrow> x' = x"
  "settle_invoice E t x = (r, x') \<Longrightarrow> r \<noteq> Inr Executed \<Longrightarrow> x' = x"
  "settle_intraledger E t x = (r, x') \<Longrightarrow> r \<noteq> Inr Executed \<Longrightarrow> x' = x"
  "cancel_invoice E c t x = (r, x') \<Longrightarrow> r \<noteq> Inr Executed \<Longrightarrow> x' = x"
  by (auto simp: mark_held_def settle_invoice_def settle_intraledger_def cancel_invoice_def
      split: if_splits)

definition invoice_commands ::
  "('es, invoice_id, invoice_event) es_crate \<Rightarrow>
   ('es invoice \<Rightarrow> (invoice_error + idempotent) \<times> 'es invoice) set" where
  "invoice_commands E =
     {mark_held E a t | a t. True} \<union> {settle_invoice E t | t. True} \<union>
     {settle_intraledger E t | t. True} \<union> {cancel_invoice E c t | c t. True}"

lemma invoice_event_sourced:
  assumes "es_events E"
  shows "event_sourced E inv_events (invoice_try_from_events E) (invoice_commands E)"
proof (rule event_sourced.intro [OF assms], unfold_locales)
  fix c x r x'
  assume c: "c \<in> invoice_commands E" and h: "invoice_try_from_events E (inv_events x) = Inr x"
    and cx: "c x = (r, x')"
  note laws = es_events.es_laws [OF assms]
  from c consider (held) a t where "c = mark_held E a t" | (settle) t where "c = settle_invoice E t"
    | (intra) t where "c = settle_intraledger E t" | (cancel) k t where "c = cancel_invoice E k t"
    by (auto simp: invoice_commands_def)
  then show "if r = Inr Executed
     then \<exists>ev. inv_events x' = ee_push E ev (inv_events x) \<and>
       invoice_try_from_events E (inv_events x') = Inr x'
     else x' = x"
  proof cases
    case held
    then show ?thesis
      using h cx invoice_command_simps(1) [of E a t x r x'] invoice_command_noop(1) [of E a t x r x']
      by (auto simp: invoice_hydrates_iff laws)
  next
    case settle
    then show ?thesis
      using h cx invoice_command_simps(2) [of E t x r x'] invoice_command_noop(2) [of E t x r x']
      by (auto simp: invoice_hydrates_iff laws)
  next
    case intra
    then show ?thesis
      using h cx invoice_command_simps(3) [of E t x r x'] invoice_command_noop(3) [of E t x r x']
      by (auto simp: invoice_hydrates_iff laws)
  next
    case cancel
    then show ?thesis
      using h cx invoice_command_simps(4) [of E k t x r x'] invoice_command_noop(4) [of E k t x r x']
      by (auto simp: invoice_hydrates_iff laws)
  qed
qed

lemma invoice_commands_mem [simp]:
  "mark_held E a t \<in> invoice_commands E" "settle_invoice E t \<in> invoice_commands E"
  "settle_intraledger E t \<in> invoice_commands E" "cancel_invoice E c t \<in> invoice_commands E"
  unfolding invoice_commands_def by blast+

text \<open>A container of invoice events; over any such container the invoice is an event-sourced
  entity.\<close>

locale invoice_container = es_events E
  for E :: "('es, invoice_id, invoice_event) es_crate"
begin

end

sublocale invoice_container \<subseteq> inv: event_sourced E inv_events "invoice_try_from_events E" "invoice_commands E"
  by (rule invoice_event_sourced [OF es_events_axioms])

interpretation ref_invoice: invoice_container ref_es
  by unfold_locales

section \<open>Reachable invoices\<close>

text \<open>An invoice the program can hold: built from a fresh log, changed by a command, or loaded
  again from a container with the same log.\<close>

inductive invoice_reachable ::
  "('es, invoice_id, invoice_event) es_crate \<Rightarrow> 'es invoice \<Rightarrow> bool" for E where
  fresh: "invoice_try_from_events E (new_invoice_into_events E n) = Inr x \<Longrightarrow> invoice_reachable E x"
| command: "invoice_reachable E x \<Longrightarrow> c \<in> invoice_commands E \<Longrightarrow> c x = (r, x') \<Longrightarrow>
    invoice_reachable E x'"
| reload: "invoice_reachable E x \<Longrightarrow> ee_iter_all E es = ee_iter_all E (inv_events x) \<Longrightarrow>
    invoice_try_from_events E es = Inr x' \<Longrightarrow> invoice_reachable E x'"

lemma builder_held:
  "unwrap_or (ib_held_amount_msat (foldl invoice_apply_event b evs)) None \<noteq> None \<longleftrightarrow>
     unwrap_or (ib_held_amount_msat b) None \<noteq> None \<or> inv_has is_HtlcHeld evs"
proof (induction evs arbitrary: b)
  case (Cons ev evs)
  then show ?case by (cases ev) auto
qed simp

lemma invoice_state_same_log:
  assumes "invoice_try_from_events E es = Inr x" "invoice_try_from_events E es' = Inr x'"
    "ee_iter_all E es = ee_iter_all E es'"
  shows "inv_state x = inv_state x'"
  using assms by (simp add: invoice_hydrates_iff)

context invoice_container
begin

lemma fresh_log:
  assumes "invoice_try_from_events E (new_invoice_into_events E n) = Inr x"
  shows "inv_log (ee_iter_all E (inv_events x)) (inv_state x)"
  using assms
  by (auto simp: invoice_hydrates_iff new_invoice_into_events_def es_laws invoice_builder_default_def
      intro: inv_log.created)

lemma command_log_step:
  assumes "inv_log (ee_iter_all E (inv_events x)) (inv_state x)"
    and "c \<in> invoice_commands E" "c x = (r, x')"
  shows "inv_log (ee_iter_all E (inv_events x')) (inv_state x')"
proof (cases "r = Inr Executed")
  case True
  then show ?thesis
    using assms
    by (auto simp: invoice_commands_def es_laws dest!: invoice_command_simps intro: inv_log_steps)
next
  case False
  with assms show ?thesis
    by (auto simp: invoice_commands_def dest: invoice_command_noop)
qed

lemma reachable_hydrates:
  "invoice_reachable E x \<Longrightarrow> invoice_try_from_events E (inv_events x) = Inr x"
proof (induction rule: invoice_reachable.induct)
  case (command x c r x')
  then show ?case
    by (metis inv.command_keeps_hydration)
qed (auto simp: invoice_hydrates_iff)

lemma reachable_log:
  "invoice_reachable E x \<Longrightarrow> inv_log (ee_iter_all E (inv_events x)) (inv_state x)"
proof (induction rule: invoice_reachable.induct)
  case (reload x es x')
  have "inv_events x' = es" using reload.hyps(3) by (simp add: invoice_hydrates_iff)
  moreover have "inv_state x' = inv_state x"
    using invoice_state_same_log [OF reload.hyps(3) reachable_hydrates [OF reload.hyps(1)]]
      reload.hyps(2) by simp
  ultimately show ?case using reload by simp
qed (auto intro: fresh_log command_log_step)

lemma reachable_held_amount:
  assumes "invoice_reachable E x"
  shows "inv_held_amount_msat x \<noteq> None \<longleftrightarrow> inv_has is_HtlcHeld (ee_iter_all E (inv_events x))"
proof -
  have "inv_held_amount_msat x =
      unwrap_or (ib_held_amount_msat
        (foldl invoice_apply_event invoice_builder_default (ee_iter_all E (inv_events x)))) None"
    using reachable_hydrates [OF assms] unfolding invoice_hydrates_iff by blast
  then show ?thesis
    using builder_held [of invoice_builder_default] by (simp add: invoice_builder_default_def)
qed

lemma held_has_amount: "invoice_reachable E x \<Longrightarrow> inv_state x = Held \<Longrightarrow> inv_held_amount_msat x \<noteq> None"
  using reachable_held_amount inv_log_shape [OF reachable_log] by blast

lemma log_witness: "inv_log evs s \<Longrightarrow> \<exists>x. invoice_reachable E x \<and> ee_iter_all E (inv_events x) = evs"
proof (induction rule: inv_log.induct)
  case (created hash pre wallet amount expiry bolt ext at)
  define n where "n = \<lparr>ni_id = InvoiceId 0, ni_payment_hash = hash, ni_payment_preimage = pre,
    ni_wallet_id = wallet, ni_amount_msat = amount, ni_expiry_at = expiry, ni_bolt_invoice = bolt,
    ni_external_id = ext, ni_created_at = at\<rparr>"
  have "\<exists>x. invoice_try_from_events E (new_invoice_into_events E n) = Inr x"
    by (simp add: invoice_try_from_events_def invoice_build_def new_invoice_into_events_def es_laws
        invoice_builder_default_def)
  then obtain x where x: "invoice_try_from_events E (new_invoice_into_events E n) = Inr x" ..
  have "inv_events x = new_invoice_into_events E n"
    using x unfolding invoice_hydrates_iff by blast
  then have "ee_iter_all E (inv_events x) = [EvCreated hash pre wallet amount expiry bolt ext at]"
    by (simp add: new_invoice_into_events_def es_laws n_def)
  with invoice_reachable.fresh [OF x] show ?case by blast
next
  case (event evs s ev s')
  then obtain x where x: "invoice_reachable E x" "ee_iter_all E (inv_events x) = evs" by blast
  have st: "inv_state x = s"
    using reachable_log [OF x(1)] event.hyps(1) x(2) inv_log_functional by metis
  define c where "c = (case ev of EvHtlcHeld t a \<Rightarrow> mark_held E a t | EvSettled t \<Rightarrow> settle_invoice E t
    | EvSettledIntraledger t \<Rightarrow> settle_intraledger E t | EvCanceled t k \<Rightarrow> cancel_invoice E k t
    | _ \<Rightarrow> mark_held E ZERO (Timestamp 0))"
  obtain r x' where c: "c x = (r, x')" by fastforce
  have "c \<in> invoice_commands E"
    by (simp add: c_def split: invoice_event.split)
  from invoice_reachable.command [OF x(1) this c] have "invoice_reachable E x'" .
  moreover have "ee_iter_all E (inv_events x') = evs @ [ev]"
  proof -
    have fresh: "inv_state x = Open \<Longrightarrow> \<not> inv_has is_HtlcHeld evs \<and> \<not> inv_has is_SettledIntraledger evs"
      "inv_state x \<noteq> Settled \<Longrightarrow> \<not> inv_has is_Settled evs"
      "inv_state x \<noteq> Canceled \<Longrightarrow> \<not> inv_has is_Canceled evs"
      using inv_log_shape [OF event.hyps(1)] st by auto
    note defs = mark_held_def settle_invoice_def settle_intraledger_def cancel_invoice_def
      already_applied_inv es_laws
    from event.hyps(2) show ?thesis
      by (cases rule: inv_next_SomeE) (use c st x(2) fresh in \<open>auto simp: c_def defs\<close>)
  qed
  ultimately show ?case by blast
qed

lemma hydrated_log_reachable:
  assumes "inv_log (ee_iter_all E es) s" "invoice_try_from_events E es = Inr x"
  shows "invoice_reachable E x"
  using log_witness [OF assms(1)] invoice_reachable.reload assms(2) by metis

lemma terminal_absorbs_command:
  assumes "invoice_reachable E x" "inv_terminal (inv_state x)" "c \<in> invoice_commands E" "c x = (r, x')"
  shows "x' = x"
proof (cases "r = Inr Executed")
  case True
  with assms(2-4) show ?thesis
    by (auto simp: invoice_commands_def inv_terminal_def dest!: invoice_command_simps)
next
  case False
  with assms(3,4) show ?thesis
    by (auto simp: invoice_commands_def dest: invoice_command_noop)
qed

lemma terminal_absorbs_run:
  assumes "invoice_reachable E x" "inv_terminal (inv_state x)" "set cs \<subseteq> invoice_commands E"
  shows "snd (run_commands cs x) = x"
  using assms(3)
proof (induction cs)
  case (Cons c cs)
  obtain r x1 where c: "c x = (r, x1)" by fastforce
  with Cons.prems have "x1 = x"
    using terminal_absorbs_command [OF assms(1,2), of c r x1] by simp
  with c Cons show ?case by (simp add: case_prod_beta Let_def)
qed simp

end

section \<open>Properties\<close>

text \<open>C12. Every reachable invoice is the hydration of its own event log, its log is a run of the
  lifecycle automaton ending in its projected state, at most one HTLC is ever parked, exactly
  one terminal event is present in a terminal state and none otherwise, and a \<open>Held\<close> invoice
  carries the parked amount (so the settlement commit can always read it).\<close>

theorem invoice_lifecycle:
  assumes "es_events E" "invoice_reachable E x"
  shows "invoice_try_from_events E (inv_events x) = Inr x \<and>
    inv_log (ee_iter_all E (inv_events x)) (inv_state x) \<and>
    countP is_HtlcHeld (ee_iter_all E (inv_events x)) \<le> 1 \<and>
    countP is_Settled (ee_iter_all E (inv_events x)) +
      countP is_SettledIntraledger (ee_iter_all E (inv_events x)) +
      countP is_Canceled (ee_iter_all E (inv_events x)) = (if inv_terminal (inv_state x) then 1 else 0) \<and>
    (inv_state x = Held \<longrightarrow> inv_held_amount_msat x \<noteq> None)"
proof -
  have c: "invoice_container E" using assms(1) by (rule invoice_container.intro)
  note l = invoice_container.reachable_log [OF c assms(2)]
  show ?thesis
    using l invoice_container.reachable_hydrates [OF c assms(2)]
      invoice_container.held_has_amount [OF c assms(2)] inv_log_counts [OF l]
    by simp
qed

definition sample_new_invoice :: new_invoice where
  "sample_new_invoice = \<lparr>ni_id = InvoiceId 1, ni_payment_hash = PaymentHash (replicate 32 7),
     ni_payment_preimage = Preimage (replicate 32 9), ni_wallet_id = WalletId 5,
     ni_amount_msat = Some (MilliSatoshi 25000), ni_expiry_at = Timestamp 3600000000000,
     ni_bolt_invoice = BoltInvoice ''lnbc1'', ni_external_id = ''ext-1'', ni_created_at = Timestamp 0\<rparr>"

definition sample_invoice :: "(invoice_id, invoice_event) entity_events invoice" where
  "sample_invoice = projr (invoice_try_from_events ref_es (new_invoice_into_events ref_es sample_new_invoice))"

definition sample_held :: "(invoice_id, invoice_event) entity_events invoice" where
  "sample_held = snd (mark_held ref_es (MilliSatoshi 25000) (Timestamp 5) sample_invoice)"

lemma sample_invoice_hydrates:
  "invoice_try_from_events ref_es (new_invoice_into_events ref_es sample_new_invoice) = Inr sample_invoice"
  by (simp add: sample_invoice_def invoice_try_from_events_def new_invoice_into_events_def ref_es_def
      invoice_build_def invoice_builder_default_def)

lemma sample_invoice_reachable: "invoice_reachable ref_es sample_invoice"
  by (rule invoice_reachable.fresh [OF sample_invoice_hydrates])

lemma sample_held_reachable: "invoice_reachable ref_es sample_held"
  unfolding sample_held_def
  by (rule invoice_reachable.command [OF sample_invoice_reachable, where c = "mark_held ref_es (MilliSatoshi 25000) (Timestamp 5)"])
    (auto simp: invoice_commands_def intro: prod.collapse [symmetric])

lemma sample_held_state: "inv_state sample_held = Held"
  by (simp add: sample_held_def mark_held_def sample_invoice_def invoice_try_from_events_def
      new_invoice_into_events_def ref_es_def invoice_build_def invoice_builder_default_def already_applied_def)

theorem invoice_lifecycle_witness:
  "inv_state sample_held = Held \<and> inv_held_amount_msat sample_held \<noteq> None"
  using invoice_lifecycle [OF ref_es.es_events_axioms sample_held_reachable] sample_held_state by simp

text \<open>The answer of each command on a reachable invoice is determined by its projected state
  and by whether an HTLC was ever parked: the table of transitions, idempotent replays and
  refused transitions.\<close>

lemma invoice_command_table:
  assumes "es_events E" "invoice_reachable E x"
  shows "fst (mark_held E amt t x) =
      (if inv_state x = Open then Inr Executed
       else if inv_held_amount_msat x \<noteq> None then Inr AlreadyApplied
       else Inl (InvInvalidStateTransition (inv_state x) ''mark_held'')) \<and>
    fst (settle_invoice E t x) =
      (if inv_state x = Held then Inr Executed
       else if inv_state x = Settled \<and> inv_held_amount_msat x \<noteq> None then Inr AlreadyApplied
       else Inl (InvInvalidStateTransition (inv_state x) ''settle'')) \<and>
    fst (settle_intraledger E t x) =
      (if inv_state x = Open then Inr Executed
       else if inv_state x = Settled \<and> inv_held_amount_msat x = None then Inr AlreadyApplied
       else Inl (InvInvalidStateTransition (inv_state x) ''settle_intraledger'')) \<and>
    fst (cancel_invoice E c t x) =
      (if inv_state x = Open \<or> inv_state x = Held then Inr Executed
       else if inv_state x = Canceled then Inr AlreadyApplied
       else Inl (InvInvalidStateTransition (inv_state x) ''cancel''))"
proof -
  have c: "invoice_container E" using assms(1) by (rule invoice_container.intro)
  note shape = inv_log_shape [OF invoice_container.reachable_log [OF c assms(2)]]
  note amount = invoice_container.reachable_held_amount [OF c assms(2)]
  show ?thesis
    using shape unfolding amount [symmetric]
    unfolding mark_held_def settle_invoice_def settle_intraledger_def cancel_invoice_def
      already_applied_inv amount [symmetric]
    by (cases "inv_state x") auto
qed

text \<open>\<open>Settled\<close> and \<open>Canceled\<close> are absorbing: whatever commands arrive afterwards, in any
  order and number (a replayed LND stream, a racing cancel), the aggregate with its log is left
  exactly as it was.\<close>

lemma invoice_terminal_absorbing:
  assumes "es_events E" "invoice_reachable E x" "inv_state x = Settled \<or> inv_state x = Canceled"
    and "set cs \<subseteq> invoice_commands E"
  shows "snd (run_commands cs x) = x"
  using invoice_container.terminal_absorbs_run [OF invoice_container.intro [OF assms(1)] assms(2) _ assms(4)]
    assms(3) by (simp add: inv_terminal_def)

definition sample_settled :: "(invoice_id, invoice_event) entity_events invoice" where
  "sample_settled = snd (settle_invoice ref_es (Timestamp 9) sample_held)"

lemma sample_settled_facts: "invoice_reachable ref_es sample_settled" "inv_state sample_settled = Settled"
proof -
  show "invoice_reachable ref_es sample_settled"
    unfolding sample_settled_def
    by (rule invoice_reachable.command [OF sample_held_reachable, where c = "settle_invoice ref_es (Timestamp 9)"])
      (auto simp: invoice_commands_def intro: prod.collapse [symmetric])
  show "inv_state sample_settled = Settled"
    by (simp add: sample_settled_def settle_invoice_def sample_held_def mark_held_def sample_invoice_def
        invoice_try_from_events_def new_invoice_into_events_def ref_es_def invoice_build_def
        invoice_builder_default_def already_applied_def)
qed

text \<open>The validating constructor accepts everything except an explicit zero amount, and the
  stored expiry is between one minute and one day after creation whatever the caller asks for:
  the requested value inside that range, four hours outside it.\<close>

lemma new_invoice_try_new_spec:
  "new_invoice_try_new i h p w amt secs b ext now =
     (if amt = Some ZERO then Inl InvInvalidAmount
      else Inr \<lparr>ni_id = i, ni_payment_hash = h, ni_payment_preimage = p, ni_wallet_id = w,
                ni_amount_msat = amt,
                ni_expiry_at = Timestamp (instant now + int (unat (effective_expiry secs)) * 10 ^ 9),
                ni_bolt_invoice = b, ni_external_id = ext, ni_created_at = now\<rparr>) \<and>
   unat (effective_expiry secs) = (if 60 \<le> unat secs \<and> unat secs \<le> 86400 then unat secs else 14400)"
proof -
  have "(case amt of Some a \<Rightarrow> as_u64 a = 0 | None \<Rightarrow> False) \<longleftrightarrow> amt = Some ZERO"
    by (cases amt) (auto simp: ZERO_def milli_satoshi.expand)
  moreover have "unat (effective_expiry secs) =
      (if 60 \<le> unat secs \<and> unat secs \<le> 86400 then unat secs else 14400)"
    by (simp add: effective_expiry_def expiry_consts word_le_nat_alt)
  moreover have uint: "int (unat (effective_expiry secs)) = uint (effective_expiry secs)"
    by simp
  ultimately show ?thesis
    unfolding new_invoice_try_new_def add_seconds_def Let_def uint by simp
qed

end
