(* ===== verification/Payment.thy ===== *)
theory Payment
  imports Primitives Event_Sourcing
begin

text \<open>
  The outbound aggregate of \<open>src/payment/\<close>: lifecycle states, failure reasons, events, errors,
  the two validating constructors (Lightning and intraledger), the four command methods,
  hydration, and the stranded-intent query. The lifecycle specification \<open>pay_log\<close> is an
  automaton over event logs; the commands refine it.
\<close>

section \<open>States, events, errors\<close>

datatype payment_state = Initiated | Pending | Completed | Failed | Reversed

datatype failure_reason =
    Timeout | NoRoute | InsufficientBalance | IncorrectPaymentDetails | Other string

record hop =
  hop_pub_key :: pubkey
  hop_channel_id :: u64
  hop_fee_msat :: milli_satoshi
  hop_amt_msat :: milli_satoshi
  hop_expiry :: u32

datatype payment_event =
    EvInitiated payment_hash wallet_id milli_satoshi milli_satoshi bolt_invoice string timestamp
  | EvPending timestamp
  | EvCompleted timestamp preimage milli_satoshi "hop list"
  | EvFailed timestamp failure_reason
  | EvReversed timestamp string

datatype payment_column = PaymentColumn_PaymentHash | PaymentColumn_Other

datatype payment_create_error =
    PaymentConstraintViolation "payment_column option" "string option"
  | PaymentCreateOther string

datatype payment_error =
    PayInvalidAmount
  | AmountRequired
  | AmountOverspecified
  | AmountMismatch
  | InvalidMaxFee
  | EmptyBoltInvoice
  | InvalidBoltInvoice string
  | ExpiredBoltInvoice
  | AlreadyPaid string
  | SelfPayment
  | RecipientInvoiceCanceled
  | RecipientInvoiceInProgress
  | RecipientInvoiceExpired
  | PayInvalidStateTransition payment_state string
  | CorruptEventLog
  | PaymentCreate payment_create_error
  | PaymentModify es_modify_error
  | PaymentFind es_find_error
  | PaymentQuery string
  | PaySqlx string

definition payment_create_error_into :: "payment_create_error \<Rightarrow> payment_error" where
  "payment_create_error_into e =
     (case e of
        PaymentConstraintViolation (Some PaymentColumn_PaymentHash) v \<Rightarrow> AlreadyPaid (unwrap_or v [])
      | other \<Rightarrow> PaymentCreate other)"

fun payment_state_str :: "payment_state \<Rightarrow> string" where
  "payment_state_str Initiated = ''initiated''"
| "payment_state_str Pending = ''pending''"
| "payment_state_str Completed = ''completed''"
| "payment_state_str Failed = ''failed''"
| "payment_state_str Reversed = ''reversed''"

fun failure_reason_str :: "failure_reason \<Rightarrow> string" where
  "failure_reason_str Timeout = ''Timeout''"
| "failure_reason_str NoRoute = ''NoRoute''"
| "failure_reason_str InsufficientBalance = ''InsufficientBalance''"
| "failure_reason_str IncorrectPaymentDetails = ''IncorrectPaymentDetails''"
| "failure_reason_str (Other _) = ''Other''"

fun failure_detail_str :: "failure_reason \<Rightarrow> string" where
  "failure_detail_str (Other s) = ''Other: '' @ s"
| "failure_detail_str other = failure_reason_str other"

section \<open>The validating constructors\<close>

record decoded_invoice =
  di_payment_hash :: payment_hash
  di_destination :: string
  di_amount_msat :: "milli_satoshi option"
  di_bolt_invoice :: bolt_invoice

record new_payment =
  np_id :: payment_id
  np_payment_hash :: payment_hash
  np_wallet_id :: wallet_id
  np_amount_msat :: milli_satoshi
  np_max_fee_msat :: milli_satoshi
  np_bolt_invoice :: bolt_invoice
  np_destination :: string
  np_initiated_at :: timestamp

text \<open>\<open>PaymentId::new()\<close> draws a random UUID; the draw is the argument \<open>new_id\<close>.\<close>

definition new_payment_try_new ::
  "payment_id \<Rightarrow> decoded_invoice \<Rightarrow> wallet_id \<Rightarrow> milli_satoshi option \<Rightarrow> milli_satoshi \<Rightarrow> timestamp \<Rightarrow>
   payment_error + new_payment" where
  "new_payment_try_new new_id decoded wallet requested_amount_msat max_fee_msat initiated_at =
     bindR (case (di_amount_msat decoded, requested_amount_msat) of
              (Some invoice_amount, None) \<Rightarrow> Inr invoice_amount
            | (None, Some requested) \<Rightarrow> Inr requested
            | (Some _, Some _) \<Rightarrow> Inl AmountOverspecified
            | (None, None) \<Rightarrow> Inl AmountRequired) (\<lambda>amount_msat.
     if as_u64 amount_msat = 0 then Inl PayInvalidAmount
     else if as_u64 max_fee_msat = 0 then Inl InvalidMaxFee
     else if bolt_str (di_bolt_invoice decoded) = [] then Inl EmptyBoltInvoice
     else Inr \<lparr>np_id = new_id, np_payment_hash = di_payment_hash decoded, np_wallet_id = wallet,
               np_amount_msat = amount_msat, np_max_fee_msat = max_fee_msat,
               np_bolt_invoice = di_bolt_invoice decoded, np_destination = di_destination decoded,
               np_initiated_at = initiated_at\<rparr>)"

definition new_payment_try_new_intraledger ::
  "payment_id \<Rightarrow> decoded_invoice \<Rightarrow> milli_satoshi option \<Rightarrow> wallet_id \<Rightarrow> timestamp \<Rightarrow>
   payment_error + new_payment" where
  "new_payment_try_new_intraledger new_id decoded invoice_amount_msat wallet initiated_at =
     bindR (case invoice_amount_msat of
              Some invoice_amount \<Rightarrow>
                (if (case di_amount_msat decoded of
                       Some sender_amount \<Rightarrow> sender_amount \<noteq> invoice_amount | None \<Rightarrow> False)
                 then Inl AmountMismatch else Inr invoice_amount)
            | None \<Rightarrow> ok_or (di_amount_msat decoded) AmountRequired) (\<lambda>amount_msat.
     if as_u64 amount_msat = 0 then Inl PayInvalidAmount
     else if bolt_str (di_bolt_invoice decoded) = [] then Inl EmptyBoltInvoice
     else Inr \<lparr>np_id = new_id, np_payment_hash = di_payment_hash decoded, np_wallet_id = wallet,
               np_amount_msat = amount_msat, np_max_fee_msat = ZERO,
               np_bolt_invoice = di_bolt_invoice decoded, np_destination = di_destination decoded,
               np_initiated_at = initiated_at\<rparr>)"

definition new_payment_state_str :: "new_payment \<Rightarrow> string" where
  "new_payment_state_str n = payment_state_str Initiated"

definition new_payment_into_events ::
  "('es, payment_id, payment_event) es_crate \<Rightarrow> new_payment \<Rightarrow> 'es" where
  "new_payment_into_events E n =
     ee_init E (np_id n)
       [EvInitiated (np_payment_hash n) (np_wallet_id n) (np_amount_msat n) (np_max_fee_msat n)
          (np_bolt_invoice n) (np_destination n) (np_initiated_at n)]"

section \<open>The aggregate and its commands\<close>

record 'es payment =
  pay_id :: payment_id
  pay_payment_hash :: payment_hash
  pay_wallet_id :: wallet_id
  pay_amount_msat :: milli_satoshi
  pay_max_fee_msat :: milli_satoshi
  pay_state :: payment_state
  pay_fees_paid_msat :: "milli_satoshi option"
  pay_payment_preimage :: "preimage option"
  pay_initiated_at :: timestamp
  pay_settled_at :: "timestamp option"
  pay_events :: 'es

fun is_Pending :: "payment_event \<Rightarrow> bool" where
  "is_Pending (EvPending _) = True" | "is_Pending _ = False"

fun is_Completed :: "payment_event \<Rightarrow> bool" where
  "is_Completed (EvCompleted _ _ _ _) = True" | "is_Completed _ = False"

fun is_Failed :: "payment_event \<Rightarrow> bool" where
  "is_Failed (EvFailed _ _) = True" | "is_Failed _ = False"

fun is_Reversed :: "payment_event \<Rightarrow> bool" where
  "is_Reversed (EvReversed _ _) = True" | "is_Reversed _ = False"

definition mark_pending ::
  "('es, payment_id, payment_event) es_crate \<Rightarrow> timestamp \<Rightarrow> ('es payment, payment_error, idempotent) cmd" where
  "mark_pending E sent_at self =
     (let pushed = self\<lparr>pay_events := ee_push E (EvPending sent_at) (pay_events self),
                        pay_state := Pending\<rparr> in
      case pay_state self of
        Initiated \<Rightarrow> (Inr Executed, pushed)
      | Pending \<Rightarrow>
          (if already_applied E is_Pending (pay_events self) then (Inr AlreadyApplied, self)
           else (Inr Executed, pushed))
      | _ \<Rightarrow> (Inl (PayInvalidStateTransition (pay_state self) ''mark_pending''), self))"

definition settle_payment ::
  "('es, payment_id, payment_event) es_crate \<Rightarrow> preimage \<Rightarrow> milli_satoshi \<Rightarrow> hop list \<Rightarrow> timestamp \<Rightarrow>
   ('es payment, payment_error, idempotent) cmd" where
  "settle_payment E pre fees hops settled_at self =
     (if already_applied E is_Completed (pay_events self) then (Inr AlreadyApplied, self)
      else if pay_state self \<notin> {Initiated, Pending}
      then (Inl (PayInvalidStateTransition (pay_state self) ''settle''), self)
      else (Inr Executed,
            self\<lparr>pay_events := ee_push E (EvCompleted settled_at pre fees hops) (pay_events self),
                 pay_state := Completed, pay_fees_paid_msat := Some fees,
                 pay_payment_preimage := Some pre, pay_settled_at := Some settled_at\<rparr>))"

definition fail_payment ::
  "('es, payment_id, payment_event) es_crate \<Rightarrow> failure_reason \<Rightarrow> timestamp \<Rightarrow>
   ('es payment, payment_error, idempotent) cmd" where
  "fail_payment E reason failed_at self =
     (if already_applied E is_Failed (pay_events self) then (Inr AlreadyApplied, self)
      else if pay_state self \<notin> {Initiated, Pending}
      then (Inl (PayInvalidStateTransition (pay_state self) ''fail''), self)
      else (Inr Executed,
            self\<lparr>pay_events := ee_push E (EvFailed failed_at reason) (pay_events self),
                 pay_state := Failed\<rparr>))"

definition reverse_payment ::
  "('es, payment_id, payment_event) es_crate \<Rightarrow> string \<Rightarrow> timestamp \<Rightarrow>
   ('es payment, payment_error, idempotent) cmd" where
  "reverse_payment E reason reversed_at self =
     (if already_applied E is_Reversed (pay_events self) then (Inr AlreadyApplied, self)
      else if pay_state self \<noteq> Completed
      then (Inl (PayInvalidStateTransition (pay_state self) ''reverse''), self)
      else (Inr Executed,
            self\<lparr>pay_events := ee_push E (EvReversed reversed_at reason) (pay_events self),
                 pay_state := Reversed\<rparr>))"

section \<open>Hydration\<close>

record payment_builder =
  pb_payment_hash :: "payment_hash option"
  pb_wallet_id :: "wallet_id option"
  pb_amount_msat :: "milli_satoshi option"
  pb_max_fee_msat :: "milli_satoshi option"
  pb_state :: "payment_state option"
  pb_fees_paid_msat :: "milli_satoshi option option"
  pb_payment_preimage :: "preimage option option"
  pb_initiated_at :: "timestamp option"
  pb_settled_at :: "timestamp option option"

definition payment_builder_default :: payment_builder where
  "payment_builder_default =
     \<lparr>pb_payment_hash = None, pb_wallet_id = None, pb_amount_msat = None, pb_max_fee_msat = None,
      pb_state = None, pb_fees_paid_msat = None, pb_payment_preimage = None,
      pb_initiated_at = None, pb_settled_at = None\<rparr>"

fun payment_apply_event :: "payment_builder \<Rightarrow> payment_event \<Rightarrow> payment_builder" where
  "payment_apply_event b (EvInitiated hash wallet amount max_fee _ _ at) =
     b\<lparr>pb_payment_hash := Some hash, pb_wallet_id := Some wallet, pb_amount_msat := Some amount,
       pb_max_fee_msat := Some max_fee, pb_initiated_at := Some at\<rparr>"
| "payment_apply_event b (EvPending _) = b\<lparr>pb_state := Some Pending\<rparr>"
| "payment_apply_event b (EvCompleted at pre fees _) =
     b\<lparr>pb_state := Some Completed, pb_settled_at := Some (Some at),
       pb_payment_preimage := Some (Some pre), pb_fees_paid_msat := Some (Some fees)\<rparr>"
| "payment_apply_event b (EvFailed _ _) = b\<lparr>pb_state := Some Failed\<rparr>"
| "payment_apply_event b (EvReversed _ _) = b\<lparr>pb_state := Some Reversed\<rparr>"

definition payment_build :: "payment_id \<Rightarrow> payment_builder \<Rightarrow> 'es \<Rightarrow> hydration_error + 'es payment" where
  "payment_build i b es =
     bindR (ok_or (pb_payment_hash b) (UninitializedFieldError ''payment_hash'')) (\<lambda>hash.
     bindR (ok_or (pb_wallet_id b) (UninitializedFieldError ''wallet_id'')) (\<lambda>wallet.
     bindR (ok_or (pb_amount_msat b) (UninitializedFieldError ''amount_msat'')) (\<lambda>amount.
     bindR (ok_or (pb_max_fee_msat b) (UninitializedFieldError ''max_fee_msat'')) (\<lambda>max_fee.
     bindR (ok_or (pb_initiated_at b) (UninitializedFieldError ''initiated_at'')) (\<lambda>at.
     Inr \<lparr>pay_id = i, pay_payment_hash = hash, pay_wallet_id = wallet, pay_amount_msat = amount,
          pay_max_fee_msat = max_fee, pay_state = unwrap_or (pb_state b) Initiated,
          pay_fees_paid_msat = unwrap_or (pb_fees_paid_msat b) None,
          pay_payment_preimage = unwrap_or (pb_payment_preimage b) None, pay_initiated_at = at,
          pay_settled_at = unwrap_or (pb_settled_at b) None, pay_events = es\<rparr>)))))"

definition payment_try_from_events ::
  "('es, payment_id, payment_event) es_crate \<Rightarrow> 'es \<Rightarrow> hydration_error + 'es payment" where
  "payment_try_from_events E es =
     payment_build (ee_id E es)
       (foldl payment_apply_event payment_builder_default (ee_iter_all E es)) es"

lemma new_payment_fields:
  assumes "new_payment_try_new i d w req max_fee at = Inr n"
  shows "np_payment_hash n = di_payment_hash d" "np_wallet_id n = w" "np_max_fee_msat n = max_fee"
    "np_bolt_invoice n = di_bolt_invoice d" "np_destination n = di_destination d" "np_id n = i"
    "np_amount_msat n \<noteq> ZERO" "max_fee \<noteq> ZERO"
    "di_amount_msat d = Some a \<Longrightarrow> req = None \<Longrightarrow> np_amount_msat n = a"
  using assms
  by (auto simp: new_payment_try_new_def bindR_Inr_iff ZERO_def split: option.splits if_splits)

section \<open>The stranded-intent query (repo.rs)\<close>

record payment_row =
  pr_payment_hash :: payment_hash
  pr_state :: string
  pr_created_at :: timestamp

definition list_stranded_initiated ::
  "timestamp \<Rightarrow> i64 \<Rightarrow> payment_row list \<Rightarrow> payment_error + payment_hash list" where
  "list_stranded_initiated older_than limit rows =
     (if sint limit < 0 then Inl (PaySqlx ''LIMIT must not be negative'')
      else Inr (map pr_payment_hash (take (nat (sint limit))
        (filter (\<lambda>row. pr_state row = ''initiated'' \<and> pr_created_at row < older_than) rows))))"

section \<open>Lifecycle specification\<close>

fun pay_next :: "payment_state \<Rightarrow> payment_event \<Rightarrow> payment_state option" where
  "pay_next Initiated (EvPending _) = Some Pending"
| "pay_next Initiated (EvCompleted _ _ _ _) = Some Completed"
| "pay_next Initiated (EvFailed _ _) = Some Failed"
| "pay_next Pending (EvCompleted _ _ _ _) = Some Completed"
| "pay_next Pending (EvFailed _ _) = Some Failed"
| "pay_next Completed (EvReversed _ _) = Some Reversed"
| "pay_next _ _ = None"

inductive pay_log :: "payment_event list \<Rightarrow> payment_state \<Rightarrow> bool" where
  initiated: "pay_log [EvInitiated hash wallet amount max_fee bolt dest at] Initiated"
| event: "pay_log evs s \<Longrightarrow> pay_next s ev = Some s' \<Longrightarrow> pay_log (evs @ [ev]) s'"

lemma pay_log_steps:
  "pay_log evs Initiated \<Longrightarrow> pay_log (evs @ [EvPending t]) Pending"
  "pay_log evs Initiated \<Longrightarrow> pay_log (evs @ [EvCompleted t p f h]) Completed"
  "pay_log evs Initiated \<Longrightarrow> pay_log (evs @ [EvFailed t r]) Failed"
  "pay_log evs Pending \<Longrightarrow> pay_log (evs @ [EvCompleted t p f h]) Completed"
  "pay_log evs Pending \<Longrightarrow> pay_log (evs @ [EvFailed t r]) Failed"
  "pay_log evs Completed \<Longrightarrow> pay_log (evs @ [EvReversed t s]) Reversed"
  by (auto elim: pay_log.event)

text \<open>In a log of the automaton the projected state says exactly which events have occurred, and
  none occurs twice.\<close>

lemma pay_log_counts:
  assumes "pay_log evs s"
  shows "countP is_Pending evs \<le> 1 \<and> (s = Pending \<longrightarrow> countP is_Pending evs = 1) \<and>
    (s = Initiated \<longrightarrow> countP is_Pending evs = 0) \<and>
    countP is_Completed evs = (if s = Completed \<or> s = Reversed then 1 else 0) \<and>
    countP is_Failed evs = (if s = Failed then 1 else 0) \<and>
    countP is_Reversed evs = (if s = Reversed then 1 else 0)"
  using assms
proof induction
  case (event evs s ev s')
  then show ?case by (cases s; cases ev) auto
qed simp

lemma pay_log_not_Nil: "pay_log evs s \<Longrightarrow> evs \<noteq> []"
  by (induction rule: pay_log.induct) simp_all

lemma pay_log_functional: "pay_log evs s \<Longrightarrow> pay_log evs s' \<Longrightarrow> s' = s"
proof (induction arbitrary: s' rule: pay_log.induct)
  case (initiated hash wallet amount max_fee bolt dest at)
  then show ?case by (cases rule: pay_log.cases) (auto dest: pay_log_not_Nil)
next
  case (event evs s ev s1)
  from event.prems show ?case
  proof (cases rule: pay_log.cases)
    case initiated
    then show ?thesis using pay_log_not_Nil [OF event.hyps(1)] by simp
  next
    case (event evs0 s0 ev0)
    then show ?thesis using event.IH event.hyps(2) by simp
  qed
qed

lemma already_applied_count: "already_applied E p es \<longleftrightarrow> 0 < countP p (ee_iter_all E es)"
  using countP_0_iff [of p "ee_iter_all E es"] by (auto simp: already_applied_iff)

section \<open>Hydration facts\<close>

lemma payment_build_Inr_iff:
  "payment_build i b es = Inr x \<longleftrightarrow>
     pay_id x = i \<and> pay_events x = es \<and>
     pb_payment_hash b = Some (pay_payment_hash x) \<and> pb_wallet_id b = Some (pay_wallet_id x) \<and>
     pb_amount_msat b = Some (pay_amount_msat x) \<and> pb_max_fee_msat b = Some (pay_max_fee_msat x) \<and>
     pb_initiated_at b = Some (pay_initiated_at x) \<and>
     pay_state x = unwrap_or (pb_state b) Initiated \<and>
     pay_fees_paid_msat x = unwrap_or (pb_fees_paid_msat b) None \<and>
     pay_payment_preimage x = unwrap_or (pb_payment_preimage b) None \<and>
     pay_settled_at x = unwrap_or (pb_settled_at b) None"
  by (cases x) (auto simp: payment_build_def bindR_Inr_iff ok_or_def split: option.splits)

lemmas payment_hydrates_iff = payment_try_from_events_def payment_build_Inr_iff

lemma payment_command_executed:
  "mark_pending E t x = (r, x') \<Longrightarrow> r = Inr Executed \<Longrightarrow>
     x' = x\<lparr>pay_events := ee_push E (EvPending t) (pay_events x), pay_state := Pending\<rparr> \<and>
     (pay_state x = Initiated \<or> pay_state x = Pending \<and> \<not> already_applied E is_Pending (pay_events x))"
  "settle_payment E p f h t x = (r, x') \<Longrightarrow> r = Inr Executed \<Longrightarrow>
     x' = x\<lparr>pay_events := ee_push E (EvCompleted t p f h) (pay_events x), pay_state := Completed,
            pay_fees_paid_msat := Some f, pay_payment_preimage := Some p, pay_settled_at := Some t\<rparr> \<and>
     pay_state x \<in> {Initiated, Pending}"
  "fail_payment E c t x = (r, x') \<Longrightarrow> r = Inr Executed \<Longrightarrow>
     x' = x\<lparr>pay_events := ee_push E (EvFailed t c) (pay_events x), pay_state := Failed\<rparr> \<and>
     pay_state x \<in> {Initiated, Pending}"
  "reverse_payment E s t x = (r, x') \<Longrightarrow> r = Inr Executed \<Longrightarrow>
     x' = x\<lparr>pay_events := ee_push E (EvReversed t s) (pay_events x), pay_state := Reversed\<rparr> \<and>
     pay_state x = Completed"
  by (auto simp: mark_pending_def settle_payment_def fail_payment_def reverse_payment_def Let_def
      split: if_splits payment_state.splits)

lemma payment_command_noop:
  "mark_pending E t x = (r, x') \<Longrightarrow> r \<noteq> Inr Executed \<Longrightarrow> x' = x"
  "settle_payment E p f h t x = (r, x') \<Longrightarrow> r \<noteq> Inr Executed \<Longrightarrow> x' = x"
  "fail_payment E c t x = (r, x') \<Longrightarrow> r \<noteq> Inr Executed \<Longrightarrow> x' = x"
  "reverse_payment E s t x = (r, x') \<Longrightarrow> r \<noteq> Inr Executed \<Longrightarrow> x' = x"
  by (auto simp: mark_pending_def settle_payment_def fail_payment_def reverse_payment_def Let_def
      split: if_splits payment_state.splits)

definition payment_commands ::
  "('es, payment_id, payment_event) es_crate \<Rightarrow>
   ('es payment \<Rightarrow> (payment_error + idempotent) \<times> 'es payment) set" where
  "payment_commands E =
     {mark_pending E t | t. True} \<union> {settle_payment E p f h t | p f h t. True} \<union>
     {fail_payment E c t | c t. True} \<union> {reverse_payment E s t | s t. True}"

lemma payment_commands_mem [simp]:
  "mark_pending E t \<in> payment_commands E" "settle_payment E p f h t \<in> payment_commands E"
  "fail_payment E k t \<in> payment_commands E" "reverse_payment E s t \<in> payment_commands E"
  unfolding payment_commands_def by blast+

lemma payment_commandE:
  assumes "c \<in> payment_commands E" "c x = (r, x')"
  obtains (noop) "r \<noteq> Inr Executed" "x' = x"
  | (pending) t where "r = Inr Executed" "pay_state x \<in> {Initiated, Pending}"
      "pay_state x = Pending \<longrightarrow> \<not> already_applied E is_Pending (pay_events x)"
      "x' = x\<lparr>pay_events := ee_push E (EvPending t) (pay_events x), pay_state := Pending\<rparr>"
  | (settle) p f h t where "r = Inr Executed" "pay_state x \<in> {Initiated, Pending}"
      "x' = x\<lparr>pay_events := ee_push E (EvCompleted t p f h) (pay_events x), pay_state := Completed,
            pay_fees_paid_msat := Some f, pay_payment_preimage := Some p, pay_settled_at := Some t\<rparr>"
  | (fail) k t where "r = Inr Executed" "pay_state x \<in> {Initiated, Pending}"
      "x' = x\<lparr>pay_events := ee_push E (EvFailed t k) (pay_events x), pay_state := Failed\<rparr>"
  | (reverse) s t where "r = Inr Executed" "pay_state x = Completed"
      "x' = x\<lparr>pay_events := ee_push E (EvReversed t s) (pay_events x), pay_state := Reversed\<rparr>"
proof -
  from assms(1) consider (P) t where "c = mark_pending E t" | (S) p f h t where "c = settle_payment E p f h t"
    | (F) k t where "c = fail_payment E k t" | (R) s t where "c = reverse_payment E s t"
    unfolding payment_commands_def by blast
  note c = this
  show thesis
  proof (cases "r = Inr Executed")
    case False
    from c assms(2) False have "x' = x"
      by cases (simp_all add: payment_command_noop)
    with False show thesis by (rule noop)
  next
    case True
    from c show thesis
    proof cases
      case P
      with payment_command_executed(1) [OF _ True, of E t x x'] assms(2) show thesis
        by (intro pending [OF True, of t]) auto
    next
      case S
      with payment_command_executed(2) [OF _ True, of E p f h t x x'] assms(2) show thesis
        by (intro settle [OF True, of t p f h]) auto
    next
      case F
      with payment_command_executed(3) [OF _ True, of E k t x x'] assms(2) show thesis
        by (intro fail [OF True, of t k]) auto
    next
      case R
      with payment_command_executed(4) [OF _ True, of E s t x x'] assms(2) show thesis
        by (intro reverse [OF True, of t s]) auto
    qed
  qed
qed

lemma payment_event_sourced:
  assumes "es_events E"
  shows "event_sourced E pay_events (payment_try_from_events E) (payment_commands E)"
proof (rule event_sourced.intro [OF assms], unfold_locales)
  fix c x r x'
  assume c: "c \<in> payment_commands E" "c x = (r, x')"
    and h: "payment_try_from_events E (pay_events x) = Inr x"
  note laws = es_events.es_laws [OF assms]
  from c h show "if r = Inr Executed
     then \<exists>ev. pay_events x' = ee_push E ev (pay_events x) \<and>
       payment_try_from_events E (pay_events x') = Inr x'
     else x' = x"
    by (cases rule: payment_commandE) (auto simp: payment_hydrates_iff laws)
qed

text \<open>A container of payment events; over any such container the payment is an event-sourced
  entity.\<close>

locale payment_container = es_events E
  for E :: "('es, payment_id, payment_event) es_crate"
begin

end

sublocale payment_container \<subseteq> pay: event_sourced E pay_events "payment_try_from_events E" "payment_commands E"
  by (rule payment_event_sourced [OF es_events_axioms])

interpretation ref_payment: payment_container ref_es
  by unfold_locales

section \<open>Reachable payments\<close>

text \<open>A payment the program can hold: built from a fresh log, changed by a command, or loaded
  again from a container with the same log.\<close>

inductive payment_reachable ::
  "('es, payment_id, payment_event) es_crate \<Rightarrow> 'es payment \<Rightarrow> bool" for E where
  fresh: "payment_try_from_events E (new_payment_into_events E n) = Inr x \<Longrightarrow> payment_reachable E x"
| command: "payment_reachable E x \<Longrightarrow> c \<in> payment_commands E \<Longrightarrow> c x = (r, x') \<Longrightarrow>
    payment_reachable E x'"
| reload: "payment_reachable E x \<Longrightarrow> ee_iter_all E es = ee_iter_all E (pay_events x) \<Longrightarrow>
    payment_try_from_events E es = Inr x' \<Longrightarrow> payment_reachable E x'"

lemma builder_preimage:
  "unwrap_or (pb_payment_preimage (foldl payment_apply_event b evs)) None \<noteq> None \<longleftrightarrow>
     unwrap_or (pb_payment_preimage b) None \<noteq> None \<or> 0 < countP is_Completed evs"
proof (induction evs arbitrary: b)
  case (Cons ev evs)
  then show ?case by (cases ev) auto
qed simp

text \<open>The two guards of \<open>settle\<close> and \<open>fail\<close> leave a finished outcome alone.\<close>

definition pay_outcome :: "'es payment \<Rightarrow> payment_state option" where
  "pay_outcome x =
     (case pay_state x of Failed \<Rightarrow> Some Failed | Completed \<Rightarrow> Some Completed
      | Reversed \<Rightarrow> Some Completed | _ \<Rightarrow> None)"

context payment_container
begin

lemma command_pay_log:
  assumes "c \<in> payment_commands E" "c x = (r, x')"
    and "pay_log (ee_iter_all E (pay_events x)) (pay_state x)"
  shows "pay_log (ee_iter_all E (pay_events x')) (pay_state x')"
  using assms
proof (cases rule: payment_commandE)
  case (pending t)
  with assms(3) have "pay_state x = Initiated"
    using pay_log_counts [OF assms(3)] by (auto simp: already_applied_count)
  with pending assms(3) show ?thesis by (simp add: es_laws pay_log_steps)
qed (auto simp: es_laws intro: pay_log_steps)

lemma payment_reachable_hydrates:
  "payment_reachable E x \<Longrightarrow> payment_try_from_events E (pay_events x) = Inr x"
proof (induction rule: payment_reachable.induct)
  case (command x c r x')
  then show ?case
    by (metis pay.command_keeps_hydration)
qed (auto simp: payment_hydrates_iff)

lemma payment_reachable_log:
  "payment_reachable E x \<Longrightarrow> pay_log (ee_iter_all E (pay_events x)) (pay_state x)"
proof (induction rule: payment_reachable.induct)
  case (fresh n x)
  then show ?case
    by (auto simp: payment_hydrates_iff new_payment_into_events_def es_laws payment_builder_default_def
        intro: pay_log.initiated)
next
  case (reload x es x')
  have "pay_events x' = es \<and> pay_state x' = pay_state x"
    using reload.hyps(2,3) payment_reachable_hydrates [OF reload.hyps(1)]
    by (simp add: payment_hydrates_iff)
  then show ?case using reload by simp
qed (auto intro: command_pay_log)

lemma payment_reachable_preimage:
  assumes "payment_reachable E x"
  shows "pay_payment_preimage x \<noteq> None \<longleftrightarrow> pay_state x = Completed \<or> pay_state x = Reversed"
proof -
  have "pay_payment_preimage x = unwrap_or (pb_payment_preimage
      (foldl payment_apply_event payment_builder_default (ee_iter_all E (pay_events x)))) None"
    using payment_reachable_hydrates [OF assms] unfolding payment_hydrates_iff by blast
  then show ?thesis
    using builder_preimage [of payment_builder_default] pay_log_counts [OF payment_reachable_log [OF assms]]
    by (simp add: payment_builder_default_def)
qed

lemma payment_log_witness: "pay_log evs s \<Longrightarrow> \<exists>x. payment_reachable E x \<and> ee_iter_all E (pay_events x) = evs"
proof (induction rule: pay_log.induct)
  case (initiated hash wallet amount max_fee bolt dest at)
  define n where "n = \<lparr>np_id = PaymentId 0, np_payment_hash = hash, np_wallet_id = wallet,
    np_amount_msat = amount, np_max_fee_msat = max_fee, np_bolt_invoice = bolt,
    np_destination = dest, np_initiated_at = at\<rparr>"
  have "\<exists>x. payment_try_from_events E (new_payment_into_events E n) = Inr x"
    by (simp add: payment_try_from_events_def payment_build_def new_payment_into_events_def es_laws
        payment_builder_default_def)
  then obtain x where x: "payment_try_from_events E (new_payment_into_events E n) = Inr x" ..
  have "pay_events x = new_payment_into_events E n"
    using x unfolding payment_hydrates_iff by blast
  then have "ee_iter_all E (pay_events x) = [EvInitiated hash wallet amount max_fee bolt dest at]"
    by (simp add: new_payment_into_events_def es_laws n_def)
  with payment_reachable.fresh [OF x] show ?case by blast
next
  case (event evs s ev s')
  then obtain x where x: "payment_reachable E x" "ee_iter_all E (pay_events x) = evs" by blast
  have st: "pay_state x = s"
    using payment_reachable_log [OF x(1)] event.hyps(1) x(2) pay_log_functional by metis
  define c where "c = (case ev of EvPending t \<Rightarrow> mark_pending E t
    | EvCompleted t p f h \<Rightarrow> settle_payment E p f h t | EvFailed t k \<Rightarrow> fail_payment E k t
    | EvReversed t k \<Rightarrow> reverse_payment E k t | _ \<Rightarrow> mark_pending E (Timestamp 0))"
  obtain r x' where c: "c x = (r, x')" by fastforce
  have "c \<in> payment_commands E"
    by (simp add: c_def split: payment_event.split)
  from payment_reachable.command [OF x(1) this c] have "payment_reachable E x'" .
  moreover have "ee_iter_all E (pay_events x') = evs @ [ev]"
    using c event.hyps(2) st pay_log_counts [OF event.hyps(1)] x(2)
    by (cases s; cases ev)
      (auto simp: c_def mark_pending_def settle_payment_def fail_payment_def reverse_payment_def
        already_applied_count es_laws)
  ultimately show ?case by blast
qed

lemma hydrated_pay_log_reachable:
  assumes "pay_log (ee_iter_all E es) s" "payment_try_from_events E es = Inr x"
  shows "payment_reachable E x"
  using payment_log_witness [OF assms(1)] payment_reachable.reload assms(2) by metis

lemma outcome_kept_by_command:
  assumes "c \<in> payment_commands E" "c x = (r, x')" "pay_outcome x = Some s"
  shows "pay_outcome x' = Some s \<and> pay_payment_preimage x' = pay_payment_preimage x \<and>
    pay_fees_paid_msat x' = pay_fees_paid_msat x \<and> pay_amount_msat x' = pay_amount_msat x"
  using assms by (cases rule: payment_commandE) (auto simp: pay_outcome_def)

lemma outcome_kept_by_run:
  assumes "set cs \<subseteq> payment_commands E" "pay_outcome x = Some s"
  shows "pay_outcome (snd (run_commands cs x)) = Some s \<and>
    pay_payment_preimage (snd (run_commands cs x)) = pay_payment_preimage x \<and>
    pay_fees_paid_msat (snd (run_commands cs x)) = pay_fees_paid_msat x \<and>
    pay_amount_msat (snd (run_commands cs x)) = pay_amount_msat x"
  using assms
proof (induction cs arbitrary: x)
  case (Cons c cs)
  obtain r x1 where c: "c x = (r, x1)" by fastforce
  have c': "c \<in> payment_commands E" "set cs \<subseteq> payment_commands E" using Cons.prems(1) by simp_all
  note k = outcome_kept_by_command [OF c'(1) c Cons.prems(2)]
  from Cons.IH [OF c'(2), of x1] k c show ?case by (simp add: case_prod_beta Let_def)
qed simp

end

section \<open>Samples\<close>

definition sample_new_payment :: new_payment where
  "sample_new_payment = \<lparr>np_id = PaymentId 1, np_payment_hash = PaymentHash (replicate 32 7),
     np_wallet_id = WalletId 5, np_amount_msat = MilliSatoshi 25000, np_max_fee_msat = MilliSatoshi 10000,
     np_bolt_invoice = BoltInvoice ''lnbc1'', np_destination = ''02ab'', np_initiated_at = Timestamp 0\<rparr>"

definition sample_payment :: "(payment_id, payment_event) entity_events payment" where
  "sample_payment =
     projr (payment_try_from_events ref_es (new_payment_into_events ref_es sample_new_payment))"

definition sample_completed :: "(payment_id, payment_event) entity_events payment" where
  "sample_completed =
     snd (settle_payment ref_es (Preimage (replicate 32 9)) (MilliSatoshi 2000) [] (Timestamp 5) sample_payment)"

lemmas sample_payment_defs = sample_payment_def payment_try_from_events_def new_payment_into_events_def
  ref_es_def payment_build_def payment_builder_default_def

lemma sample_payment_reachable: "payment_reachable ref_es sample_payment"
  by (rule payment_reachable.fresh [of _ sample_new_payment]) (simp add: sample_payment_defs)

lemma sample_completed_reachable: "payment_reachable ref_es sample_completed"
  unfolding sample_completed_def
  by (rule payment_reachable.command [OF sample_payment_reachable,
        where c = "settle_payment ref_es (Preimage (replicate 32 9)) (MilliSatoshi 2000) [] (Timestamp 5)"])
    (auto intro: prod.collapse [symmetric])

lemma sample_completed_state: "pay_state sample_completed = Completed"
  by (simp add: sample_completed_def settle_payment_def sample_payment_defs already_applied_def)

section \<open>Properties\<close>

text \<open>C11. Every reachable payment is the hydration of its own event log, its log is a run of the
  lifecycle automaton ending in its projected state, each kind of event occurs at most once (no
  payment both completes and fails), and the preimage is present exactly when it completed.\<close>

theorem payment_lifecycle:
  assumes "es_events E" "payment_reachable E x"
  shows "payment_try_from_events E (pay_events x) = Inr x \<and>
    pay_log (ee_iter_all E (pay_events x)) (pay_state x) \<and>
    countP is_Pending (ee_iter_all E (pay_events x)) \<le> 1 \<and>
    countP is_Completed (ee_iter_all E (pay_events x)) + countP is_Failed (ee_iter_all E (pay_events x)) \<le> 1 \<and>
    (pay_payment_preimage x \<noteq> None \<longleftrightarrow> countP is_Completed (ee_iter_all E (pay_events x)) = 1)"
proof -
  have c: "payment_container E" using assms(1) by (rule payment_container.intro)
  note l = payment_container.payment_reachable_log [OF c assms(2)]
  show ?thesis
    using payment_container.payment_reachable_hydrates [OF c assms(2)] l pay_log_counts [OF l]
      payment_container.payment_reachable_preimage [OF c assms(2)]
    by auto
qed

theorem payment_lifecycle_witness:
  "payment_try_from_events ref_es (pay_events sample_completed) = Inr sample_completed"
  using payment_lifecycle [OF ref_es.es_events_axioms sample_completed_reachable] by simp

text \<open>The answer of each command on a reachable payment is a function of its projected state
  alone, and the branch of \<open>mark_pending\<close> that the source calls unreachable is never taken.\<close>

lemma payment_command_table:
  assumes "es_events E" "payment_reachable E x"
  shows "fst (mark_pending E t x) =
      (if pay_state x = Initiated then Inr Executed
       else if pay_state x = Pending then Inr AlreadyApplied
       else Inl (PayInvalidStateTransition (pay_state x) ''mark_pending'')) \<and>
    fst (settle_payment E p f h t x) =
      (if pay_state x = Initiated \<or> pay_state x = Pending then Inr Executed
       else if pay_state x = Completed \<or> pay_state x = Reversed then Inr AlreadyApplied
       else Inl (PayInvalidStateTransition (pay_state x) ''settle'')) \<and>
    fst (fail_payment E k t x) =
      (if pay_state x = Initiated \<or> pay_state x = Pending then Inr Executed
       else if pay_state x = Failed then Inr AlreadyApplied
       else Inl (PayInvalidStateTransition (pay_state x) ''fail'')) \<and>
    fst (reverse_payment E s t x) =
      (if pay_state x = Completed then Inr Executed
       else if pay_state x = Reversed then Inr AlreadyApplied
       else Inl (PayInvalidStateTransition (pay_state x) ''reverse''))"
proof -
  have c: "payment_container E" using assms(1) by (rule payment_container.intro)
  note counts = pay_log_counts [OF payment_container.payment_reachable_log [OF c assms(2)]]
  show ?thesis
    using counts
    unfolding mark_pending_def settle_payment_def fail_payment_def reverse_payment_def
      already_applied_count Let_def
    by (cases "pay_state x") simp_all
qed

text \<open>C28. Once a payment has completed or failed, no sequence of commands changes that outcome, the
  recorded preimage, the fee or the amount: a late failure cannot overwrite a success and a late
  success cannot overwrite a failure.\<close>

theorem payment_outcome_final:
  assumes "es_events E" "set cs \<subseteq> payment_commands E" "pay_outcome x = Some s"
  shows "pay_outcome (snd (run_commands cs x)) = Some s \<and>
    pay_payment_preimage (snd (run_commands cs x)) = pay_payment_preimage x \<and>
    pay_fees_paid_msat (snd (run_commands cs x)) = pay_fees_paid_msat x \<and>
    pay_amount_msat (snd (run_commands cs x)) = pay_amount_msat x"
  by (rule payment_container.outcome_kept_by_run [OF payment_container.intro [OF assms(1)] assms(2,3)])

theorem payment_outcome_final_witness:
  "pay_outcome (snd (run_commands [fail_payment ref_es Timeout (Timestamp 9),
      mark_pending ref_es (Timestamp 10)] sample_completed)) = Some Completed"
  using payment_outcome_final [OF ref_es.es_events_axioms,
      of "[fail_payment ref_es Timeout (Timestamp 9), mark_pending ref_es (Timestamp 10)]"
        sample_completed Completed]
    sample_completed_state by (simp add: pay_outcome_def)

text \<open>The Lightning constructor: it succeeds exactly when one of the invoice and the caller
  fixes a nonzero amount, the fee cap is nonzero and the invoice string is not empty; the amount
  of the payment is then the one that was fixed, and a caller can never override the amount an
  invoice commits to.\<close>

lemma new_payment_try_new_spec:
  "new_payment_try_new i d w req max_fee at = Inr n \<longleftrightarrow>
     (di_amount_msat d = None) \<noteq> (req = None) \<and>
     (di_amount_msat d = Some (np_amount_msat n) \<or> req = Some (np_amount_msat n)) \<and>
     np_amount_msat n \<noteq> ZERO \<and> max_fee \<noteq> ZERO \<and> bolt_str (di_bolt_invoice d) \<noteq> [] \<and>
     np_id n = i \<and> np_payment_hash n = di_payment_hash d \<and> np_wallet_id n = w \<and>
     np_max_fee_msat n = max_fee \<and> np_bolt_invoice n = di_bolt_invoice d \<and>
     np_destination n = di_destination d \<and> np_initiated_at n = at"
proof -
  have z: "m = ZERO \<longleftrightarrow> as_u64 m = 0" for m
    by (cases m) (simp add: ZERO_def)
  show ?thesis
    unfolding new_payment_try_new_def z
    by (cases n; cases "di_amount_msat d"; cases req) auto
qed

text \<open>The intraledger constructor: the recipient invoice's committed amount is authoritative.
  When it commits one, every success has exactly that amount and a sender invoice that decodes to
  another amount is refused; the fee cap is always zero.\<close>

lemma new_payment_try_new_intraledger_spec:
  "(case invoice_amount of
      Some a \<Rightarrow>
        (case di_amount_msat d of
           Some s \<Rightarrow> s \<noteq> a \<longrightarrow> new_payment_try_new_intraledger i d invoice_amount w at = Inl AmountMismatch
         | None \<Rightarrow> True)
    | None \<Rightarrow>
        di_amount_msat d = None \<longrightarrow>
          new_payment_try_new_intraledger i d invoice_amount w at = Inl AmountRequired) \<and>
   (new_payment_try_new_intraledger i d invoice_amount w at = Inr n \<longrightarrow>
      np_amount_msat n \<noteq> ZERO \<and> np_max_fee_msat n = ZERO \<and> np_payment_hash n = di_payment_hash d \<and>
      np_wallet_id n = w \<and>
      (invoice_amount = Some (np_amount_msat n) \<or>
       invoice_amount = None \<and> di_amount_msat d = Some (np_amount_msat n)))"
proof -
  have z: "m = ZERO \<longleftrightarrow> as_u64 m = 0" for m
    by (cases m) (simp add: ZERO_def)
  show ?thesis
    unfolding new_payment_try_new_intraledger_def z
    by (cases invoice_amount; cases "di_amount_msat d") (auto simp: ZERO_def split: if_splits)
qed

end
