(* ===== verification/Outbox.thy ===== *)
theory Outbox
  imports Primitives
begin

text \<open>
  The outbox of \<open>src/outbox/\<close>: the two event vocabularies with their string forms and the
  mapping between them (\<open>entity.rs\<close>), the rows and their wire projection, and the publisher's
  insert and read queries over the \<open>outbox_events\<close> table (\<open>publisher.rs\<close>).

  A table is the list of the rows that are committed and visible to a query. \<open>serde_json\<close> is a
  parameter where a JSON value is printed.
\<close>

section \<open>The two vocabularies\<close>

datatype outbox_error =
    Db string
  | UnknownEventType string
  | Metadata string
  | ListenDisconnected
  | Configuration string

datatype gateway_event_type =
    OutgoingPaymentInitiated | OutgoingPaymentCompleted | OutgoingPaymentFailed | OutgoingPaymentReversed
  | IncomingPaymentReceived | IncomingPaymentPending | IncomingPaymentConfirmed | IncomingPaymentCanceled

fun event_type_str :: "gateway_event_type \<Rightarrow> string" where
  "event_type_str OutgoingPaymentInitiated = ''OUTGOING_PAYMENT_INITIATED''"
| "event_type_str OutgoingPaymentCompleted = ''OUTGOING_PAYMENT_COMPLETED''"
| "event_type_str OutgoingPaymentFailed = ''OUTGOING_PAYMENT_FAILED''"
| "event_type_str OutgoingPaymentReversed = ''OUTGOING_PAYMENT_REVERSED''"
| "event_type_str IncomingPaymentReceived = ''INCOMING_PAYMENT_RECEIVED''"
| "event_type_str IncomingPaymentPending = ''INCOMING_PAYMENT_PENDING''"
| "event_type_str IncomingPaymentConfirmed = ''INCOMING_PAYMENT_CONFIRMED''"
| "event_type_str IncomingPaymentCanceled = ''INCOMING_PAYMENT_CANCELED''"

text \<open>\<open>to_proto(self) as i32\<close>: the tag of the generated enum.\<close>

fun event_type_to_proto :: "gateway_event_type \<Rightarrow> i32" where
  "event_type_to_proto OutgoingPaymentInitiated = 1"
| "event_type_to_proto OutgoingPaymentCompleted = 2"
| "event_type_to_proto OutgoingPaymentFailed = 3"
| "event_type_to_proto OutgoingPaymentReversed = 4"
| "event_type_to_proto IncomingPaymentReceived = 5"
| "event_type_to_proto IncomingPaymentPending = 6"
| "event_type_to_proto IncomingPaymentConfirmed = 7"
| "event_type_to_proto IncomingPaymentCanceled = 8"

definition event_type_from_str :: "string \<Rightarrow> outbox_error + gateway_event_type" where
  "event_type_from_str s =
     (if s = ''OUTGOING_PAYMENT_INITIATED'' then Inr OutgoingPaymentInitiated
      else if s = ''OUTGOING_PAYMENT_COMPLETED'' then Inr OutgoingPaymentCompleted
      else if s = ''OUTGOING_PAYMENT_FAILED'' then Inr OutgoingPaymentFailed
      else if s = ''OUTGOING_PAYMENT_REVERSED'' then Inr OutgoingPaymentReversed
      else if s = ''INCOMING_PAYMENT_RECEIVED'' then Inr IncomingPaymentReceived
      else if s = ''INCOMING_PAYMENT_PENDING'' then Inr IncomingPaymentPending
      else if s = ''INCOMING_PAYMENT_CONFIRMED'' then Inr IncomingPaymentConfirmed
      else if s = ''INCOMING_PAYMENT_CANCELED'' then Inr IncomingPaymentCanceled
      else Inl (UnknownEventType s))"

datatype gateway_domain_event =
    LightningInvoiceSettled | LightningHtlcHeld | LightningInvoiceCanceled
  | LightningPaymentInitiated | LightningPaymentCompleted | LightningPaymentFailed
  | LightningPaymentReversed | LightningIntraledgerTransferCompleted

fun domain_event_str :: "gateway_domain_event \<Rightarrow> string" where
  "domain_event_str LightningInvoiceSettled = ''lightning_invoice_settled''"
| "domain_event_str LightningHtlcHeld = ''lightning_htlc_held''"
| "domain_event_str LightningInvoiceCanceled = ''lightning_invoice_canceled''"
| "domain_event_str LightningPaymentInitiated = ''lightning_payment_initiated''"
| "domain_event_str LightningPaymentCompleted = ''lightning_payment_completed''"
| "domain_event_str LightningPaymentFailed = ''lightning_payment_failed''"
| "domain_event_str LightningPaymentReversed = ''lightning_payment_reversed''"
| "domain_event_str LightningIntraledgerTransferCompleted = ''lightning_intraledger_transfer_completed''"

fun to_standardized :: "gateway_domain_event \<Rightarrow> gateway_event_type" where
  "to_standardized LightningInvoiceSettled = IncomingPaymentConfirmed"
| "to_standardized LightningHtlcHeld = IncomingPaymentPending"
| "to_standardized LightningInvoiceCanceled = IncomingPaymentCanceled"
| "to_standardized LightningPaymentInitiated = OutgoingPaymentInitiated"
| "to_standardized LightningPaymentCompleted = OutgoingPaymentCompleted"
| "to_standardized LightningPaymentFailed = OutgoingPaymentFailed"
| "to_standardized LightningPaymentReversed = OutgoingPaymentReversed"
| "to_standardized LightningIntraledgerTransferCompleted = OutgoingPaymentCompleted"

definition domain_event_from_str :: "string \<Rightarrow> outbox_error + gateway_domain_event" where
  "domain_event_from_str s =
     (if s = ''lightning_invoice_settled'' then Inr LightningInvoiceSettled
      else if s = ''lightning_htlc_held'' then Inr LightningHtlcHeld
      else if s = ''lightning_invoice_canceled'' then Inr LightningInvoiceCanceled
      else if s = ''lightning_payment_initiated'' then Inr LightningPaymentInitiated
      else if s = ''lightning_payment_completed'' then Inr LightningPaymentCompleted
      else if s = ''lightning_payment_failed'' then Inr LightningPaymentFailed
      else if s = ''lightning_payment_reversed'' then Inr LightningPaymentReversed
      else if s = ''lightning_intraledger_transfer_completed'' then Inr LightningIntraledgerTransferCompleted
      else Inl (UnknownEventType s))"

section \<open>Rows and their wire form\<close>

datatype json = JNull | JBool bool | JNum int | JStr string | JArr "json list" | JObj "(string \<times> json) list"

record outbox_event =
  ob_sequence :: i64
  ob_correlation_id :: string
  ob_domain_event :: gateway_domain_event
  ob_event_type :: gateway_event_type
  ob_reference_id :: string
  ob_amount_sat :: i64
  ob_timestamp :: timestamp
  ob_gateway_metadata :: json

record proto_payment_event =
  pe_sequence :: u64
  pe_correlation_id :: string
  pe_event_type :: i32
  pe_reference_id :: string
  pe_amount_sats :: "u64 option"
  pe_timestamp_ms :: int
  pe_gateway_metadata :: string

text \<open>\<open>OutboxEvent::to_proto\<close>; \<open>to_string\<close> is \<open>serde_json::to_string\<close> (which may fail).\<close>

definition outbox_to_proto :: "(json \<Rightarrow> string option) \<Rightarrow> outbox_event \<Rightarrow> proto_payment_event" where
  "outbox_to_proto to_string ev =
     (let safe_amount_sat = (if 0 \<le> sint (ob_amount_sat ev) then ob_amount_sat ev else 0) in
      \<lparr>pe_sequence = ob_sequence ev, pe_correlation_id = ob_correlation_id ev,
       pe_event_type = event_type_to_proto (ob_event_type ev), pe_reference_id = ob_reference_id ev,
       pe_amount_sats = Some safe_amount_sat,
       pe_timestamp_ms = instant (ob_timestamp ev) div 10 ^ 6,
       pe_gateway_metadata = unwrap_or (to_string (ob_gateway_metadata ev)) ''{}''\<rparr>)"

record new_outbox_event =
  no_correlation_id :: string
  no_domain_event :: gateway_domain_event
  no_reference_id :: string
  no_amount_sat :: i64
  no_timestamp :: timestamp
  no_gateway_metadata :: json

definition new_outbox :: "gateway_domain_event \<Rightarrow> string \<Rightarrow> string \<Rightarrow> i64 \<Rightarrow> timestamp \<Rightarrow> json \<Rightarrow> new_outbox_event" where
  "new_outbox d corr hash_hex amount ts meta =
     \<lparr>no_correlation_id = corr, no_domain_event = d, no_reference_id = hash_hex,
      no_amount_sat = amount, no_timestamp = ts, no_gateway_metadata = meta\<rparr>"

definition for_lightning_invoice_settled where
  "for_lightning_invoice_settled = new_outbox LightningInvoiceSettled"

definition for_lightning_payment_initiated where
  "for_lightning_payment_initiated = new_outbox LightningPaymentInitiated"

definition for_lightning_payment_completed where
  "for_lightning_payment_completed = new_outbox LightningPaymentCompleted"

definition for_lightning_payment_failed where
  "for_lightning_payment_failed = new_outbox LightningPaymentFailed"

definition for_lightning_htlc_held where
  "for_lightning_htlc_held = new_outbox LightningHtlcHeld"

definition for_lightning_intraledger_transfer_completed where
  "for_lightning_intraledger_transfer_completed = new_outbox LightningIntraledgerTransferCompleted"

definition for_lightning_invoice_canceled where
  "for_lightning_invoice_canceled = new_outbox LightningInvoiceCanceled"

lemmas outbox_ctors = for_lightning_invoice_settled_def for_lightning_payment_initiated_def
  for_lightning_payment_completed_def for_lightning_payment_failed_def for_lightning_htlc_held_def
  for_lightning_intraledger_transfer_completed_def for_lightning_invoice_canceled_def new_outbox_def

section \<open>The table and the publisher's queries\<close>

record outbox_row =
  row_sequence :: i64
  row_correlation_id :: string
  row_domain_event_type :: string
  row_event_type :: string
  row_reference_id :: string
  row_amount_sat :: i64
  row_timestamp :: timestamp
  row_gateway_metadata :: json

text \<open>The row \<open>publish_in_tx\<close> inserts, under the sequence number the \<open>BIGSERIAL\<close> column draws.\<close>

definition publish_row :: "i64 \<Rightarrow> new_outbox_event \<Rightarrow> outbox_row" where
  "publish_row sequence ev =
     \<lparr>row_sequence = sequence, row_correlation_id = no_correlation_id ev,
      row_domain_event_type = domain_event_str (no_domain_event ev),
      row_event_type = event_type_str (to_standardized (no_domain_event ev)),
      row_reference_id = no_reference_id ev, row_amount_sat = no_amount_sat ev,
      row_timestamp = no_timestamp ev, row_gateway_metadata = no_gateway_metadata ev\<rparr>"

definition parse_row :: "outbox_row \<Rightarrow> outbox_error + outbox_event" where
  "parse_row r =
     bindR (domain_event_from_str (row_domain_event_type r)) (\<lambda>d.
     bindR (event_type_from_str (row_event_type r)) (\<lambda>t.
     Inr \<lparr>ob_sequence = row_sequence r, ob_correlation_id = row_correlation_id r, ob_domain_event = d,
          ob_event_type = t, ob_reference_id = row_reference_id r, ob_amount_sat = row_amount_sat r,
          ob_timestamp = row_timestamp r, ob_gateway_metadata = row_gateway_metadata r\<rparr>))"

definition find_by_sequence :: "outbox_row list \<Rightarrow> i64 \<Rightarrow> outbox_error + outbox_event option" where
  "find_by_sequence rows sequence =
     (case find (\<lambda>r. row_sequence r = sequence) rows of
        None \<Rightarrow> Inr None
      | Some r \<Rightarrow> bindR (parse_row r) (\<lambda>ev. Inr (Some ev)))"

definition BACKFILL_BATCH_SIZE :: nat where
  "BACKFILL_BATCH_SIZE = 1000"

definition MAX_BACKFILL_EVENTS :: nat where
  "MAX_BACKFILL_EVENTS = 100000"

definition rows_after :: "outbox_row list \<Rightarrow> i64 \<Rightarrow> outbox_row list" where
  "rows_after rows after =
     sort_key (\<lambda>r. sint (row_sequence r)) (filter (\<lambda>r. sint after < sint (row_sequence r)) rows)"

definition fetch_after_batch :: "outbox_row list \<Rightarrow> i64 \<Rightarrow> outbox_error + outbox_event list" where
  "fetch_after_batch rows after = collectR (map parse_row (take BACKFILL_BATCH_SIZE (rows_after rows after)))"

definition count_after :: "outbox_row list \<Rightarrow> i64 \<Rightarrow> nat" where
  "count_after rows after = length (filter (\<lambda>r. sint after < sint (row_sequence r)) rows)"

section \<open>String vocabularies\<close>

text \<open>An enum with a string form that parses back.\<close>

locale string_enum =
  fixes as_str :: "'a \<Rightarrow> string" and from_str :: "string \<Rightarrow> 'e + 'a"
  assumes from_as: "from_str (as_str x) = Inr x"
    and as_from: "from_str s = Inr x \<Longrightarrow> as_str x = s"
begin

lemma as_str_inj: "as_str x = as_str y \<longleftrightarrow> x = y"
  by (metis from_as sum.inject(2))

lemma from_str_iff: "from_str s = Inr x \<longleftrightarrow> s = as_str x"
  using from_as as_from by blast

end

interpretation event_type: string_enum event_type_str event_type_from_str
proof
  show "event_type_from_str (event_type_str x) = Inr x" for x
    by (cases x) (simp_all add: event_type_from_str_def)
  show "event_type_from_str s = Inr x \<Longrightarrow> event_type_str x = s" for s x
    by (auto simp: event_type_from_str_def split: if_splits)
qed

interpretation domain_event: string_enum domain_event_str domain_event_from_str
proof
  show "domain_event_from_str (domain_event_str x) = Inr x" for x
    by (cases x) (simp_all add: domain_event_from_str_def)
  show "domain_event_from_str s = Inr x \<Longrightarrow> domain_event_str x = s" for s x
    by (auto simp: domain_event_from_str_def split: if_splits)
qed

section \<open>Facts on rows and queries\<close>

definition wf_row :: "outbox_row \<Rightarrow> bool" where
  "wf_row r \<longleftrightarrow> (\<exists>ev. parse_row r = Inr ev)"

lemma parse_row_fields:
  assumes "parse_row r = Inr ev"
  shows "ob_sequence ev = row_sequence r" "ob_reference_id ev = row_reference_id r"
  using assms by (auto simp: parse_row_def bindR_Inr_iff)

lemma parse_publish_row:
  "parse_row (publish_row n ev) =
     Inr \<lparr>ob_sequence = n, ob_correlation_id = no_correlation_id ev, ob_domain_event = no_domain_event ev,
          ob_event_type = to_standardized (no_domain_event ev), ob_reference_id = no_reference_id ev,
          ob_amount_sat = no_amount_sat ev, ob_timestamp = no_timestamp ev,
          ob_gateway_metadata = no_gateway_metadata ev\<rparr>"
  by (simp add: parse_row_def publish_row_def domain_event.from_as event_type.from_as)

lemma set_rows_after: "set (rows_after rows a) = {r \<in> set rows. sint a < sint (row_sequence r)}"
  by (simp add: rows_after_def)

lemma sorted_rows_after: "sorted (map (\<lambda>r. sint (row_sequence r)) (rows_after rows a))"
  by (simp add: rows_after_def)

lemma count_after_length: "count_after rows a = length (rows_after rows a)"
  by (simp add: count_after_def rows_after_def)

lemma distinct_rows_after:
  "distinct (map row_sequence rows) \<Longrightarrow> distinct (map row_sequence (rows_after rows a))"
proof -
  assume "distinct (map row_sequence rows)"
  then have "distinct (map row_sequence (filter (\<lambda>r. sint a < sint (row_sequence r)) rows))"
    by (rule distinct_map_filter)
  then show ?thesis
    unfolding rows_after_def distinct_map
    by (simp add: inj_on_def)
qed

text \<open>Reading on from inside the sorted list of later rows gives its tail.\<close>

lemma rows_after_step:
  assumes d: "distinct (map row_sequence rows)" and split: "rows_after rows a = xs @ x # ys"
  shows "rows_after rows (row_sequence x) = ys"
proof -
  let ?key = "\<lambda>r. sint (row_sequence r)"
  let ?rs = "rows_after rows a"
  have ax: "sint a < ?key x"
    using set_rows_after [of rows a] split by auto
  have "filter (\<lambda>r. ?key x < ?key r) rows =
      filter (\<lambda>r. ?key x < ?key r) (filter (\<lambda>r. sint a < ?key r) rows)"
    using ax by (auto simp: filter_filter intro: filter_cong)
  then have "rows_after rows (row_sequence x) =
      filter (\<lambda>r. ?key x < ?key r) ?rs"
    by (simp add: rows_after_def filter_sort [symmetric])
  also have "\<dots> = ys"
  proof -
    have s: "sorted (map ?key (xs @ x # ys))"
      using sorted_rows_after [of rows a] split by simp
    have dd: "distinct (map row_sequence (xs @ x # ys))"
      using distinct_rows_after [OF d, of a] split by simp
    have "\<forall>r \<in> set xs. \<not> ?key x < ?key r"
      using s by (auto simp: sorted_append)
    moreover have "\<forall>r \<in> set ys. ?key x < ?key r"
    proof
      fix r assume r: "r \<in> set ys"
      then have "?key x \<le> ?key r" using s by (auto simp: sorted_append)
      moreover have "row_sequence x \<noteq> row_sequence r" using dd r by auto
      ultimately show "?key x < ?key r" by (auto simp: order.strict_iff_order dest: signed_word_eqI)
    qed
    ultimately show ?thesis
      by (simp add: split filter_empty_conv)
  qed
  finally show ?thesis .
qed

section \<open>Properties\<close>


end
