(* ===== verification/Symphony.thy ===== *)
theory Symphony
  imports Primitives Outbox
begin

text \<open>
  The spend-authorization client of \<open>src/symphony/\<close>. The remote service is a parameter: the
  generated client is a function from the request message to a gRPC status or a response. A
  client built with \<open>boot_stub\<close> has no such function.
\<close>

section \<open>Types\<close>

datatype authorize_status = Approved | Declined

datatype decline_reason = InsufficientFunds | AccountFrozen | AmountExceedsLimit | DeclineOther string

datatype account_kind = WalletLiability | CardCollateral

fun account_kind_to_proto :: "account_kind \<Rightarrow> i32" where
  "account_kind_to_proto WalletLiability = 1"
| "account_kind_to_proto CardCollateral = 2"

record account_ref =
  acc_kind :: account_kind
  acc_id :: string

record symphony_authorize_request =
  sar_correlation_id :: string
  sar_account :: account_ref
  sar_sat_amount :: u64
  sar_idempotency_key :: string
  sar_gateway_metadata :: json

record symphony_authorize_response =
  sre_status :: authorize_status
  sre_authorization_id :: "string option"
  sre_decline_reason :: "decline_reason option"

datatype symphony_error =
    SymTransport string
  | SymStatus grpc_status
  | SymDeclined decline_reason
  | SymConfig string

section \<open>Availability and decline reasons\<close>

definition is_authorize_unavailable :: "symphony_error \<Rightarrow> bool" where
  "is_authorize_unavailable err =
     (case err of
        SymTransport _ \<Rightarrow> True
      | SymStatus status \<Rightarrow>
          status_code status \<in> {Code_Unavailable, Code_Unknown, Code_DeadlineExceeded, Code_Cancelled,
                                Code_Unimplemented}
      | SymDeclined _ \<Rightarrow> False
      | SymConfig _ \<Rightarrow> False)"

datatype spend_decline_reason =
    SpendDeclineUnspecified | SpendDeclineInsufficientBalance | SpendDeclineAccountNotFound
  | SpendDeclineAccountFrozen | SpendDeclineAmountExceedsLimit | SpendDeclineInternalError

text \<open>The generated \<open>try_from(i32)\<close> of the proto enum, with the tags of
  \<open>spend_authorization.proto\<close>.\<close>

definition spend_decline_try_from :: "i32 \<Rightarrow> spend_decline_reason option" where
  "spend_decline_try_from code =
     (if code = 0 then Some SpendDeclineUnspecified
      else if code = 1 then Some SpendDeclineInsufficientBalance
      else if code = 2 then Some SpendDeclineAccountNotFound
      else if code = 3 then Some SpendDeclineAccountFrozen
      else if code = 4 then Some SpendDeclineAmountExceedsLimit
      else if code = 5 then Some SpendDeclineInternalError
      else None)"

definition map_decline_reason :: "i32 \<Rightarrow> string \<Rightarrow> decline_reason" where
  "map_decline_reason code message =
     (let detail = (\<lambda>fallback. if message = [] then fallback else message) in
      case unwrap_or (spend_decline_try_from code) SpendDeclineUnspecified of
        SpendDeclineInsufficientBalance \<Rightarrow> InsufficientFunds
      | SpendDeclineAccountFrozen \<Rightarrow> AccountFrozen
      | SpendDeclineAmountExceedsLimit \<Rightarrow> AmountExceedsLimit
      | SpendDeclineAccountNotFound \<Rightarrow> DeclineOther (detail ''account not found'')
      | SpendDeclineInternalError \<Rightarrow> DeclineOther (detail ''symphony internal error'')
      | SpendDeclineUnspecified \<Rightarrow> DeclineOther (detail ''unspecified decline''))"

section \<open>The client\<close>

record proto_spend_request =
  psr_correlation_id :: string
  psr_account :: "(i32 \<times> string) option"
  psr_sat_amount :: i64
  psr_idempotency_key :: string
  psr_gateway_metadata :: string

record proto_spend_response =
  psp_authorized :: bool
  psp_authorization_id :: string
  psp_decline_reason :: i32
  psp_decline_message :: string

record spend_rpc =
  rpc_authorize_spend :: "proto_spend_request \<Rightarrow> grpc_status + proto_spend_response"
  rpc_void_spend :: "string \<times> string \<Rightarrow> grpc_status + unit"

datatype client_mode = Real spend_rpc | BootStub

text \<open>\<open>channel\<close> is \<open>Channel::from_shared\<close>, the stub over the parsed endpoint or the text of its error.\<close>

definition symphony_connect_lazy :: "(string \<Rightarrow> string + spend_rpc) \<Rightarrow> string \<Rightarrow> symphony_error + client_mode" where
  "symphony_connect_lazy channel endpoint =
     bindR (map_err (\<lambda>e. SymConfig (''invalid grpc_endpoint: '' @ e)) (channel endpoint)) (\<lambda>rpc. Inr (Real rpc))"

definition symphony_boot_stub :: client_mode where
  "symphony_boot_stub = BootStub"

definition symphony_client :: "client_mode \<Rightarrow> symphony_error + spend_rpc" where
  "symphony_client mode =
     (case mode of
        Real c \<Rightarrow> Inr c
      | BootStub \<Rightarrow> Inl (SymStatus (Status Code_Unavailable
          ''symphony spend-authorization client not configured (boot stub); failing closed'')))"

definition proto_spend_request_of ::
  "(json \<Rightarrow> string option) \<Rightarrow> symphony_authorize_request \<Rightarrow> proto_spend_request" where
  "proto_spend_request_of to_string req =
     \<lparr>psr_correlation_id = sar_correlation_id req,
      psr_account = Some (account_kind_to_proto (acc_kind (sar_account req)), acc_id (sar_account req)),
      psr_sat_amount = sar_sat_amount req,
      psr_idempotency_key = sar_idempotency_key req,
      psr_gateway_metadata = unwrap_or (to_string (sar_gateway_metadata req)) ''{}''\<rparr>"

definition authorize_spend ::
  "(json \<Rightarrow> string option) \<Rightarrow> client_mode \<Rightarrow> symphony_authorize_request \<Rightarrow>
   symphony_error + symphony_authorize_response" where
  "authorize_spend to_string mode req =
     bindR (symphony_client mode) (\<lambda>client.
     bindR (map_err SymStatus (rpc_authorize_spend client (proto_spend_request_of to_string req))) (\<lambda>resp.
     let auth_id = (if psp_authorization_id resp \<noteq> [] then Some (psp_authorization_id resp) else None) in
     if psp_authorized resp
     then Inr \<lparr>sre_status = Approved, sre_authorization_id = auth_id, sre_decline_reason = None\<rparr>
     else Inr \<lparr>sre_status = Declined, sre_authorization_id = auth_id,
               sre_decline_reason = Some (map_decline_reason (psp_decline_reason resp) (psp_decline_message resp))\<rparr>))"

definition void_spend_authorization :: "client_mode \<Rightarrow> string \<Rightarrow> string \<Rightarrow> symphony_error + unit" where
  "void_spend_authorization mode correlation_id authorization_id =
     bindR (symphony_client mode) (\<lambda>client.
     bindR (map_err SymStatus (rpc_void_spend client (correlation_id, authorization_id))) (\<lambda>_. Inr ()))"

text \<open>\<open>SymphonyConfig::validate\<close>; \<open>trim\<close> removes white space at both ends.\<close>

definition is_space :: "char \<Rightarrow> bool" where
  "is_space c \<longleftrightarrow> c \<in> {CHR '' '', CHR 0x09, CHR 0x0A, CHR 0x0B, CHR 0x0C, CHR 0x0D}"

definition symphony_config_validate :: "string \<Rightarrow> string + unit" where
  "symphony_config_validate grpc_endpoint =
     (if dropWhile is_space grpc_endpoint = []
      then Inl ''symphony.grpc_endpoint must be set; empty value rejected'' else Inr ())"

section \<open>Properties\<close>

text \<open>The client approves a spend exactly when a configured service answered that exact request
  with \<open>authorized\<close>; an unconfigured client always fails, with an error the spend path treats as
  unavailable; and a response that is not an approval always carries a decline reason.\<close>

lemma authorize_spend_fail_closed:
  "((\<exists>r. authorize_spend ts mode req = Inr r \<and> sre_status r = Approved) \<longleftrightarrow>
      (\<exists>rpc resp. mode = Real rpc \<and>
         rpc_authorize_spend rpc (proto_spend_request_of ts req) = Inr resp \<and> psp_authorized resp)) \<and>
   (\<exists>e. authorize_spend ts BootStub req = Inl e \<and> is_authorize_unavailable e) \<and>
   (authorize_spend ts mode req \<noteq>
      Inr \<lparr>sre_status = Declined, sre_authorization_id = a, sre_decline_reason = None\<rparr>)"
  unfolding authorize_spend_def symphony_client_def is_authorize_unavailable_def
  by (cases mode) (auto simp: Let_def bindR_def map_err_def split: sum.splits if_splits)

end
