(* ===== verification/Lnd.thy ===== *)
theory Lnd
  imports Payment
begin

text \<open>
  The LND adapter of \<open>src/lnd/\<close>: the adapter's own types, the mapping of LND's wire messages onto
  them, the client methods over a remote node, and the two stream pumps. The node is a parameter
  (\<open>lnd_node\<close>: what each RPC answers), and so are the integer tags of LND's generated enums
  (\<open>lnrpc_enums\<close>). An error message is kept as a constructor per format string.
\<close>

section \<open>Types\<close>

datatype lnd_invoice_state = LndOpen | LndAccepted | LndSettled | LndCanceled

datatype send_payment_status = InFlight | Succeeded | SendFailed

datatype lnrpc_payment_status = PsUnknown | PsInFlight | PsSucceeded | PsFailed | PsInitiated

datatype lnrpc_failure_reason =
    FrNone | FrTimeout | FrNoRoute | FrError | FrIncorrectPaymentDetails | FrInsufficientBalance | FrCanceled

datatype lnrpc_invoice_state = IsOpen | IsSettled | IsCanceled | IsAccepted

datatype invalid_response =
    AmountMsatExceedsI64Max
  | MaxFeeMsatExceedsI64Max
  | LookupInvoiceMismatch payment_hash payment_hash
  | LookupPaymentMismatch payment_hash payment_hash
  | TrackStreamClosedEarly
  | SendStreamClosedEarly
  | RoutingFeeMsat milli_satoshi_error
  | PaymentHashField bytes_error
  | UnknownPaymentStatus i32
  | PaymentStatusIsUnknown
  | FailureReasonText lnrpc_failure_reason
  | RHashLength nat
  | UnknownInvoiceState i32
  | AmtPaidMsatNegative i64
  | SucceededWithoutPreimage
  | LookupSucceededWithoutPreimage

datatype lnd_error =
    LndConnect string
  | LndRpc grpc_status
  | LndStub
  | LndInvalidResponse invalid_response
  | LndPaymentNotFound
  | LndPaymentTimeout
  | LndNoRoute
  | LndIncorrectPaymentDetails

record lnrpc_enums =
  payment_status_try_from :: "i32 \<Rightarrow> lnrpc_payment_status option"
  failure_reason_try_from :: "i32 \<Rightarrow> lnrpc_failure_reason option"
  invoice_state_try_from :: "i32 \<Rightarrow> lnrpc_invoice_state option"
  failure_reason_none_tag :: i32

record add_hold_invoice_params =
  ahp_payment_hash :: payment_hash
  ahp_amount_msat :: "milli_satoshi option"
  ahp_memo :: "string option"
  ahp_expiry_seconds :: u32

record invoice_update =
  iu_payment_hash :: payment_hash
  iu_state :: lnd_invoice_state
  iu_amt_paid_msat :: milli_satoshi
  iu_payment_preimage :: "preimage option"

datatype subscribe_invoice_exit = Terminal | Cancelled

record send_payment_params =
  spp_bolt_invoice :: bolt_invoice
  spp_max_fee_msat :: milli_satoshi
  spp_timeout_seconds :: u32

record send_payment_response =
  spr_payment_hash :: payment_hash
  spr_payment_preimage :: "preimage option"
  spr_status :: send_payment_status
  spr_fees_paid_msat :: milli_satoshi
  spr_route_hops :: "hop list"
  spr_failure_reason :: "failure_reason option"

record fee_probe_response =
  fpr_fee_msat :: milli_satoshi
  fpr_expiry_seconds :: u32

record payment_update =
  pu_payment_hash :: payment_hash
  pu_status :: send_payment_status
  pu_payment_preimage :: "preimage option"
  pu_fees_paid_msat :: milli_satoshi
  pu_route_hops :: "hop list"
  pu_failure_reason :: "failure_reason option"

text \<open>LND's wire messages, with the fields the adapter reads.\<close>

record lnrpc_hop =
  lh_pub_key :: string
  lh_chan_id :: u64
  lh_fee_msat :: i64
  lh_amt_to_forward_msat :: i64
  lh_expiry :: u32

record lnrpc_payment =
  lp_payment_hash :: string
  lp_payment_preimage :: string
  lp_status :: i32
  lp_fee_msat :: i64
  lp_htlcs :: "lnrpc_hop list option list"
  lp_failure_reason :: i32

record lnrpc_invoice =
  li_r_hash :: "u8 list"
  li_state :: i32
  li_amt_paid_msat :: i64
  li_r_preimage :: "u8 list"

section \<open>Mapping wire messages\<close>

definition parse_hex_payment_hash :: "hex_codec \<Rightarrow> string \<Rightarrow> lnd_error + payment_hash" where
  "parse_hex_payment_hash H s = map_err (\<lambda>e. LndInvalidResponse (PaymentHashField e)) (hash_from_str H s)"

definition lnd_parse_preimage :: "hex_codec \<Rightarrow> string \<Rightarrow> preimage option" where
  "lnd_parse_preimage H s =
     (if s = [] then None else if length s \<noteq> 64 then None else ok (preimage_from_str H s))"

definition map_payment_status :: "lnrpc_enums \<Rightarrow> i32 \<Rightarrow> lnd_error + send_payment_status" where
  "map_payment_status L v =
     bindR (ok_or (payment_status_try_from L v) (LndInvalidResponse (UnknownPaymentStatus v))) (\<lambda>s.
     case s of
       PsInitiated \<Rightarrow> Inr InFlight
     | PsInFlight \<Rightarrow> Inr InFlight
     | PsSucceeded \<Rightarrow> Inr Succeeded
     | PsFailed \<Rightarrow> Inr SendFailed
     | PsUnknown \<Rightarrow> Inl (LndInvalidResponse PaymentStatusIsUnknown))"

definition map_failure_reason_to_lnd_error :: "lnrpc_enums \<Rightarrow> i32 \<Rightarrow> lnd_error" where
  "map_failure_reason_to_lnd_error L v =
     (case unwrap_or (failure_reason_try_from L v) FrError of
        FrTimeout \<Rightarrow> LndPaymentTimeout
      | FrNoRoute \<Rightarrow> LndNoRoute
      | FrIncorrectPaymentDetails \<Rightarrow> LndIncorrectPaymentDetails
      | other \<Rightarrow> LndInvalidResponse (FailureReasonText other))"

definition map_failure_reason_to_typed :: "lnrpc_enums \<Rightarrow> i32 \<Rightarrow> failure_reason" where
  "map_failure_reason_to_typed L v =
     (case unwrap_or (failure_reason_try_from L v) FrError of
        FrNone \<Rightarrow> Other ''none''
      | FrTimeout \<Rightarrow> Timeout
      | FrNoRoute \<Rightarrow> NoRoute
      | FrInsufficientBalance \<Rightarrow> InsufficientBalance
      | FrIncorrectPaymentDetails \<Rightarrow> IncorrectPaymentDetails
      | FrError \<Rightarrow> Other ''LND failure_reason: error''
      | FrCanceled \<Rightarrow> Other ''canceled'')"

definition msat_or_zero :: "i64 \<Rightarrow> milli_satoshi" where
  "msat_or_zero v = unwrap_or (ok (msat_try_from v)) ZERO"

definition hop_of :: "hex_codec \<Rightarrow> lnrpc_hop \<Rightarrow> hop option" where
  "hop_of H h =
     (case pubkey_from_str H (lh_pub_key h) of
        Inl _ \<Rightarrow> None
      | Inr p \<Rightarrow> Some \<lparr>hop_pub_key = p, hop_channel_id = lh_chan_id h,
                       hop_fee_msat = round_up_to_sat (msat_or_zero (lh_fee_msat h)),
                       hop_amt_msat = round_up_to_sat (msat_or_zero (lh_amt_to_forward_msat h)),
                       hop_expiry = lh_expiry h\<rparr>)"

fun find_route :: "lnrpc_hop list option list \<Rightarrow> lnrpc_hop list option" where
  "find_route [] = None"
| "find_route (Some route # _) = Some route"
| "find_route (None # hs) = find_route hs"

definition first_route_hops :: "hex_codec \<Rightarrow> lnrpc_hop list option list \<Rightarrow> hop list" where
  "first_route_hops H htlcs =
     (case find_route htlcs of None \<Rightarrow> [] | Some hops \<Rightarrow> List.map_filter (hop_of H) hops)"

definition lnd_payment_to_send_response ::
  "hex_codec \<Rightarrow> lnrpc_enums \<Rightarrow> lnrpc_payment \<Rightarrow> lnd_error + send_payment_response" where
  "lnd_payment_to_send_response H L p =
     bindR (parse_hex_payment_hash H (lp_payment_hash p)) (\<lambda>hash.
     let pre = lnd_parse_preimage H (lp_payment_preimage p) in
     bindR (map_payment_status L (lp_status p)) (\<lambda>status.
     let fees = round_up_to_sat (msat_or_zero (lp_fee_msat p));
         hops = first_route_hops H (lp_htlcs p);
         reason = (if status = SendFailed then Some (map_failure_reason_to_typed L (lp_failure_reason p)) else None) in
     Inr \<lparr>spr_payment_hash = hash, spr_payment_preimage = pre, spr_status = status,
          spr_fees_paid_msat = fees, spr_route_hops = hops, spr_failure_reason = reason\<rparr>))"

definition payment_to_update ::
  "hex_codec \<Rightarrow> lnrpc_enums \<Rightarrow> lnrpc_payment \<Rightarrow> lnd_error + payment_update" where
  "payment_to_update H L p =
     bindR (lnd_payment_to_send_response H L p) (\<lambda>r.
     Inr \<lparr>pu_payment_hash = spr_payment_hash r, pu_status = spr_status r,
          pu_payment_preimage = spr_payment_preimage r, pu_fees_paid_msat = spr_fees_paid_msat r,
          pu_route_hops = spr_route_hops r, pu_failure_reason = spr_failure_reason r\<rparr>)"

definition map_invoice_state :: "lnrpc_enums \<Rightarrow> i32 \<Rightarrow> lnd_error + lnd_invoice_state" where
  "map_invoice_state L v =
     bindR (ok_or (invoice_state_try_from L v) (LndInvalidResponse (UnknownInvoiceState v))) (\<lambda>s.
     Inr (case s of IsOpen \<Rightarrow> LndOpen | IsAccepted \<Rightarrow> LndAccepted | IsSettled \<Rightarrow> LndSettled
          | IsCanceled \<Rightarrow> LndCanceled))"

definition invoice_parse_preimage :: "u8 list \<Rightarrow> preimage option" where
  "invoice_parse_preimage bytes =
     (if bytes = [] then None else if length bytes \<noteq> 32 then None else Some (Preimage bytes))"

definition lnd_invoice_to_update :: "lnrpc_enums \<Rightarrow> lnrpc_invoice \<Rightarrow> lnd_error + invoice_update" where
  "lnd_invoice_to_update L i =
     bindR (if length (li_r_hash i) = 32 then Inr (PaymentHash (li_r_hash i))
            else Inl (LndInvalidResponse (RHashLength (length (li_r_hash i))))) (\<lambda>hash.
     bindR (map_invoice_state L (li_state i)) (\<lambda>state.
     bindR (if 0 \<le> sint (li_amt_paid_msat i) then Inr (MilliSatoshi (li_amt_paid_msat i))
            else Inl (LndInvalidResponse (AmtPaidMsatNegative (li_amt_paid_msat i)))) (\<lambda>amt.
     Inr \<lparr>iu_payment_hash = hash, iu_state = state, iu_amt_paid_msat = amt,
          iu_payment_preimage = invoice_parse_preimage (li_r_preimage i)\<rparr>)))"

section \<open>The client\<close>

record add_hold_request =
  ahr_hash :: "u8 list"
  ahr_value_msat :: i64
  ahr_expiry :: i64
  ahr_memo :: string

record send_payment_request =
  spq_payment_request :: string
  spq_fee_limit_msat :: i64
  spq_timeout_seconds :: i32
  spq_no_inflight_updates :: bool

record route_fee_response =
  rfr_routing_fee_msat :: i64
  rfr_time_lock_delay :: i64
  rfr_failure_reason :: i32

text \<open>What the remote node answers; a stream RPC answers with its first message, if any.\<close>

record lnd_node =
  node_add_hold_invoice :: "add_hold_request \<Rightarrow> grpc_status + string"
  node_settle_invoice :: "u8 list \<Rightarrow> grpc_status + unit"
  node_cancel_invoice :: "u8 list \<Rightarrow> grpc_status + unit"
  node_lookup_invoice :: "u8 list \<Rightarrow> grpc_status + lnrpc_invoice"
  node_track_payment :: "u8 list \<Rightarrow> grpc_status + (grpc_status + lnrpc_payment option)"
  node_send_payment :: "send_payment_request \<Rightarrow> grpc_status + (grpc_status + lnrpc_payment option)"
  node_estimate_route_fee :: "string \<Rightarrow> grpc_status + route_fee_response"

definition require_inner :: "lnd_node option \<Rightarrow> lnd_error + lnd_node" where
  "require_inner inner = ok_or inner LndStub"

definition client_add_hold_invoice ::
  "lnd_node option \<Rightarrow> add_hold_invoice_params \<Rightarrow> lnd_error + bolt_invoice" where
  "client_add_hold_invoice inner params =
     bindR (require_inner inner) (\<lambda>node.
     bindR (case ahp_amount_msat params of
              Some a \<Rightarrow> ok_or (u64_to_i64 (as_u64 a)) (LndInvalidResponse AmountMsatExceedsI64Max)
            | None \<Rightarrow> Inr 0) (\<lambda>value_msat.
     bindR (map_err LndRpc (node_add_hold_invoice node
       \<lparr>ahr_hash = hash_bytes (ahp_payment_hash params), ahr_value_msat = value_msat,
        ahr_expiry = ucast (ahp_expiry_seconds params), ahr_memo = unwrap_or (ahp_memo params) []\<rparr>)) (\<lambda>pr.
     Inr (BoltInvoice pr))))"

definition client_settle_invoice :: "lnd_node option \<Rightarrow> preimage \<Rightarrow> lnd_error + unit" where
  "client_settle_invoice inner p =
     bindR (require_inner inner) (\<lambda>node.
     map_err LndRpc (node_settle_invoice node (preimage_bytes p)))"

definition client_cancel_invoice :: "lnd_node option \<Rightarrow> payment_hash \<Rightarrow> lnd_error + unit" where
  "client_cancel_invoice inner h =
     bindR (require_inner inner) (\<lambda>node.
     map_err LndRpc (node_cancel_invoice node (hash_bytes h)))"

definition client_lookup_invoice ::
  "lnrpc_enums \<Rightarrow> lnd_node option \<Rightarrow> payment_hash \<Rightarrow> lnd_error + invoice_update" where
  "client_lookup_invoice L inner h =
     bindR (require_inner inner) (\<lambda>node.
     bindR (map_err LndRpc (node_lookup_invoice node (hash_bytes h))) (\<lambda>invoice.
     bindR (lnd_invoice_to_update L invoice) (\<lambda>update.
     if iu_payment_hash update \<noteq> h
     then Inl (LndInvalidResponse (LookupInvoiceMismatch h (iu_payment_hash update)))
     else Inr update)))"

definition map_track_payment_status :: "grpc_status \<Rightarrow> lnd_error" where
  "map_track_payment_status s = (if status_code s = Code_NotFound then LndPaymentNotFound else LndRpc s)"

definition client_lookup_payment ::
  "hex_codec \<Rightarrow> lnrpc_enums \<Rightarrow> lnd_node option \<Rightarrow> payment_hash \<Rightarrow> lnd_error + send_payment_response" where
  "client_lookup_payment H L inner h =
     bindR (require_inner inner) (\<lambda>node.
     bindR (map_err map_track_payment_status (node_track_payment node (hash_bytes h))) (\<lambda>stream.
     bindR (map_err map_track_payment_status stream) (\<lambda>msg.
     bindR (ok_or msg (LndInvalidResponse TrackStreamClosedEarly)) (\<lambda>payment.
     bindR (lnd_payment_to_send_response H L payment) (\<lambda>resp.
     if spr_payment_hash resp \<noteq> h
     then Inl (LndInvalidResponse (LookupPaymentMismatch h (spr_payment_hash resp)))
     else Inr resp)))))"

definition client_send_payment ::
  "hex_codec \<Rightarrow> lnrpc_enums \<Rightarrow> lnd_node option \<Rightarrow> send_payment_params \<Rightarrow> lnd_error + send_payment_response" where
  "client_send_payment H L inner params =
     bindR (require_inner inner) (\<lambda>node.
     bindR (ok_or (u64_to_i64 (as_u64 (spp_max_fee_msat params))) (LndInvalidResponse MaxFeeMsatExceedsI64Max)) (\<lambda>fee_limit.
     bindR (map_err LndRpc (node_send_payment node
       \<lparr>spq_payment_request = bolt_str (spp_bolt_invoice params), spq_fee_limit_msat = fee_limit,
        spq_timeout_seconds = spp_timeout_seconds params, spq_no_inflight_updates = False\<rparr>)) (\<lambda>stream.
     bindR (map_err LndRpc stream) (\<lambda>msg.
     bindR (ok_or msg (LndInvalidResponse SendStreamClosedEarly)) (\<lambda>payment.
     lnd_payment_to_send_response H L payment)))))"

definition client_fee_probe ::
  "lnrpc_enums \<Rightarrow> lnd_node option \<Rightarrow> bolt_invoice \<Rightarrow> lnd_error + fee_probe_response" where
  "client_fee_probe L inner bolt =
     bindR (require_inner inner) (\<lambda>node.
     bindR (map_err LndRpc (node_estimate_route_fee node (bolt_str bolt))) (\<lambda>resp.
     if rfr_failure_reason resp \<noteq> failure_reason_none_tag L
     then Inl (map_failure_reason_to_lnd_error L (rfr_failure_reason resp))
     else bindR (map_err (\<lambda>e. LndInvalidResponse (RoutingFeeMsat e)) (msat_try_from (rfr_routing_fee_msat resp))) (\<lambda>fee.
       let d = sint (rfr_time_lock_delay resp) in
       Inr \<lparr>fpr_fee_msat = fee,
            fpr_expiry_seconds = (if 0 \<le> d \<and> d < 2 ^ 32 then ucast (rfr_time_lock_delay resp) else 0)\<rparr>)))"

section \<open>The stream pumps\<close>

text \<open>What a pump's \<open>select!\<close> observes: cancellation, a message with the outcome of forwarding it,
  the end of the stream, or a transport error. A pump that runs out of observations is still
  waiting (\<open>None\<close>).\<close>

datatype forward_outcome = Forwarded | ForwardCancelled | ReceiverDropped

datatype 'm stream_event =
    SeCancel | SeMessage 'm forward_outcome | SeClosed | SeError grpc_status

fun drive_invoice_stream ::
  "lnrpc_enums \<Rightarrow> payment_hash \<Rightarrow> lnrpc_invoice stream_event list \<Rightarrow>
   (lnd_error + subscribe_invoice_exit option) option \<times> invoice_update list" where
  "drive_invoice_stream L h [] = (None, [])"
| "drive_invoice_stream L h (SeCancel # _) = (Some (Inr (Some Cancelled)), [])"
| "drive_invoice_stream L h (SeClosed # _) = (Some (Inr None), [])"
| "drive_invoice_stream L h (SeError s # _) = (Some (Inl (LndRpc s)), [])"
| "drive_invoice_stream L h (SeMessage m out # evs) =
     (case lnd_invoice_to_update L m of
        Inl _ \<Rightarrow> drive_invoice_stream L h evs
      | Inr u \<Rightarrow>
          if iu_payment_hash u \<noteq> h then drive_invoice_stream L h evs
          else (case out of
                  ForwardCancelled \<Rightarrow> (Some (Inr (Some Cancelled)), [])
                | ReceiverDropped \<Rightarrow> (Some (Inr (Some Cancelled)), [])
                | Forwarded \<Rightarrow>
                    if iu_state u = LndSettled \<or> iu_state u = LndCanceled
                    then (Some (Inr (Some Terminal)), [u])
                    else (let (r, us) = drive_invoice_stream L h evs in (r, u # us))))"

text \<open>One attempt of the outer loop: whether cancellation is seen at the top, what opening the
  stream gives, whether cancellation is seen after the pump returned, and during the 2 s sleep.\<close>

record 'm attempt =
  at_cancelled :: bool
  at_open :: "lnd_error + 'm stream_event list"
  at_cancelled_after :: bool
  at_cancelled_sleep :: bool

fun subscribe_invoice_loop ::
  "lnrpc_enums \<Rightarrow> payment_hash \<Rightarrow> lnrpc_invoice attempt list \<Rightarrow>
   subscribe_invoice_exit option \<times> invoice_update list" where
  "subscribe_invoice_loop L h [] = (None, [])"
| "subscribe_invoice_loop L h (a # as) =
     (if at_cancelled a then (Some Cancelled, [])
      else
        let retry = (\<lambda>us. if at_cancelled_sleep a then (Some Cancelled, us)
                          else let (r, us') = subscribe_invoice_loop L h as in (r, us @ us')) in
        case at_open a of
          Inl _ \<Rightarrow> retry []
        | Inr evs \<Rightarrow>
            (case drive_invoice_stream L h evs of
               (None, us) \<Rightarrow> (None, us)
             | (Some res, us) \<Rightarrow>
                 if at_cancelled_after a then (Some Cancelled, us)
                 else (case res of Inr (Some exit) \<Rightarrow> (Some exit, us) | _ \<Rightarrow> retry us)))"

definition subscribe_invoice ::
  "lnrpc_enums \<Rightarrow> bool \<Rightarrow> payment_hash \<Rightarrow> lnrpc_invoice attempt list \<Rightarrow>
   subscribe_invoice_exit option \<times> invoice_update list" where
  "subscribe_invoice L is_connected h as =
     (if \<not> is_connected then (Some Cancelled, []) else subscribe_invoice_loop L h as)"

fun drive_payment_stream ::
  "hex_codec \<Rightarrow> lnrpc_enums \<Rightarrow> lnrpc_payment stream_event list \<Rightarrow> (lnd_error + unit) option \<times> payment_update list" where
  "drive_payment_stream H L [] = (None, [])"
| "drive_payment_stream H L (SeCancel # _) = (Some (Inr ()), [])"
| "drive_payment_stream H L (SeClosed # _) = (Some (Inr ()), [])"
| "drive_payment_stream H L (SeError s # _) = (Some (Inl (LndRpc s)), [])"
| "drive_payment_stream H L (SeMessage m out # evs) =
     (case payment_to_update H L m of
        Inl _ \<Rightarrow> drive_payment_stream H L evs
      | Inr u \<Rightarrow>
          (case out of
             ForwardCancelled \<Rightarrow> (Some (Inr ()), [])
           | ReceiverDropped \<Rightarrow> (Some (Inr ()), [])
           | Forwarded \<Rightarrow> (let (r, us) = drive_payment_stream H L evs in (r, u # us))))"

fun subscribe_payments_loop ::
  "hex_codec \<Rightarrow> lnrpc_enums \<Rightarrow> lnrpc_payment attempt list \<Rightarrow> bool \<times> payment_update list" where
  "subscribe_payments_loop H L [] = (False, [])"
| "subscribe_payments_loop H L (a # as) =
     (if at_cancelled a then (True, [])
      else
        let retry = (\<lambda>us. if at_cancelled_sleep a then (True, us)
                          else let (r, us') = subscribe_payments_loop H L as in (r, us @ us')) in
        case at_open a of
          Inl _ \<Rightarrow> retry []
        | Inr evs \<Rightarrow>
            (case drive_payment_stream H L evs of
               (None, us) \<Rightarrow> (False, us)
             | (Some res, us) \<Rightarrow> if at_cancelled_after a then (True, us) else retry us))"

text \<open>The whole producer, None while it runs; without a node it waits for cancellation.\<close>

definition subscribe_payments ::
  "hex_codec \<Rightarrow> lnrpc_enums \<Rightarrow> bool \<Rightarrow> bool \<Rightarrow> lnrpc_payment attempt list \<Rightarrow>
   (lnd_error + unit) option \<times> payment_update list" where
  "subscribe_payments H L is_connected cancelled as =
     (if \<not> is_connected then (if cancelled then Some (Inr ()) else None, [])
      else let (ended, us) = subscribe_payments_loop H L as in (if ended then Some (Inr ()) else None, us))"

section \<open>Facts\<close>

text \<open>Without a node every call answers \<open>Stub\<close>; a lookup that answers answers for the hash it was asked.\<close>

lemma client_boot_stub:
  "client_add_hold_invoice None params = Inl LndStub" "client_settle_invoice None p = Inl LndStub"
  "client_cancel_invoice None h = Inl LndStub" "client_lookup_invoice L None h = Inl LndStub"
  "client_lookup_payment H L None h = Inl LndStub" "client_send_payment H L None sp = Inl LndStub"
  "client_fee_probe L None bolt = Inl LndStub"
  by (simp_all add: client_add_hold_invoice_def client_settle_invoice_def client_cancel_invoice_def
      client_lookup_invoice_def client_lookup_payment_def client_send_payment_def client_fee_probe_def
      require_inner_def ok_or_def)

lemma client_lookup_answers_hash:
  "client_lookup_invoice L inner h = Inr u \<Longrightarrow> iu_payment_hash u = h"
  "client_lookup_payment H L inner h = Inr r \<Longrightarrow> spr_payment_hash r = h"
  by (auto simp: client_lookup_invoice_def client_lookup_payment_def bindR_Inr_iff split: if_splits)

lemma sint_small: "unat (v :: u64) < 2 ^ 63 \<Longrightarrow> sint v = uint v"
proof -
  assume "unat v < 2 ^ 63"
  then have "int (unat v) < int (2 ^ 63)" by (simp only: of_nat_less_iff)
  then show ?thesis
    using signed_take_bit_int_eq_self [of 63 "uint v"] uint_ge_0 [of v] by (simp add: sint_uint)
qed

text \<open>A payment is sent with the fee limit it was given, or not sent: a limit above the signed range is
  refused before the node is called.\<close>

lemma client_send_fee_limit:
  assumes "\<And>q. sint (spq_fee_limit_msat q) = uint (as_u64 (spp_max_fee_msat params)) \<Longrightarrow>
    node_send_payment node q = node_send_payment node' q"
  shows "client_send_payment H L (Some node) params = client_send_payment H L (Some node') params"
proof (cases "u64_to_i64 (as_u64 (spp_max_fee_msat params))")
  case (Some fee)
  then have "uint (as_u64 (spp_max_fee_msat params)) = sint fee"
    by (auto simp: u64_to_i64_def sint_small split: if_splits)
  with assms Some show ?thesis
    by (simp add: client_send_payment_def require_inner_def ok_or_def)
qed (simp add: client_send_payment_def require_inner_def ok_or_def)

lemma msat_or_zero_bound: "msat_nat (msat_or_zero v) < 2 ^ 63"
  by (auto simp: msat_or_zero_def msat_try_from_def sint_neg_iff ZERO_def)

lemma msat_or_zero_int: "int (msat_nat (msat_or_zero v)) = max 0 (sint v)"
proof (cases "sint v < 0")
  case False
  then have "sint v = int (unat v)" by (simp add: sint_neg_iff sint_small)
  with False show ?thesis
    by (simp add: msat_or_zero_def msat_try_from_def)
qed (simp add: msat_or_zero_def msat_try_from_def ZERO_def)

lemma round_up_msat_or_zero:
  "msat_nat (round_up_to_sat (msat_or_zero v)) mod 1000 = 0"
  "msat_nat (msat_or_zero v) \<le> msat_nat (round_up_to_sat (msat_or_zero v))"
  "msat_nat (round_up_to_sat (msat_or_zero v)) < msat_nat (msat_or_zero v) + 1000"
proof -
  have "msat_nat (msat_or_zero v) \<le> max_roundable"
    using msat_or_zero_bound [of v] by simp
  then show "msat_nat (round_up_to_sat (msat_or_zero v)) mod 1000 = 0"
    "msat_nat (msat_or_zero v) \<le> msat_nat (round_up_to_sat (msat_or_zero v))"
    "msat_nat (round_up_to_sat (msat_or_zero v)) < msat_nat (msat_or_zero v) + 1000"
    using ceil_1000_bounds [of "msat_nat (msat_or_zero v)"]
    by (simp_all add: msat_nat_round_up less_eq_milli_satoshi_def word_le_nat_alt)
qed

lemma invoice_update_wf: "lnd_invoice_to_update L i = Inr u \<Longrightarrow> wf_hash (iu_payment_hash u)"
  by (auto simp: lnd_invoice_to_update_def bindR_Inr_iff wf_hash_def split: if_splits)

definition forwarded_run :: "payment_hash \<Rightarrow> bool \<Rightarrow> invoice_update list \<Rightarrow> bool" where
  "forwarded_run h ended us \<longleftrightarrow>
     (\<forall>u \<in> set us. iu_payment_hash u = h) \<and>
     (\<forall>u \<in> set (butlast us). iu_state u \<notin> {LndSettled, LndCanceled}) \<and>
     (ended \<longleftrightarrow> us \<noteq> [] \<and> iu_state (last us) \<in> {LndSettled, LndCanceled})"

lemma forwarded_run_Nil: "forwarded_run h ended [] \<longleftrightarrow> \<not> ended"
  by (simp add: forwarded_run_def)

lemma forwarded_run_last:
  "iu_payment_hash u = h \<Longrightarrow> iu_state u \<in> {LndSettled, LndCanceled} \<Longrightarrow> forwarded_run h True [u]"
  by (simp add: forwarded_run_def)

lemma forwarded_run_Cons:
  "forwarded_run h ended us \<Longrightarrow> iu_payment_hash u = h \<Longrightarrow> iu_state u \<notin> {LndSettled, LndCanceled} \<Longrightarrow>
     forwarded_run h ended (u # us)"
  by (auto simp: forwarded_run_def)

lemma drive_invoice_updates:
  "drive_invoice_stream L h evs = (r, us) \<Longrightarrow> forwarded_run h (r = Some (Inr (Some Terminal))) us"
proof (induction evs arbitrary: r us)
  case (Cons ev evs)
  obtain r' us' where rec: "drive_invoice_stream L h evs = (r', us')" by fastforce
  note ih = Cons.IH [OF rec]
  show ?case
  proof (cases ev)
    case (SeMessage m out)
    show ?thesis
    proof (cases "lnd_invoice_to_update L m")
      case (Inl e)
      with SeMessage Cons.prems rec ih show ?thesis by simp
    next
      case (Inr u)
      show ?thesis
      proof (cases "iu_payment_hash u = h")
        case True
        with Inr SeMessage Cons.prems rec ih show ?thesis
          by (cases out; cases "iu_state u")
            (auto simp: forwarded_run_Nil intro: forwarded_run_last forwarded_run_Cons)
      next
        case False
        with Inr SeMessage Cons.prems rec ih show ?thesis by simp
      qed
    qed
  qed (use Cons.prems in \<open>auto simp: forwarded_run_Nil\<close>)
qed (simp add: forwarded_run_Nil)

section \<open>Reference tags and a sample payment\<close>

text \<open>The tags as LND's \<open>lightning.proto\<close> documents them.\<close>

definition ref_lnrpc :: lnrpc_enums where
  "ref_lnrpc = \<lparr>
     payment_status_try_from = (\<lambda>v. if v = 0 then Some PsUnknown else if v = 1 then Some PsInFlight
       else if v = 2 then Some PsSucceeded else if v = 3 then Some PsFailed
       else if v = 4 then Some PsInitiated else None),
     failure_reason_try_from = (\<lambda>v. if v = 0 then Some FrNone else if v = 1 then Some FrTimeout
       else if v = 2 then Some FrNoRoute else if v = 3 then Some FrError
       else if v = 4 then Some FrIncorrectPaymentDetails else if v = 5 then Some FrInsufficientBalance
       else if v = 6 then Some FrCanceled else None),
     invoice_state_try_from = (\<lambda>v. if v = 0 then Some IsOpen else if v = 1 then Some IsSettled
       else if v = 2 then Some IsCanceled else if v = 3 then Some IsAccepted else None),
     failure_reason_none_tag = 0\<rparr>"

section \<open>Properties\<close>

text \<open>Whatever LND reports, an accepted payment message has a 32-byte hash, a fee rounded up to
  whole satoshis that never understates the reported fee (a negative report counts as zero), a
  failure reason exactly when it failed, and a preimage only if one of 32 bytes was sent.\<close>

lemma lnd_payment_mapping:
  assumes "hex_crate H" "lnd_payment_to_send_response H L p = Inr r"
  shows "wf_hash (spr_payment_hash r) \<and>
    msat_nat (spr_fees_paid_msat r) mod 1000 = 0 \<and>
    max 0 (sint (lp_fee_msat p)) \<le> int (msat_nat (spr_fees_paid_msat r)) \<and>
    int (msat_nat (spr_fees_paid_msat r)) < max 0 (sint (lp_fee_msat p)) + 1000 \<and>
    (spr_failure_reason r \<noteq> None \<longleftrightarrow> spr_status r = SendFailed) \<and>
    (\<forall>pre. spr_payment_preimage r = Some pre \<longrightarrow> wf_preimage pre)"
proof -
  have h: "hash_from_str H (lp_payment_hash p) = Inr (spr_payment_hash r)"
    and pre: "spr_payment_preimage r = lnd_parse_preimage H (lp_payment_preimage p)"
    and fee: "spr_fees_paid_msat r = round_up_to_sat (msat_or_zero (lp_fee_msat p))"
    and reason: "spr_failure_reason r =
      (if spr_status r = SendFailed then Some (map_failure_reason_to_typed L (lp_failure_reason p)) else None)"
    using assms(2)
    by (auto simp: lnd_payment_to_send_response_def parse_hex_payment_hash_def bindR_Inr_iff Let_def)
  have "wf_hash (spr_payment_hash r)"
    using hex_crate.hash_from_str_wf [OF assms(1) h] by simp
  moreover have "\<forall>q. spr_payment_preimage r = Some q \<longrightarrow> wf_preimage q"
    using hex_crate.preimage_from_str_wf [OF assms(1)]
    by (auto simp: pre lnd_parse_preimage_def ok_def split: if_splits sum.splits)
  moreover have "max 0 (sint (lp_fee_msat p)) \<le> int (msat_nat (spr_fees_paid_msat r)) \<and>
      int (msat_nat (spr_fees_paid_msat r)) < max 0 (sint (lp_fee_msat p)) + 1000"
    using round_up_msat_or_zero(2,3) [of "lp_fee_msat p"]
    unfolding fee msat_or_zero_int [symmetric] by linarith
  ultimately show ?thesis
    using reason round_up_msat_or_zero(1) [of "lp_fee_msat p"] unfolding fee by (simp del: of_nat_unat)
qed

text \<open>The per-invoice stream pump forwards only updates of the invoice it subscribed to, forwards
  nothing after a settled or canceled update, and reports \<open>Terminal\<close> exactly when the last update
  it forwarded is one.\<close>

lemma drive_invoice_stream_forwards:
  assumes "drive_invoice_stream L h evs = (r, us)"
  shows "(\<forall>u \<in> set us. iu_payment_hash u = h) \<and>
    (\<forall>u \<in> set (butlast us). iu_state u \<notin> {LndSettled, LndCanceled}) \<and>
    (r = Some (Inr (Some Terminal)) \<longleftrightarrow> us \<noteq> [] \<and> iu_state (last us) \<in> {LndSettled, LndCanceled})"
  using drive_invoice_updates [OF assms] by (simp add: forwarded_run_def)

end
