(* ===== verification/Fees.thy ===== *)
theory Fees
  imports Complex_Main Primitives
begin

text \<open>
  The routing-fee cap of \<open>src/fees/policy.rs\<close>: \<open>LnFees::max_for\<close> in machine arithmetic, and
  its agreement with the rounding rule the module documents.
\<close>

section \<open>The policy\<close>

definition FEE_CAP_BASIS_POINTS :: u64 where
  "FEE_CAP_BASIS_POINTS = 50"

definition FEE_CAP_MIN_SAT :: u64 where
  "FEE_CAP_MIN_SAT = 10"

text \<open>\<open>u64::saturating_mul\<close>.\<close>

definition saturating_mul :: "u64 \<Rightarrow> u64 \<Rightarrow> u64" where
  "saturating_mul a b = (if uint a * uint b < 2 ^ 64 then a * b else - 1)"

definition max_for :: "milli_satoshi \<Rightarrow> milli_satoshi" where
  "max_for amount_msat =
     (let amount_sat = whole_sat amount_msat;
          scaled = saturating_mul amount_sat FEE_CAP_BASIS_POINTS;
          quotient = scaled div 10000;
          pct_sat = (if scaled mod 10000 > 5000 then quotient + 1 else quotient);
          max_fee_sat = max pct_sat FEE_CAP_MIN_SAT
      in MilliSatoshi (max_fee_sat * 1000))"

section \<open>Machine arithmetic agrees with the natural numbers\<close>

lemma unat_saturating_mul: "unat (saturating_mul a b) = min (unat a * unat b) (2 ^ 64 - 1)"
proof -
  have "unat (- 1 :: u64) = 2 ^ 64 - 1"
    by (simp add: unsigned_minus_1_eq_mask mask_eq_exp_minus_1)
  moreover have "uint a * uint b < 2 ^ 64 \<longleftrightarrow> unat a * unat b < 2 ^ 64"
    using of_nat_less_iff [where 'a = int, of "unat a * unat b" "2 ^ 64"]
    by (simp only: of_nat_mult of_nat_power of_nat_numeral uint_nat)
  ultimately show ?thesis
    unfolding saturating_mul_def by (auto simp: unat_word_ariths min_def)
qed

lemma unat_max: "unat (max a b :: u64) = max (unat a) (unat b)"
  by (simp add: max_def word_le_nat_alt)

lemma half_down_div:
  "(if 5000 < n mod 10000 then n div 10000 + 1 else n div 10000) = (n + 4999) div (10000 :: nat)"
proof -
  define q r where "q = n div 10000" and "r = n mod 10000"
  have n: "n = q * 10000 + r" and r: "r < 10000"
    by (simp_all add: q_def r_def)
  have "(n + 4999) div 10000 = (if 5000 < r then q + 1 else q)"
    unfolding n using r by (intro div_nat_eqI) auto
  then show ?thesis
    by (simp add: q_def r_def)
qed

lemma sat_bound: "msat_nat m div 1000 \<le> 18446744073709551"
  using div_le_mono [of "msat_nat m" "2 ^ 64 - 1" 1000] u64_bound [of "as_u64 m"] by simp

lemma scaled_sat:
  "unat (saturating_mul (whole_sat m) FEE_CAP_BASIS_POINTS) = 50 * (msat_nat m div 1000)"
  using sat_bound [of m] by (simp add: unat_saturating_mul FEE_CAP_BASIS_POINTS_def)

lemma pct_sat:
  assumes "unat x \<le> 922337203685477550"
  shows "unat (if x mod 10000 > 5000 then x div 10000 + 1 else x div (10000 :: u64)) =
    (unat x + 4999) div 10000"
proof -
  have "unat x div 10000 + 1 < 2 ^ 64"
    using div_le_dividend [of "unat x" 10000] assms by simp
  then have "unat (x div 10000 + 1) = unat x div 10000 + 1"
    by (simp add: unat_word_ariths unat_div_distrib)
  moreover have "x mod 10000 > 5000 \<longleftrightarrow> unat x mod 10000 > 5000"
    by (simp add: word_less_nat_alt unat_mod_distrib)
  ultimately show ?thesis
    by (simp add: unat_div_distrib flip: half_down_div)
qed

lemma msat_nat_max_for:
  "msat_nat (max_for m) = 1000 * max 10 ((50 * (msat_nat m div 1000) + 4999) div 10000)"
proof -
  let ?s = "saturating_mul (whole_sat m) FEE_CAP_BASIS_POINTS"
  let ?p = "if ?s mod 10000 > 5000 then ?s div 10000 + 1 else ?s div (10000 :: u64)"
  have p: "unat ?p = (50 * (msat_nat m div 1000) + 4999) div 10000"
    using pct_sat [of ?s] sat_bound [of m] by (simp add: scaled_sat)
  also have "\<dots> \<le> (50 * 18446744073709551 + 4999) div 10000"
    using sat_bound [of m] by (intro div_le_mono) simp
  finally have "unat (max ?p FEE_CAP_MIN_SAT) * 1000 < 2 ^ 64"
    by (simp add: unat_max FEE_CAP_MIN_SAT_def)
  then have "unat (max ?p FEE_CAP_MIN_SAT * 1000) = unat (max ?p FEE_CAP_MIN_SAT) * 1000"
    by (simp add: unat_word_ariths)
  then have "msat_nat (max_for m) = unat (max ?p FEE_CAP_MIN_SAT) * 1000"
    by (simp add: max_for_def Let_def)
  then show ?thesis
    by (simp only: unat_max p) (simp add: FEE_CAP_MIN_SAT_def max.commute mult.commute)
qed

lemma ceiling_half_down: "\<lceil>real n / 10000 - 1 / 2\<rceil> = int ((n + 4999) div 10000)"
proof -
  define q r where "q = (n + 4999) div 10000" and "r = (n + 4999) mod 10000"
  have "n + 4999 = q * 10000 + r" "r < 10000"
    by (simp_all add: q_def r_def)
  then have "real (n + 4999) = real (q * 10000 + r)" "real r \<le> 9999"
    by simp_all
  then have "real q - 1 < real n / 10000 - 1 / 2 \<and> real n / 10000 - 1 / 2 \<le> real q"
    by (simp add: field_simps)
  then show ?thesis
    by (simp add: ceiling_eq_iff q_def)
qed

section \<open>Properties\<close>

text \<open>C26. \<open>LnFees::max_for\<close> computes, for every 64-bit amount and without overflow, the
  documented policy: 0.5\% of the whole-sat amount rounded half down to a satoshi, but at least
  10 satoshi, in milli-satoshi.\<close>

theorem max_for_policy:
  "int (msat_nat (max_for m)) =
     1000 * max 10 \<lceil>50 * real (msat_nat m div 1000) / 10000 - 1 / 2\<rceil>"
  using ceiling_half_down [of "50 * (msat_nat m div 1000)"]
  by (simp add: msat_nat_max_for of_nat_max)

lemma max_for_mono: "a \<le> b \<Longrightarrow> max_for a \<le> max_for b"
  unfolding less_eq_milli_satoshi_def word_le_nat_alt msat_nat_max_for
  by (intro mult_le_mono2 max.mono div_le_mono add_mono order_refl)

lemma max_for_whole_sat: "msat_nat (max_for m) mod 1000 = 0"
  by (simp add: msat_nat_max_for)

lemma max_for_bound: "10000 \<le> msat_nat (max_for m)" "msat_nat (max_for m) \<le> 92233720368548000"
proof -
  have "(50 * (msat_nat m div 1000) + 4999) div 10000 \<le> (50 * 18446744073709551 + 4999) div 10000"
    using sat_bound [of m] by (intro div_le_mono) simp
  then show "10000 \<le> msat_nat (max_for m)" "msat_nat (max_for m) \<le> 92233720368548000"
    by (simp_all add: msat_nat_max_for)
qed

end
