(* ===== verification/App_World.thy ===== *)
theory App_World
  imports Invoice Payment Outbox Symphony Lnd Fees
begin

text \<open>
  The world the application coordinator of \<open>src/app.rs\<close> acts on, and its primitive actions.

  \<^item> The state is the database (the entity store and the outbox table), the writes of the open
    transaction, a step counter and the trace of the effects so far. The trace is ghost state:
    no operation reads it.
  \<^item> Everything outside the gateway is a field of the environment: LND, Symphony, the ownership
    checker, clocks and random draws, the failures of database statements, the es-entity
    repositories and what other tasks do to the database meanwhile (\<open>e_others\<close>, applied when a
    statement outside a transaction or a transaction starts). Each is indexed by the step
    counter, which every action advances, so an environment can answer the same question
    differently each time.
  \<^item> A transaction is atomic: on an error its writes are undone, but not the sequence numbers it
    drew. A commit may succeed, be lost, or take effect although its acknowledgement is lost.
\<close>

section \<open>Errors, requests, modes\<close>

datatype app_error =
    AppInvoice invoice_error
  | AppPayment payment_error
  | AppLnd lnd_error
  | AppOutbox outbox_error
  | AppSymphony symphony_error
  | AppDb string
  | AppInvalidBoltInvoice string
  | AppWalletOwnership string
  | AppPanic string

datatype app_mode = Live | DryRun

datatype caller_auth = CallerAuth (ca_jwt: string) (ca_sub: string)

record new_invoice_request =
  nir_caller_auth :: caller_auth
  nir_wallet_id :: wallet_id
  nir_amount_msat :: milli_satoshi
  nir_expiry_seconds :: u32
  nir_memo :: "string option"
  nir_external_id :: "string option"

record pay_request =
  pq_caller_auth :: caller_auth
  pq_wallet_id :: wallet_id
  pq_payment_request :: string
  pq_memo :: "string option"

record fee_probe_request =
  fq_caller_auth :: caller_auth
  fq_wallet_id :: wallet_id
  fq_payment_request :: string

section \<open>The state and its trace\<close>

datatype db_write =
    WCreatePayment new_payment
  | WUpdatePayment payment_id payment_state
  | WCreateInvoice new_invoice
  | WUpdateInvoice invoice_id invoice_state
  | WPublish new_outbox_event

datatype effect =
    EOwnership wallet_id bool
  | EAuthorize symphony_authorize_request "symphony_error + symphony_authorize_response"
  | ELndAddHold add_hold_invoice_params
  | ELndSettle preimage
  | ELndCancel payment_hash
  | ELndLookupInvoice payment_hash "lnd_error + invoice_update"
  | ELndLookupPayment payment_hash "(lnd_error + send_payment_response) option"
  | ELndSend send_payment_params
  | ELndFeeProbe bolt_invoice
  | ECommit "db_write list"
  | ESpawnListener payment_hash

record 's db =
  db_es :: 's
  db_outbox :: "outbox_row list"
  db_nextval :: i64

record 's world =
  w_db :: "'s db"
  w_pending :: "db_write list"
  w_step :: nat
  w_trace :: "effect list"

section \<open>The environment\<close>

text \<open>The generated repositories (\<open>EsRepo\<close>), as functions on the entity store.\<close>

record ('ie, 'pe, 's) es_repos =
  find_invoice_by_id :: "'s \<Rightarrow> invoice_id \<Rightarrow> es_find_error + 'ie invoice"
  find_invoice_by_payment_hash :: "'s \<Rightarrow> payment_hash \<Rightarrow> es_find_error + 'ie invoice"
  create_invoice_row :: "'s \<Rightarrow> new_invoice \<Rightarrow> invoice_create_error + ('ie invoice \<times> 's)"
  update_invoice_row :: "'s \<Rightarrow> 'ie invoice \<Rightarrow> es_modify_error + ('ie invoice \<times> 's)"
  find_payment_by_payment_hash :: "'s \<Rightarrow> payment_hash \<Rightarrow> es_find_error + 'pe payment"
  create_payment_row :: "'s \<Rightarrow> new_payment \<Rightarrow> payment_create_error + ('pe payment \<times> 's)"
  update_payment_row :: "'s \<Rightarrow> 'pe payment \<Rightarrow> es_modify_error + ('pe payment \<times> 's)"
  invoice_rows :: "'s \<Rightarrow> invoice_row list"
  payment_rows :: "'s \<Rightarrow> payment_row list"

text \<open>The parts of a parsed invoice the \<open>lightning-invoice\<close> crate hands out.\<close>

record bolt11 =
  b11_payment_hash :: "u8 list"
  b11_payee :: "u8 list option"
  b11_recovered_payee :: "u8 list"
  b11_amount_msat :: "u64 option"
  b11_would_expire :: "int \<Rightarrow> bool"

datatype commit_result = CommitOk | CommitLost string | CommitAmbiguous string

record ('ie, 'pe, 's) env =
  e_mode :: app_mode
  e_hex :: hex_codec
  e_sha256 :: "u8 list \<Rightarrow> u8 list"
  e_bolt11 :: "string \<Rightarrow> string + bolt11"
  e_ies :: "('ie, invoice_id, invoice_event) es_crate"
  e_pes :: "('pe, payment_id, payment_event) es_crate"
  e_repos :: "('ie, 'pe, 's) es_repos"
  e_wallet_str :: "wallet_id \<Rightarrow> string"
  e_show_symphony :: "symphony_error \<Rightarrow> string"
  e_show_decline :: "decline_reason \<Rightarrow> string"
  e_show_lnd :: "lnd_error \<Rightarrow> string"
  e_now :: "nat \<Rightarrow> timestamp"
  e_payment_id :: "nat \<Rightarrow> payment_id"
  e_invoice_id :: "nat \<Rightarrow> invoice_id"
  e_preimage :: "nat \<Rightarrow> preimage"
  e_ownership :: "nat \<Rightarrow> caller_auth \<Rightarrow> wallet_id \<Rightarrow> string + unit"
  e_authorize :: "nat \<Rightarrow> symphony_authorize_request \<Rightarrow> symphony_error + symphony_authorize_response"
  e_lnd_add_hold :: "nat \<Rightarrow> add_hold_invoice_params \<Rightarrow> lnd_error + bolt_invoice"
  e_lnd_settle :: "nat \<Rightarrow> preimage \<Rightarrow> lnd_error + unit"
  e_lnd_cancel :: "nat \<Rightarrow> payment_hash \<Rightarrow> lnd_error + unit"
  e_lnd_lookup_invoice :: "nat \<Rightarrow> payment_hash \<Rightarrow> lnd_error + invoice_update"
  e_lnd_lookup_payment :: "nat \<Rightarrow> payment_hash \<Rightarrow> (lnd_error + send_payment_response) option"
  e_lnd_send :: "nat \<Rightarrow> send_payment_params \<Rightarrow> lnd_error + send_payment_response"
  e_lnd_fee_probe :: "nat \<Rightarrow> bolt_invoice \<Rightarrow> lnd_error + fee_probe_response"
  e_others :: "nat \<Rightarrow> 's db \<Rightarrow> 's db"
  e_stmt_fail :: "nat \<Rightarrow> string option"
  e_begin_fail :: "nat \<Rightarrow> string option"
  e_commit :: "nat \<Rightarrow> commit_result"

section \<open>Primitive actions\<close>

definition tick :: "'s world \<Rightarrow> 's world" where
  "tick w = w\<lparr>w_step := Suc (w_step w)\<rparr>"

definition emit :: "effect \<Rightarrow> 's world \<Rightarrow> 's world" where
  "emit x w = w\<lparr>w_trace := w_trace w @ [x]\<rparr>"

definition draw :: "(nat \<Rightarrow> 'a) \<Rightarrow> ('s world, 'e, 'a) cmd" where
  "draw f w = (Inr (f (w_step w)), tick w)"

text \<open>A call to the outside: the answer of the environment at this step, recorded in the trace.\<close>

definition call :: "(nat \<Rightarrow> 'e + 'a) \<Rightarrow> ('e + 'a \<Rightarrow> effect) \<Rightarrow> ('s world, 'e, 'a) cmd" where
  "call f eff w = (let r = f (w_step w) in (r, emit (eff r) (tick w)))"

definition interfere :: "('ie, 'pe, 's) env \<Rightarrow> 's world \<Rightarrow> 's world" where
  "interfere env w = w\<lparr>w_db := e_others env (w_step w) (w_db w)\<rparr>"

definition set_es :: "'s \<Rightarrow> 's world \<Rightarrow> 's world" where
  "set_es s w = w\<lparr>w_db := (w_db w)\<lparr>db_es := s\<rparr>\<rparr>"

definition log_write :: "db_write \<Rightarrow> 's world \<Rightarrow> 's world" where
  "log_write x w = w\<lparr>w_pending := w_pending w @ [x]\<rparr>"

text \<open>A statement: the database may fail it; otherwise it runs on the entity store.\<close>

definition query ::
  "('ie, 'pe, 's) env \<Rightarrow> (string \<Rightarrow> 'e) \<Rightarrow> ('s \<Rightarrow> 'e + 'a) \<Rightarrow> ('s world, 'e, 'a) cmd" where
  "query env infra f w =
     (case e_stmt_fail env (w_step w) of
        Some msg \<Rightarrow> (Inl (infra msg), tick w)
      | None \<Rightarrow> (let w1 = interfere env w in (f (db_es (w_db w1)), tick w1)))"

definition stmt ::
  "('ie, 'pe, 's) env \<Rightarrow> (string \<Rightarrow> 'e) \<Rightarrow> ('s \<Rightarrow> 'e + ('a \<times> 's)) \<Rightarrow> ('a \<Rightarrow> db_write) \<Rightarrow> ('s world, 'e, 'a) cmd" where
  "stmt env infra f wr w =
     (case e_stmt_fail env (w_step w) of
        Some msg \<Rightarrow> (Inl (infra msg), tick w)
      | None \<Rightarrow>
          (case f (db_es (w_db w)) of
             Inl e \<Rightarrow> (Inl e, tick w)
           | Inr (x, s) \<Rightarrow> (Inr x, tick (log_write (wr x) (set_es s w)))))"

text \<open>Undoing the writes of a transaction; a sequence is not transactional, so its counter stays.\<close>

definition rollback :: "'s db \<Rightarrow> 's db \<Rightarrow> 's db" where
  "rollback d0 d1 = d0\<lparr>db_nextval := db_nextval d1\<rparr>"

text \<open>\<open>let mut tx = pool.begin().await?; body; tx.commit().await?\<close>, dropping (rolling back) the
  transaction on every early return.\<close>

definition in_tx :: "('ie, 'pe, 's) env \<Rightarrow> (string \<Rightarrow> 'e) \<Rightarrow> ('s world, 'e, 'a) cmd \<Rightarrow> ('s world, 'e, 'a) cmd" where
  "in_tx env infra body w =
     (case e_begin_fail env (w_step w) of
        Some msg \<Rightarrow> (Inl (infra msg), tick w)
      | None \<Rightarrow>
          (let w0 = tick ((interfere env w)\<lparr>w_pending := []\<rparr>) in
           case body w0 of
             (Inl e, w1) \<Rightarrow> (Inl e, w1\<lparr>w_db := rollback (w_db w0) (w_db w1), w_pending := []\<rparr>)
           | (Inr x, w1) \<Rightarrow>
               (let done = tick (emit (ECommit (w_pending w1)) (w1\<lparr>w_pending := []\<rparr>)) in
                case e_commit env (w_step w1) of
                  CommitOk \<Rightarrow> (Inr x, done)
                | CommitAmbiguous msg \<Rightarrow> (Inl (infra msg), done)
                | CommitLost msg \<Rightarrow> (Inl (infra msg), tick (w1\<lparr>w_db := rollback (w_db w0) (w_db w1), w_pending := []\<rparr>)))))"

section \<open>Repository and outbox calls\<close>

definition find_invoice :: "('ie, 'pe, 's) env \<Rightarrow> payment_hash \<Rightarrow> ('s world, es_find_error, 'ie invoice) cmd" where
  "find_invoice env h = query env EsFindOther (\<lambda>s. find_invoice_by_payment_hash (e_repos env) s h)"

definition maybe_find_invoice ::
  "('ie, 'pe, 's) env \<Rightarrow> payment_hash \<Rightarrow> ('s world, es_find_error, 'ie invoice option) cmd" where
  "maybe_find_invoice env h =
     query env EsFindOther (\<lambda>s. case find_invoice_by_payment_hash (e_repos env) s h of
        Inr i \<Rightarrow> Inr (Some i) | Inl EsNotFound \<Rightarrow> Inr None | Inl e \<Rightarrow> Inl e)"

definition find_payment :: "('ie, 'pe, 's) env \<Rightarrow> payment_hash \<Rightarrow> ('s world, es_find_error, 'pe payment) cmd" where
  "find_payment env h = query env EsFindOther (\<lambda>s. find_payment_by_payment_hash (e_repos env) s h)"

definition create_payment_in_op ::
  "('ie, 'pe, 's) env \<Rightarrow> new_payment \<Rightarrow> ('s world, payment_create_error, 'pe payment) cmd" where
  "create_payment_in_op env n =
     stmt env PaymentCreateOther (\<lambda>s. create_payment_row (e_repos env) s n) (\<lambda>_. WCreatePayment n)"

definition update_payment_in_op ::
  "('ie, 'pe, 's) env \<Rightarrow> 'pe payment \<Rightarrow> ('s world, es_modify_error, 'pe payment) cmd" where
  "update_payment_in_op env p =
     stmt env EsModifyOther (\<lambda>s. update_payment_row (e_repos env) s p)
       (\<lambda>_. WUpdatePayment (pay_id p) (pay_state p))"

definition create_invoice_in_op ::
  "('ie, 'pe, 's) env \<Rightarrow> new_invoice \<Rightarrow> ('s world, invoice_create_error, 'ie invoice) cmd" where
  "create_invoice_in_op env n =
     stmt env InvoiceCreateOther (\<lambda>s. create_invoice_row (e_repos env) s n) (\<lambda>_. WCreateInvoice n)"

definition update_invoice_in_op ::
  "('ie, 'pe, 's) env \<Rightarrow> 'ie invoice \<Rightarrow> ('s world, es_modify_error, 'ie invoice) cmd" where
  "update_invoice_in_op env i =
     stmt env EsModifyOther (\<lambda>s. update_invoice_row (e_repos env) s i)
       (\<lambda>_. WUpdateInvoice (inv_id i) (inv_state i))"

text \<open>\<open>Payments::update\<close> and \<open>Invoices::create\<close>: the same statement in a transaction of its own.\<close>

definition update_payment ::
  "('ie, 'pe, 's) env \<Rightarrow> 'pe payment \<Rightarrow> ('s world, es_modify_error, 'pe payment) cmd" where
  "update_payment env p = in_tx env EsModifyOther (update_payment_in_op env p)"

definition create_invoice_op ::
  "('ie, 'pe, 's) env \<Rightarrow> new_invoice \<Rightarrow> ('s world, invoice_create_error, 'ie invoice) cmd" where
  "create_invoice_op env n = in_tx env InvoiceCreateOther (create_invoice_in_op env n)"

text \<open>\<open>EventPublisher::publish_in_tx\<close>: the insert, under the next value of the \<open>BIGSERIAL\<close> sequence. The
  largest value is followed by an error of the database; a rolled-back transaction leaves a gap.\<close>

definition publish_in_tx ::
  "('ie, 'pe, 's) env \<Rightarrow> new_outbox_event \<Rightarrow> ('s world, outbox_error, i64) cmd" where
  "publish_in_tx env ev w =
     (case e_stmt_fail env (w_step w) of
        Some msg \<Rightarrow> (Inl (Db msg), tick w)
      | None \<Rightarrow>
          (let d = w_db w; n = db_nextval d in
           if sint n < 1 then (Inl (Db ''nextval: reached maximum value of sequence''), tick w)
           else (Inr n, tick (log_write (WPublish ev)
              (w\<lparr>w_db := d\<lparr>db_outbox := db_outbox d @ [publish_row n ev], db_nextval := n + 1\<rparr>\<rparr>)))))"

definition check_wallet_ownership ::
  "('ie, 'pe, 's) env \<Rightarrow> caller_auth \<Rightarrow> wallet_id \<Rightarrow> ('s world, app_error, unit) cmd" where
  "check_wallet_ownership env auth wallet =
     mapErrC AppWalletOwnership
       (call (\<lambda>n. e_ownership env n auth wallet) (\<lambda>r. EOwnership wallet (r = Inr ())))"

definition symphony_authorize_spend ::
  "('ie, 'pe, 's) env \<Rightarrow> symphony_authorize_request \<Rightarrow> ('s world, symphony_error, symphony_authorize_response) cmd" where
  "symphony_authorize_spend env req = call (\<lambda>n. e_authorize env n req) (\<lambda>r. EAuthorize req r)"

definition lnd_send_payment ::
  "('ie, 'pe, 's) env \<Rightarrow> send_payment_params \<Rightarrow> ('s world, lnd_error, send_payment_response) cmd" where
  "lnd_send_payment env p = call (\<lambda>n. e_lnd_send env n p) (\<lambda>_. ELndSend p)"

definition lnd_cancel_invoice ::
  "('ie, 'pe, 's) env \<Rightarrow> payment_hash \<Rightarrow> ('s world, app_error, unit) cmd" where
  "lnd_cancel_invoice env h = mapErrC AppLnd (call (\<lambda>n. e_lnd_cancel env n h) (\<lambda>_. ELndCancel h))"

definition lnd_settle_invoice ::
  "('ie, 'pe, 's) env \<Rightarrow> preimage \<Rightarrow> ('s world, app_error, unit) cmd" where
  "lnd_settle_invoice env p = mapErrC AppLnd (call (\<lambda>n. e_lnd_settle env n p) (\<lambda>_. ELndSettle p))"

definition lnd_lookup_invoice ::
  "('ie, 'pe, 's) env \<Rightarrow> payment_hash \<Rightarrow> ('s world, app_error, invoice_update) cmd" where
  "lnd_lookup_invoice env h =
     mapErrC AppLnd (call (\<lambda>n. e_lnd_lookup_invoice env n h) (\<lambda>r. ELndLookupInvoice h r))"

definition lnd_add_hold_invoice ::
  "('ie, 'pe, 's) env \<Rightarrow> add_hold_invoice_params \<Rightarrow> ('s world, app_error, bolt_invoice) cmd" where
  "lnd_add_hold_invoice env p = mapErrC AppLnd (call (\<lambda>n. e_lnd_add_hold env n p) (\<lambda>_. ELndAddHold p))"

definition lnd_fee_probe ::
  "('ie, 'pe, 's) env \<Rightarrow> bolt_invoice \<Rightarrow> ('s world, app_error, fee_probe_response) cmd" where
  "lnd_fee_probe env b = mapErrC AppLnd (call (\<lambda>n. e_lnd_fee_probe env n b) (\<lambda>_. ELndFeeProbe b))"

section \<open>Helpers (helpers.rs)\<close>

definition is_concurrent_modification :: "es_modify_error \<Rightarrow> bool" where
  "is_concurrent_modification e \<longleftrightarrow> e = EsConcurrentModification"

definition is_payment_not_found :: "es_find_error \<Rightarrow> bool" where
  "is_payment_not_found e \<longleftrightarrow> e = EsNotFound"

definition is_invoice_not_found :: "es_find_error \<Rightarrow> bool" where
  "is_invoice_not_found e \<longleftrightarrow> e = EsNotFound"

definition jmsat :: "milli_satoshi \<Rightarrow> json" where
  "jmsat m = JNum (uint (as_u64 m))"

definition hops_to_json :: "hex_codec \<Rightarrow> hop list \<Rightarrow> json list" where
  "hops_to_json H hops =
     map (\<lambda>h. JObj [(''pub_key'', JStr (pubkey_to_hex H (hop_pub_key h))),
                    (''channel_id'', JNum (uint (hop_channel_id h))),
                    (''fee_msat'', jmsat (hop_fee_msat h)),
                    (''amt_msat'', jmsat (hop_amt_msat h))]) hops"

definition lnd_error_to_failure_reason :: "(lnd_error \<Rightarrow> string) \<Rightarrow> lnd_error \<Rightarrow> failure_reason" where
  "lnd_error_to_failure_reason show_lnd err =
     (case err of
        LndPaymentTimeout \<Rightarrow> Timeout
      | LndNoRoute \<Rightarrow> NoRoute
      | LndIncorrectPaymentDetails \<Rightarrow> IncorrectPaymentDetails
      | other \<Rightarrow> Other (''LND error: '' @ show_lnd other))"

section \<open>BOLT11 decoding (decode.rs)\<close>

text \<open>\<open>now\<close> is the wall clock in nanoseconds since the epoch (zero before it), which the crate's
  \<open>would_expire\<close> compares with the expiry of the parsed invoice.\<close>

definition decode_bolt11 ::
  "hex_codec \<Rightarrow> (string \<Rightarrow> string + bolt11) \<Rightarrow> int \<Rightarrow> string \<Rightarrow> app_error + decoded_invoice" where
  "decode_bolt11 H parse now payment_request =
     bindR (map_err AppInvalidBoltInvoice (parse payment_request)) (\<lambda>invoice.
     if b11_would_expire invoice now then Inl (AppPayment ExpiredBoltInvoice)
     else
       bindR (if length (b11_payment_hash invoice) = 32 then Inr (PaymentHash (b11_payment_hash invoice))
              else Inl (AppInvalidBoltInvoice ''payment hash not 32 bytes'')) (\<lambda>hash.
       let payee = (case b11_payee invoice of Some pk \<Rightarrow> pk | None \<Rightarrow> b11_recovered_payee invoice) in
       Inr \<lparr>di_payment_hash = hash, di_destination = hex_encode H payee,
            di_amount_msat = map_option (\<lambda>a. round_up_to_sat (MilliSatoshi a)) (b11_amount_msat invoice),
            di_bolt_invoice = BoltInvoice payment_request\<rparr>))"

definition decode_payment_request ::
  "('ie, 'pe, 's) env \<Rightarrow> string \<Rightarrow> ('s world, app_error, decoded_invoice) cmd" where
  "decode_payment_request env pr =
     bindC (draw (e_now env)) (\<lambda>now.
     liftC (decode_bolt11 (e_hex env) (e_bolt11 env) (max 0 (instant now)) pr))"

end
