(* ===== verification/App_Effects.thy ===== *)
theory App_Effects
  imports App_World
begin

text \<open>
  A small program logic for the coordinator's operations, over the ghost trace of the world.
  \<open>emits m Q\<close>: every run of \<open>m\<close> extends the trace by effects \<open>t\<close> with \<open>Q\<close> of the result and \<open>t\<close>.
  \<open>writes m Q\<close>: \<open>m\<close> is a transaction body, it leaves the trace alone, and on success it has added
  writes \<open>ws\<close> with \<open>Q\<close> of the value and \<open>ws\<close>. The rules are weakest-precondition style, so that
  \<open>intro\<close> with the collections \<open>emits_rules\<close> and \<open>writes_rules\<close> runs an operation symbolically.
\<close>

named_theorems emits_rules "backward rules for effects of operations"
named_theorems writes_rules "backward rules for writes of transaction bodies"
named_theorems all_rules "rules for effects that all satisfy a predicate"

definition emits :: "('s world, 'e, 'a) cmd \<Rightarrow> ('e + 'a \<Rightarrow> effect list \<Rightarrow> bool) \<Rightarrow> bool" where
  "emits m Q \<longleftrightarrow> (\<forall>w r w'. m w = (r, w') \<longrightarrow> (\<exists>t. w_trace w' = w_trace w @ t \<and> Q r t))"

definition writes :: "('s world, 'e, 'a) cmd \<Rightarrow> ('a \<Rightarrow> db_write list \<Rightarrow> bool) \<Rightarrow> bool" where
  "writes m Q \<longleftrightarrow> (\<forall>w r w'. m w = (r, w') \<longrightarrow> w_trace w' = w_trace w \<and>
     (\<forall>x. r = Inr x \<longrightarrow> (\<exists>ws. w_pending w' = w_pending w @ ws \<and> Q x ws)))"

section \<open>Rules for effects\<close>

lemma emitsI:
  "(\<And>w r w'. m w = (r, w') \<Longrightarrow> \<exists>t. w_trace w' = w_trace w @ t \<and> Q r t) \<Longrightarrow> emits m Q"
  by (auto simp: emits_def)

lemma emitsE:
  assumes "emits m Q" "m w = (r, w')"
  obtains t where "w_trace w' = w_trace w @ t" "Q r t"
  using assms unfolding emits_def by blast

lemma emits_mono: "emits m P \<Longrightarrow> (\<And>r t. P r t \<Longrightarrow> Q r t) \<Longrightarrow> emits m Q"
  unfolding emits_def by blast

lemma emits_conj: "emits m P \<Longrightarrow> emits m Q \<Longrightarrow> emits m (\<lambda>r t. P r t \<and> Q r t)"
  unfolding emits_def by (intro allI impI) (metis same_append_eq)

lemma world_simps [simp]:
  "w_trace (tick w) = w_trace w" "w_pending (tick w) = w_pending w" "w_db (tick w) = w_db w"
  "w_trace (emit x w) = w_trace w @ [x]" "w_pending (emit x w) = w_pending w" "w_db (emit x w) = w_db w"
  "w_trace (interfere env w) = w_trace w" "w_pending (interfere env w) = w_pending w"
  "w_trace (set_es s w) = w_trace w" "w_pending (set_es s w) = w_pending w"
  "w_trace (log_write y w) = w_trace w" "w_pending (log_write y w) = w_pending w @ [y]"
  "w_step (tick w) = Suc (w_step w)" "w_step (emit x w) = w_step w"
  by (simp_all add: tick_def emit_def interfere_def set_es_def log_write_def)

lemma emits_ret [emits_rules]: "Q (Inr x) [] \<Longrightarrow> emits (retC x) Q"
  by (simp add: emits_def)

lemma emits_throw [emits_rules]: "Q (Inl e) [] \<Longrightarrow> emits (throwC e) Q"
  by (simp add: emits_def)

lemma emits_lift [emits_rules]: "Q x [] \<Longrightarrow> emits (liftC x) Q"
  by (simp add: emits_def)

lemma emits_draw [emits_rules]: "(\<And>n. Q (Inr (f n)) []) \<Longrightarrow> emits (draw f) Q"
  by (simp add: emits_def draw_def)

lemma emits_call [emits_rules]: "(\<And>n. Q (f n) [eff (f n)]) \<Longrightarrow> emits (call f eff) Q"
  by (simp add: emits_def call_def Let_def)

lemma emits_query [emits_rules]:
  "(\<And>msg. Q (Inl (infra msg)) []) \<Longrightarrow> (\<And>s. Q (f s) []) \<Longrightarrow> emits (query env infra f) Q"
  by (simp add: emits_def query_def Let_def split: option.split)

lemma emits_mapErr [emits_rules]: "emits m (\<lambda>r t. Q (map_err g r) t) \<Longrightarrow> emits (mapErrC g m) Q"
  unfolding emits_def mapErrC_def by (simp add: case_prod_beta)

lemma emits_bind [emits_rules]:
  assumes "emits m (\<lambda>r t. case r of Inl e \<Rightarrow> Q (Inl e) t | Inr x \<Rightarrow> emits (f x) (\<lambda>r' t'. Q r' (t @ t')))"
  shows "emits (bindC m f) Q"
proof (rule emitsI)
  fix w r w' assume run: "bindC m f w = (r, w')"
  obtain r1 w1 where m: "m w = (r1, w1)" by fastforce
  from emitsE [OF assms m] obtain t where t: "w_trace w1 = w_trace w @ t"
    "case r1 of Inl e \<Rightarrow> Q (Inl e) t | Inr x \<Rightarrow> emits (f x) (\<lambda>r' t'. Q r' (t @ t'))" .
  show "\<exists>t. w_trace w' = w_trace w @ t \<and> Q r t"
  proof (cases r1)
    case (Inl e)
    with run m t show ?thesis by (auto simp: bindC_def)
  next
    case (Inr x)
    with run m have "f x w1 = (r, w')" by (simp add: bindC_def)
    moreover have "emits (f x) (\<lambda>r' t'. Q r' (t @ t'))" using t(2) Inr by simp
    ultimately obtain t' where "w_trace w' = w_trace w1 @ t'" "Q r (t @ t')"
      by (auto elim: emitsE)
    with t(1) show ?thesis by auto
  qed
qed

lemma emits_match [emits_rules]:
  assumes "emits m (\<lambda>r t. case r of Inl e \<Rightarrow> emits (g e) (\<lambda>r' t'. Q r' (t @ t'))
    | Inr x \<Rightarrow> emits (f x) (\<lambda>r' t'. Q r' (t @ t')))"
  shows "emits (matchC m g f) Q"
proof (rule emitsI)
  fix w r w' assume run: "matchC m g f w = (r, w')"
  obtain r1 w1 where m: "m w = (r1, w1)" by fastforce
  from emitsE [OF assms m] obtain t where t: "w_trace w1 = w_trace w @ t"
    "case r1 of Inl e \<Rightarrow> emits (g e) (\<lambda>r' t'. Q r' (t @ t'))
     | Inr x \<Rightarrow> emits (f x) (\<lambda>r' t'. Q r' (t @ t'))" .
  define k where "k = (case r1 of Inl e \<Rightarrow> g e | Inr x \<Rightarrow> f x)"
  have "k w1 = (r, w')"
    using run m by (simp add: k_def matchC_def split: sum.splits)
  moreover have "emits k (\<lambda>r' t'. Q r' (t @ t'))"
    using t(2) by (simp add: k_def split: sum.splits)
  ultimately obtain t' where "w_trace w' = w_trace w1 @ t'" "Q r (t @ t')"
    by (auto elim: emitsE)
  with t(1) show "\<exists>t. w_trace w' = w_trace w @ t \<and> Q r t" by auto
qed

lemma emits_tx:
  assumes "writes body P" "\<And>e. Q (Inl e) []" "\<And>x ws. P x ws \<Longrightarrow> Q (Inr x) [ECommit ws]"
    and "\<And>x ws e. P x ws \<Longrightarrow> Q (Inl e) [ECommit ws]"
  shows "emits (in_tx env infra body) Q"
proof (rule emitsI)
  fix w r w' assume run: "in_tx env infra body w = (r, w')"
  show "\<exists>t. w_trace w' = w_trace w @ t \<and> Q r t"
  proof (cases "e_begin_fail env (w_step w)")
    case (Some msg)
    with run assms(2) show ?thesis by (auto simp: in_tx_def)
  next
    case None
    define w0 where "w0 = tick ((interfere env w)\<lparr>w_pending := []\<rparr>)"
    obtain r1 w1 where b: "body w0 = (r1, w1)" by fastforce
    have w0: "w_trace w0 = w_trace w" "w_pending w0 = []" by (simp_all add: w0_def)
    have tr: "w_trace w1 = w_trace w"
      using assms(1) b w0 unfolding writes_def by metis
    note run' = run [unfolded in_tx_def None option.case Let_def, folded w0_def, unfolded b]
    show ?thesis
    proof (cases r1)
      case (Inl e)
      with run' tr assms(2) show ?thesis by auto
    next
      case (Inr x)
      with assms(1) b w0 have "P x (w_pending w1)"
        unfolding writes_def by (metis append_Nil)
      with Inr run' tr assms(2-4) show ?thesis
        by (auto split: commit_result.splits)
    qed
  qed
qed

section \<open>Rules for writes\<close>

lemma writes_mono: "writes m P \<Longrightarrow> (\<And>x ws. P x ws \<Longrightarrow> Q x ws) \<Longrightarrow> writes m Q"
  unfolding writes_def by blast

lemma writes_ret [writes_rules]: "Q x [] \<Longrightarrow> writes (retC x) Q"
  by (simp add: writes_def)

lemma writes_throw [writes_rules]: "writes (throwC e) Q"
  by (simp add: writes_def)

lemma writes_draw [writes_rules]: "(\<And>n. Q (f n) []) \<Longrightarrow> writes (draw f) Q"
  by (simp add: writes_def draw_def)

lemma writes_mapErr [writes_rules]: "writes m Q \<Longrightarrow> writes (mapErrC g m) Q"
  unfolding writes_def mapErrC_def by (simp add: case_prod_beta) (metis prod.collapse)

lemma writes_stmt [writes_rules]:
  "(\<And>s x s'. f s = Inr (x, s') \<Longrightarrow> Q x [wr x]) \<Longrightarrow> writes (stmt env infra f wr) Q"
  by (auto simp: writes_def stmt_def split: option.splits sum.splits)

lemma writes_publish [writes_rules]: "(\<And>n. Q n [WPublish ev]) \<Longrightarrow> writes (publish_in_tx env ev) Q"
  by (auto simp: writes_def publish_in_tx_def Let_def split: option.splits)

lemma writes_bind [writes_rules]:
  assumes "writes m (\<lambda>x ws. writes (f x) (\<lambda>y ws'. Q y (ws @ ws')))"
    and "\<And>x. writes (f x) (\<lambda>_ _. True)"
  shows "writes (bindC m f) Q"
  unfolding writes_def
proof (intro allI impI)
  fix w r w' assume run: "bindC m f w = (r, w')"
  obtain r1 w1 where m: "m w = (r1, w1)" by fastforce
  have tr: "w_trace w1 = w_trace w" using assms(1) m unfolding writes_def by metis
  show "w_trace w' = w_trace w \<and> (\<forall>x. r = Inr x \<longrightarrow> (\<exists>ws. w_pending w' = w_pending w @ ws \<and> Q x ws))"
  proof (cases r1)
    case (Inl e)
    with run m tr show ?thesis by (auto simp: bindC_def)
  next
    case (Inr x)
    then obtain ws where ws: "w_pending w1 = w_pending w @ ws" "writes (f x) (\<lambda>y ws'. Q y (ws @ ws'))"
      using assms(1) m unfolding writes_def by blast
    have f: "f x w1 = (r, w')" using run m Inr by (simp add: bindC_def)
    have "w_trace w' = w_trace w1" using assms(2) [of x] f unfolding writes_def by metis
    moreover have "\<forall>y. r = Inr y \<longrightarrow> (\<exists>ws'. w_pending w' = w_pending w1 @ ws' \<and> Q y (ws @ ws'))"
      using ws(2) f unfolding writes_def by blast
    ultimately show ?thesis using tr ws(1) by fastforce
  qed
qed

text \<open>The statements and calls of the coordinator.\<close>

lemmas stmt_defs = create_payment_in_op_def update_payment_in_op_def create_invoice_in_op_def
  update_invoice_in_op_def

lemmas query_defs = find_invoice_def maybe_find_invoice_def find_payment_def

lemmas call_defs = check_wallet_ownership_def symphony_authorize_spend_def lnd_send_payment_def
  lnd_cancel_invoice_def lnd_settle_invoice_def lnd_lookup_invoice_def lnd_add_hold_invoice_def
  lnd_fee_probe_def

section \<open>Effects that all satisfy a predicate\<close>

definition emits_all :: "(effect \<Rightarrow> bool) \<Rightarrow> ('s world, 'e, 'a) cmd \<Rightarrow> bool" where
  "emits_all p m \<longleftrightarrow> emits m (\<lambda>_ t. list_all p t)"

lemma emits_allD: "emits_all p m \<Longrightarrow> m w = (r, w') \<Longrightarrow> \<exists>t. w_trace w' = w_trace w @ t \<and> list_all p t"
  by (auto simp: emits_all_def emits_def)

lemma all_ret [all_rules]: "emits_all p (retC x)"
  and all_throw [all_rules]: "emits_all p (throwC e)"
  and all_lift [all_rules]: "emits_all p (liftC r)"
  and all_draw [all_rules]: "emits_all p (draw f)"
  and all_query [all_rules]: "emits_all p (query env infra g)"
  by (auto simp: emits_all_def intro!: emits_rules)

lemma all_call [all_rules]: "(\<And>r. p (eff r)) \<Longrightarrow> emits_all p (call f eff)"
  by (auto simp: emits_all_def intro!: emits_rules)

lemma all_mapErr [all_rules]: "emits_all p m \<Longrightarrow> emits_all p (mapErrC g m)"
  by (auto simp: emits_all_def intro!: emits_rules)

lemma all_bind [all_rules]:
  assumes "emits_all p m" "\<And>x. emits_all p (f x)"
  shows "emits_all p (bindC m f)"
  unfolding emits_all_def
proof (rule emits_bind, rule emits_mono [OF assms(1) [unfolded emits_all_def]])
  fix r t assume t: "list_all p t"
  have "emits (f x) (\<lambda>r' t'. list_all p (t @ t'))" for x
    using assms(2) [of x] t by (auto simp: emits_all_def elim: emits_mono)
  with t show "case r of Inl e \<Rightarrow> list_all p t | Inr x \<Rightarrow> emits (f x) (\<lambda>r' t'. list_all p (t @ t'))"
    by (simp split: sum.split)
qed

lemma all_match [all_rules]:
  assumes "emits_all p m" "\<And>e. emits_all p (g e)" "\<And>x. emits_all p (f x)"
  shows "emits_all p (matchC m g f)"
  unfolding emits_all_def
proof (rule emits_match, rule emits_mono [OF assms(1) [unfolded emits_all_def]])
  fix r t assume t: "list_all p t"
  have "emits (f x) (\<lambda>r' t'. list_all p (t @ t'))" "emits (g e) (\<lambda>r' t'. list_all p (t @ t'))" for x e
    using assms(2) [of e] assms(3) [of x] t by (auto simp: emits_all_def elim: emits_mono)
  then show "case r of Inl e \<Rightarrow> emits (g e) (\<lambda>r' t'. list_all p (t @ t'))
      | Inr x \<Rightarrow> emits (f x) (\<lambda>r' t'. list_all p (t @ t'))"
    by (simp split: sum.split)
qed

lemma all_tx:
  assumes "writes body (\<lambda>_ ws. p (ECommit ws))"
  shows "emits_all p (in_tx env infra body)"
  unfolding emits_all_def by (rule emits_tx [OF assms]) simp_all

end
