(* ===== verification/Db_Logic.thy ===== *)
theory Db_Logic
  imports App_Effects
begin

text \<open>
  A program logic for invariants of the database, beside the one for effects. \<open>keeps I m Q\<close>: from a
  committed database with \<open>I\<close>, every run of \<open>m\<close> ends in one with \<open>I\<close> whether it succeeds or fails, and
  on success its value satisfies \<open>Q\<close>. What other tasks do is only assumed to keep \<open>I\<close> (\<open>stable\<close>).
  \<open>body_ok n m R d\<close> is the weakest precondition of a transaction body at the database \<open>d\<close>: on success \<open>R\<close>
  holds of the value and the database it would commit; on failure no sequence number was drawn, the
  counter still being \<open>n\<close>. The rules of both run an operation backwards with \<open>intro\<close>.
\<close>

named_theorems keeps_rules "backward rules for database invariants"
named_theorems body_rules "backward rules for transaction bodies"

definition keeps :: "('s db \<Rightarrow> bool) \<Rightarrow> ('s world, 'e, 'a) cmd \<Rightarrow> ('a \<Rightarrow> bool) \<Rightarrow> bool" where
  "keeps I m Q \<longleftrightarrow> (\<forall>w r w'. I (w_db w) \<longrightarrow> m w = (r, w') \<longrightarrow> I (w_db w') \<and> (\<forall>x. r = Inr x \<longrightarrow> Q x))"

text \<open>The same with the database the value was obtained in.\<close>

definition keeps_to :: "('s db \<Rightarrow> bool) \<Rightarrow> ('s world, 'e, 'a) cmd \<Rightarrow> ('a \<Rightarrow> 's db \<Rightarrow> bool) \<Rightarrow> bool" where
  "keeps_to I m Q \<longleftrightarrow> (\<forall>w r w'. I (w_db w) \<longrightarrow> m w = (r, w') \<longrightarrow> I (w_db w') \<and> (\<forall>x. r = Inr x \<longrightarrow> Q x (w_db w')))"

definition stable :: "('s db \<Rightarrow> bool) \<Rightarrow> ('ie, 'pe, 's) env \<Rightarrow> bool" where
  "stable I env \<longleftrightarrow> (\<forall>n d. I d \<longrightarrow> I (e_others env n d))"

definition body_ok :: "i64 \<Rightarrow> ('s world, 'e, 'a) cmd \<Rightarrow> ('a \<Rightarrow> 's db \<Rightarrow> bool) \<Rightarrow> 's db \<Rightarrow> bool" where
  "body_ok n m R d \<longleftrightarrow> (\<forall>w. w_db w = d \<longrightarrow>
     (\<forall>w'. (\<forall>e. m w = (Inl e, w') \<longrightarrow> db_nextval (w_db w') = n) \<and> (\<forall>x. m w = (Inr x, w') \<longrightarrow> R x (w_db w'))))"

lemma keepsE: "keeps I m Q \<Longrightarrow> I (w_db w) \<Longrightarrow> m w = (r, w') \<Longrightarrow> I (w_db w') \<and> (\<forall>x. r = Inr x \<longrightarrow> Q x)"
  unfolding keeps_def by blast

lemma body_okI:
  "(\<And>w e w'. w_db w = d \<Longrightarrow> m w = (Inl e, w') \<Longrightarrow> db_nextval (w_db w') = n) \<Longrightarrow>
   (\<And>w x w'. w_db w = d \<Longrightarrow> m w = (Inr x, w') \<Longrightarrow> R x (w_db w')) \<Longrightarrow> body_ok n m R d"
  by (simp add: body_ok_def)

lemma body_ok_Inl: "body_ok n m R d \<Longrightarrow> w_db w = d \<Longrightarrow> m w = (Inl e, w') \<Longrightarrow> db_nextval (w_db w') = n"
  by (simp add: body_ok_def)

lemma body_ok_Inr: "body_ok n m R d \<Longrightarrow> w_db w = d \<Longrightarrow> m w = (Inr x, w') \<Longrightarrow> R x (w_db w')"
  by (simp add: body_ok_def)

lemma keepsD: "keeps I m Q \<Longrightarrow> I (w_db w) \<Longrightarrow> I (w_db (snd (m w)))"
  unfolding keeps_def by (metis prod.collapse)

lemma db_simps [simp]:
  "w_db (interfere env w) = e_others env (w_step w) (w_db w)"
  "w_db (log_write x w) = w_db w" "w_db (set_es s w) = (w_db w)\<lparr>db_es := s\<rparr>"
  by (simp_all add: interfere_def log_write_def set_es_def)

section \<open>Transaction bodies\<close>

lemma body_ret [body_rules]: "R x d \<Longrightarrow> body_ok n (retC x) R d"
  by (simp add: body_ok_def)

lemma body_throw [body_rules]: "db_nextval d = n \<Longrightarrow> body_ok n (throwC e) R d"
  by (simp add: body_ok_def)

lemma body_draw [body_rules]: "(\<And>k. R (f k) d) \<Longrightarrow> body_ok n (draw f) R d"
  by (simp add: body_ok_def draw_def)

lemma body_mapErr [body_rules]: "body_ok n m R d \<Longrightarrow> body_ok n (mapErrC g m) R d"
  unfolding body_ok_def mapErrC_def map_err_def by (simp split: prod.split sum.split)

lemma body_stmt [body_rules]:
  "db_nextval d = n \<Longrightarrow> (\<And>x s. f (db_es d) = Inr (x, s) \<Longrightarrow> R x (d\<lparr>db_es := s\<rparr>)) \<Longrightarrow>
   body_ok n (stmt env infra f wr) R d"
  by (auto simp: body_ok_def stmt_def split: option.splits sum.splits)

lemma body_publish [body_rules]:
  "db_nextval d = n \<Longrightarrow>
   (0 < sint n \<Longrightarrow> R n (d\<lparr>db_outbox := db_outbox d @ [publish_row n ev], db_nextval := n + 1\<rparr>)) \<Longrightarrow>
   body_ok n (publish_in_tx env ev) R d"
  by (auto simp: body_ok_def publish_in_tx_def Let_def split: option.splits)

lemma body_bind [body_rules]:
  "body_ok n m (\<lambda>x. body_ok n (f x) R) d \<Longrightarrow> body_ok n (bindC m f) R d"
  by (rule body_okI)
    (auto simp: bindC_def dest: body_ok_Inl body_ok_Inr split: prod.splits sum.splits)

section \<open>Operations\<close>

lemma keeps_mono: "keeps I m P \<Longrightarrow> (\<And>x. P x \<Longrightarrow> Q x) \<Longrightarrow> keeps I m Q"
  unfolding keeps_def by blast

lemma keeps_ret [keeps_rules]: "Q x \<Longrightarrow> keeps I (retC x) Q"
  by (simp add: keeps_def)

lemma keeps_throw [keeps_rules]: "keeps I (throwC e) Q"
  by (simp add: keeps_def)

lemma keeps_lift [keeps_rules]: "(\<And>x. r = Inr x \<Longrightarrow> Q x) \<Longrightarrow> keeps I (liftC r) Q"
  by (simp add: keeps_def)

lemma keeps_draw [keeps_rules]: "(\<And>n. Q (f n)) \<Longrightarrow> keeps I (draw f) Q"
  by (simp add: keeps_def draw_def)

lemma keeps_call [keeps_rules]: "(\<And>n x. f n = Inr x \<Longrightarrow> Q x) \<Longrightarrow> keeps I (call f eff) Q"
  by (auto simp: keeps_def call_def Let_def)

lemma keeps_query [keeps_rules]:
  "stable I env \<Longrightarrow> (\<And>d x. I d \<Longrightarrow> f (db_es d) = Inr x \<Longrightarrow> Q x) \<Longrightarrow> keeps I (query env infra f) Q"
  by (auto simp: keeps_def query_def Let_def stable_def split: option.splits)

lemma keeps_mapErr [keeps_rules]: "keeps I m Q \<Longrightarrow> keeps I (mapErrC g m) Q"
  unfolding keeps_def mapErrC_def map_err_def by (auto split: prod.splits sum.splits)

lemma keeps_match [keeps_rules]:
  assumes m: "keeps I m (\<lambda>x. keeps I (f x) Q)" and g: "\<And>e. keeps I (g e) Q"
  shows "keeps I (matchC m g f) Q"
  unfolding keeps_def
proof (intro allI impI)
  fix w r w' assume I: "I (w_db w)" and run: "matchC m g f w = (r, w')"
  obtain r1 w1 where b: "m w = (r1, w1)" by fastforce
  define k where "k = (case r1 of Inl e \<Rightarrow> g e | Inr x \<Rightarrow> f x)"
  have "keeps I k Q" "I (w_db w1)"
    using keepsE [OF m I b] g by (auto simp: k_def split: sum.split)
  moreover have "k w1 = (r, w')" using run b by (simp add: k_def matchC_def split: sum.splits)
  ultimately show "I (w_db w') \<and> (\<forall>x. r = Inr x \<longrightarrow> Q x)" by (rule keepsE)
qed

lemma bindC_matchC: "bindC m f = matchC m throwC f"
  by (rule ext) (simp add: bindC_def matchC_def split: prod.split sum.split)

lemma keeps_bind [keeps_rules]: "keeps I m (\<lambda>x. keeps I (f x) Q) \<Longrightarrow> keeps I (bindC m f) Q"
  unfolding bindC_matchC by (rule keeps_match [OF _ keeps_throw])

lemma keeps_to_tx:
  assumes st: "stable I env"
    and body: "\<And>d. I d \<Longrightarrow> body_ok (db_nextval d) body (\<lambda>x d'. I d' \<and> I (rollback d d') \<and> Q x d') d"
  shows "keeps_to I (in_tx env infra body) Q"
  unfolding keeps_to_def
proof (intro allI impI)
  fix w r w' assume I: "I (w_db w)" and run: "in_tx env infra body w = (r, w')"
  show "I (w_db w') \<and> (\<forall>x. r = Inr x \<longrightarrow> Q x (w_db w'))"
  proof (cases "e_begin_fail env (w_step w)")
    case (Some msg)
    with run I show ?thesis by (auto simp: in_tx_def)
  next
    case None
    define w0 where "w0 = tick ((interfere env w)\<lparr>w_pending := []\<rparr>)"
    obtain r1 w1 where b: "body w0 = (r1, w1)" by fastforce
    have "w_db w0 = e_others env (w_step w) (w_db w)" by (simp add: w0_def interfere_def)
    with I st have I0: "I (w_db w0)" by (simp add: stable_def)
    note run' = run [unfolded in_tx_def None option.case Let_def, folded w0_def, unfolded b]
    show ?thesis
    proof (cases r1)
      case (Inl e)
      then have "rollback (w_db w0) (w_db w1) = w_db w0"
        using body_ok_Inl [OF body [OF I0] refl] b by (simp add: rollback_def)
      with Inl run' I0 show ?thesis by auto
    next
      case (Inr x)
      then have "I (w_db w1)" "I (rollback (w_db w0) (w_db w1))" "Q x (w_db w1)"
        using body_ok_Inr [OF body [OF I0] refl] b by simp_all
      with Inr run' show ?thesis by (auto split: commit_result.splits)
    qed
  qed
qed

lemma keeps_tx:
  assumes "stable I env"
    and "\<And>d. I d \<Longrightarrow> body_ok (db_nextval d) body (\<lambda>x d'. I d' \<and> I (rollback d d') \<and> Q x) d"
  shows "keeps I (in_tx env infra body) Q"
  using keeps_to_tx [where Q = "\<lambda>x _. Q x", OF assms] by (simp add: keeps_def keeps_to_def)

end
