(* ===== verification/Repositories.thy ===== *)
theory Repositories
  imports App_World
begin

text \<open>
  The contract of the generated repositories, as the locale \<open>gateway_repos\<close>: what is loaded or
  created is an entity in a state its event log justifies, an update returns the entity it
  persisted, and the \<open>payment_hash\<close> column of \<open>payments\<close> is unique. The contract is interpreted on
  a store built from the migrations: two event logs per entity id, the unique keys of the two
  tables, and optimistic concurrency on the length of the log.
\<close>

section \<open>The contract\<close>

locale gateway_repos =
  fixes ies :: "('ie, invoice_id, invoice_event) es_crate"
    and pes :: "('pe, payment_id, payment_event) es_crate"
    and repos :: "('ie, 'pe, 's) es_repos"
  assumes ies_laws: "es_events ies"
    and pes_laws: "es_events pes"
    and found_invoice:
      "find_invoice_by_payment_hash repos s h = Inr i \<Longrightarrow> invoice_reachable ies i \<and> inv_payment_hash i = h"
    and found_payment:
      "find_payment_by_payment_hash repos s h = Inr p \<Longrightarrow> payment_reachable pes p \<and> pay_payment_hash p = h"
    and created_invoice:
      "create_invoice_row repos s m = Inr (i, s') \<Longrightarrow>
         invoice_reachable ies i \<and> inv_state i = Open \<and> inv_payment_hash i = ni_payment_hash m \<and>
         inv_amount_msat i = ni_amount_msat m \<and> inv_bolt_invoice i = ni_bolt_invoice m"
    and created_payment:
      "create_payment_row repos s n = Inr (p, s') \<Longrightarrow>
         payment_reachable pes p \<and> pay_state p = Initiated \<and> pay_id p = np_id n"
    and updated_payment:
      "update_payment_row repos s p = Inr (p', s') \<Longrightarrow> payment_reachable pes p \<Longrightarrow>
         payment_reachable pes p' \<and> pay_state p' = pay_state p"
    and unique_payment_hash:
      "find_payment_by_payment_hash repos s (np_payment_hash n) = Inr p \<Longrightarrow>
         \<exists>v. create_payment_row repos s n = Inl (PaymentConstraintViolation (Some PaymentColumn_PaymentHash) v)"
begin

lemma created_not_settled:
  assumes "create_payment_row repos s n = Inr (p, s')"
  shows "\<not> already_applied pes is_Completed (pay_events p) \<and> \<not> already_applied pes is_Failed (pay_events p)"
proof -
  note c = created_payment [OF assms]
  have "pay_log (ee_iter_all pes (pay_events p)) (pay_state p)"
    by (rule payment_container.payment_reachable_log [OF payment_container.intro [OF pes_laws]]) (use c in simp)
  from pay_log_counts [OF this] c show ?thesis
    by (simp add: already_applied_count)
qed

lemma found_open_not_settled:
  assumes "find_invoice_by_payment_hash repos s h = Inr i" "inv_state i = Open"
  shows "\<not> already_applied ies is_SettledIntraledger (inv_events i)"
proof -
  have "inv_log (ee_iter_all ies (inv_events i)) (inv_state i)"
    by (rule invoice_container.reachable_log [OF invoice_container.intro [OF ies_laws]])
      (use found_invoice [OF assms(1)] in simp)
  from inv_log_shape [OF this] assms(2) show ?thesis
    by (simp add: already_applied_inv)
qed

lemma found_held_has_amount:
  assumes "find_invoice_by_payment_hash repos s h = Inr i" "inv_state i = Held"
  shows "inv_held_amount_msat i \<noteq> None"
  using invoice_container.held_has_amount [OF invoice_container.intro [OF ies_laws]] found_invoice [OF assms(1)]
    assms(2) by blast

end

section \<open>A reference store\<close>

record ref_store =
  rs_invoices :: "(invoice_id \<times> invoice_event list) list"
  rs_payments :: "(payment_id \<times> payment_event list) list"

type_synonym ref_ie = "(invoice_id, invoice_event) entity_events"
type_synonym ref_pe = "(payment_id, payment_event) entity_events"

text \<open>Validity of a log, as a computation.\<close>

fun inv_run :: "invoice_state \<Rightarrow> invoice_event list \<Rightarrow> invoice_state option" where
  "inv_run s [] = Some s"
| "inv_run s (ev # evs) = (case inv_next s ev of None \<Rightarrow> None | Some s' \<Rightarrow> inv_run s' evs)"

fun pay_run :: "payment_state \<Rightarrow> payment_event list \<Rightarrow> payment_state option" where
  "pay_run s [] = Some s"
| "pay_run s (ev # evs) = (case pay_next s ev of None \<Rightarrow> None | Some s' \<Rightarrow> pay_run s' evs)"

fun inv_valid :: "invoice_event list \<Rightarrow> bool" where
  "inv_valid (EvCreated _ _ _ _ _ _ _ _ # evs) = (inv_run Open evs \<noteq> None)"
| "inv_valid _ = False"

fun pay_valid :: "payment_event list \<Rightarrow> bool" where
  "pay_valid (EvInitiated _ _ _ _ _ _ _ # evs) = (pay_run Initiated evs \<noteq> None)"
| "pay_valid _ = False"

definition stored :: "'id \<times> 'ev list \<Rightarrow> ('id, 'ev) entity_events" where
  "stored x = \<lparr>entity_id = fst x, persisted_events = snd x, new_events = []\<rparr>"

definition load_invoice :: "invoice_id \<times> invoice_event list \<Rightarrow> ref_ie invoice option" where
  "load_invoice x = (if inv_valid (snd x) then ok (invoice_try_from_events ref_es (stored x)) else None)"

definition load_payment :: "payment_id \<times> payment_event list \<Rightarrow> ref_pe payment option" where
  "load_payment x = (if pay_valid (snd x) then ok (payment_try_from_events ref_es (stored x)) else None)"

definition ref_find_invoice :: "ref_store \<Rightarrow> payment_hash \<Rightarrow> es_find_error + ref_ie invoice" where
  "ref_find_invoice s h =
     ok_or (find (\<lambda>i. inv_payment_hash i = h) (List.map_filter load_invoice (rs_invoices s))) EsNotFound"

definition ref_find_invoice_by_id :: "ref_store \<Rightarrow> invoice_id \<Rightarrow> es_find_error + ref_ie invoice" where
  "ref_find_invoice_by_id s i =
     ok_or (find (\<lambda>x. inv_id x = i) (List.map_filter load_invoice (rs_invoices s))) EsNotFound"

definition ref_find_payment :: "ref_store \<Rightarrow> payment_hash \<Rightarrow> es_find_error + ref_pe payment" where
  "ref_find_payment s h =
     ok_or (find (\<lambda>p. pay_payment_hash p = h) (List.map_filter load_payment (rs_payments s))) EsNotFound"

definition ref_create_invoice ::
  "ref_store \<Rightarrow> new_invoice \<Rightarrow> invoice_create_error + (ref_ie invoice \<times> ref_store)" where
  "ref_create_invoice s n =
     (let x = (ni_id n, new_events (new_invoice_into_events ref_es n));
          is = List.map_filter load_invoice (rs_invoices s) in
      if \<exists>i \<in> set is. inv_payment_hash i = ni_payment_hash n
      then Inl (InvoiceConstraintViolation (Some InvoiceColumn_PaymentHash) None)
      else if \<exists>i \<in> set is. inv_wallet_id i = ni_wallet_id n \<and> inv_external_id i = ni_external_id n
      then Inl (InvoiceConstraintViolation (Some InvoiceColumn_ExternalId) (Some (ni_external_id n)))
      else (case load_invoice x of
              None \<Rightarrow> Inl (InvoiceCreateOther ''hydration'')
            | Some i \<Rightarrow> Inr (i, s\<lparr>rs_invoices := rs_invoices s @ [x]\<rparr>)))"

definition ref_create_payment ::
  "ref_store \<Rightarrow> new_payment \<Rightarrow> payment_create_error + (ref_pe payment \<times> ref_store)" where
  "ref_create_payment s n =
     (let x = (np_id n, new_events (new_payment_into_events ref_es n)) in
      if \<exists>p \<in> set (List.map_filter load_payment (rs_payments s)). pay_payment_hash p = np_payment_hash n
      then Inl (PaymentConstraintViolation (Some PaymentColumn_PaymentHash) None)
      else (case load_payment x of
              None \<Rightarrow> Inl (PaymentCreateOther ''hydration'')
            | Some p \<Rightarrow> Inr (p, s\<lparr>rs_payments := rs_payments s @ [x]\<rparr>)))"

text \<open>The primary key \<open>(id, sequence)\<close> of the event tables: an update based on a stale log is a
  concurrent modification.\<close>

definition ref_update_log ::
  "('id, 'ev) entity_events \<Rightarrow> ('id \<times> 'ev list) list \<Rightarrow> ('id \<times> 'ev list) list option" where
  "ref_update_log es xs =
     (if (entity_id es, persisted_events es) \<in> set xs
      then Some (map (\<lambda>x. if x = (entity_id es, persisted_events es)
                          then (entity_id es, persisted_events es @ new_events es) else x) xs)
      else None)"

definition persisted :: "('id, 'ev) entity_events \<Rightarrow> ('id, 'ev) entity_events" where
  "persisted es = es\<lparr>persisted_events := persisted_events es @ new_events es, new_events := []\<rparr>"

definition ref_update_invoice ::
  "ref_store \<Rightarrow> ref_ie invoice \<Rightarrow> es_modify_error + (ref_ie invoice \<times> ref_store)" where
  "ref_update_invoice s i =
     (case ref_update_log (inv_events i) (rs_invoices s) of
        None \<Rightarrow> Inl EsConcurrentModification
      | Some xs \<Rightarrow> Inr (i\<lparr>inv_events := persisted (inv_events i)\<rparr>, s\<lparr>rs_invoices := xs\<rparr>))"

definition ref_update_payment ::
  "ref_store \<Rightarrow> ref_pe payment \<Rightarrow> es_modify_error + (ref_pe payment \<times> ref_store)" where
  "ref_update_payment s p =
     (case ref_update_log (pay_events p) (rs_payments s) of
        None \<Rightarrow> Inl EsConcurrentModification
      | Some xs \<Rightarrow> Inr (p\<lparr>pay_events := persisted (pay_events p)\<rparr>, s\<lparr>rs_payments := xs\<rparr>))"

definition ref_repos :: "(ref_ie, ref_pe, ref_store) es_repos" where
  "ref_repos = \<lparr>
     find_invoice_by_id = ref_find_invoice_by_id,
     find_invoice_by_payment_hash = ref_find_invoice,
     create_invoice_row = ref_create_invoice,
     update_invoice_row = ref_update_invoice,
     find_payment_by_payment_hash = ref_find_payment,
     create_payment_row = ref_create_payment,
     update_payment_row = ref_update_payment,
     invoice_rows = (\<lambda>s. map (\<lambda>i. \<lparr>ir_id = inv_id i, ir_payment_hash = inv_payment_hash i,
       ir_state = invoice_state_str (inv_state i)\<rparr>) (List.map_filter load_invoice (rs_invoices s))),
     payment_rows = (\<lambda>s. map (\<lambda>p. \<lparr>pr_payment_hash = pay_payment_hash p,
       pr_state = payment_state_str (pay_state p), pr_created_at = pay_initiated_at p\<rparr>)
       (List.map_filter load_payment (rs_payments s)))\<rparr>"

section \<open>The reference store meets the contract\<close>

lemma inv_run_log: "inv_run s evs = Some s' \<Longrightarrow> inv_log pre s \<Longrightarrow> inv_log (pre @ evs) s'"
proof (induction evs arbitrary: s pre)
  case (Cons ev evs)
  then obtain s1 where "inv_next s ev = Some s1" "inv_run s1 evs = Some s'"
    by (auto split: option.splits)
  with Cons.IH [of s1 "pre @ [ev]"] Cons.prems(2) show ?case
    by (simp add: inv_log.event)
qed simp

lemma pay_run_log: "pay_run s evs = Some s' \<Longrightarrow> pay_log pre s \<Longrightarrow> pay_log (pre @ evs) s'"
proof (induction evs arbitrary: s pre)
  case (Cons ev evs)
  then obtain s1 where "pay_next s ev = Some s1" "pay_run s1 evs = Some s'"
    by (auto split: option.splits)
  with Cons.IH [of s1 "pre @ [ev]"] Cons.prems(2) show ?case
    by (simp add: pay_log.event)
qed simp

lemma inv_valid_log: "inv_valid evs \<Longrightarrow> \<exists>s. inv_log evs s"
proof (induction evs rule: inv_valid.induct)
  case (1 a b c d e f g h evs)
  then obtain s where "inv_run Open evs = Some s" by auto
  from inv_run_log [OF this inv_log.created] show ?case by (metis append_Cons append_Nil)
qed auto

lemma pay_valid_log: "pay_valid evs \<Longrightarrow> \<exists>s. pay_log evs s"
proof (induction evs rule: pay_valid.induct)
  case (1 a b c d e f g evs)
  then obtain s where "pay_run Initiated evs = Some s" by auto
  from pay_run_log [OF this pay_log.initiated] show ?case by (metis append_Cons append_Nil)
qed auto

lemma iter_stored [simp]: "ee_iter_all ref_es (stored x) = snd x"
  by (simp add: ref_es_def stored_def)

lemma load_invoice_reachable: "load_invoice x = Some i \<Longrightarrow> invoice_reachable ref_es i"
  using ref_invoice.hydrated_log_reachable [of "stored x"] inv_valid_log [of "snd x"]
  by (auto simp: load_invoice_def ok_def split: if_splits sum.splits)

lemma load_payment_reachable: "load_payment x = Some p \<Longrightarrow> payment_reachable ref_es p"
  using ref_payment.hydrated_pay_log_reachable [of "stored x"] pay_valid_log [of "snd x"]
  by (auto simp: load_payment_def ok_def split: if_splits sum.splits)

lemma map_filter_set: "set (List.map_filter f xs) = {y. \<exists>x \<in> set xs. f x = Some y}"
  by (auto simp: List.map_filter_def intro: rev_image_eqI)

lemma ref_find_invoice_sound:
  "ref_find_invoice s h = Inr i \<Longrightarrow> invoice_reachable ref_es i \<and> inv_payment_hash i = h"
  using load_invoice_reachable
  by (auto simp: ref_find_invoice_def ok_or_def find_Some_iff map_filter_set dest!: nth_mem split: option.splits)

lemma ref_find_payment_sound:
  assumes "ref_find_payment s h = Inr p"
  shows "payment_reachable ref_es p \<and> pay_payment_hash p = h \<and> p \<in> set (List.map_filter load_payment (rs_payments s))"
proof -
  have f: "find (\<lambda>p. pay_payment_hash p = h) (List.map_filter load_payment (rs_payments s)) = Some p"
    using assms by (simp add: ref_find_payment_def ok_or_def split: option.splits)
  then have "p \<in> set (List.map_filter load_payment (rs_payments s))" "pay_payment_hash p = h"
    by (auto simp: find_Some_iff)
  then show ?thesis
    using load_payment_reachable by (auto simp: map_filter_set)
qed

lemma update_payment_reachable:
  assumes "payment_reachable ref_es p"
  shows "payment_reachable ref_es (p\<lparr>pay_events := persisted (pay_events p)\<rparr>)"
proof (rule payment_reachable.reload [OF assms, where es = "persisted (pay_events p)"])
  show "ee_iter_all ref_es (persisted (pay_events p)) = ee_iter_all ref_es (pay_events p)"
    by (simp add: ref_es_def persisted_def)
  then show "payment_try_from_events ref_es (persisted (pay_events p)) =
      Inr (p\<lparr>pay_events := persisted (pay_events p)\<rparr>)"
    using ref_payment.payment_reachable_hydrates [OF assms]
    unfolding payment_hydrates_iff by (simp add: ref_es_def persisted_def)
qed

lemma load_fresh_payment:
  assumes "load_payment (np_id n, new_events (new_payment_into_events ref_es n)) = Some p"
  shows "pay_state p = Initiated" "pay_id p = np_id n"
  using assms
  by (auto simp: load_payment_def ok_def payment_hydrates_iff new_payment_into_events_def ref_es_def
      stored_def payment_builder_default_def split: if_splits sum.splits)

lemma load_fresh_invoice:
  assumes "load_invoice (ni_id n, new_events (new_invoice_into_events ref_es n)) = Some i"
  shows "inv_state i = Open" "inv_payment_hash i = ni_payment_hash n"
    "inv_amount_msat i = ni_amount_msat n" "inv_bolt_invoice i = ni_bolt_invoice n"
  using assms
  by (auto simp: load_invoice_def ok_def invoice_try_from_events_def invoice_build_def new_invoice_into_events_def
      ref_es_def stored_def invoice_builder_default_def bindR_Inr_iff split: if_splits sum.splits)

interpretation ref_gateway: gateway_repos ref_es ref_es ref_repos
proof
  fix s :: ref_store and h i
  assume "find_invoice_by_payment_hash ref_repos s h = Inr i"
  then show "invoice_reachable ref_es i \<and> inv_payment_hash i = h"
    using ref_find_invoice_sound by (simp add: ref_repos_def)
next
  fix s :: ref_store and h p
  assume "find_payment_by_payment_hash ref_repos s h = Inr p"
  then show "payment_reachable ref_es p \<and> pay_payment_hash p = h"
    using ref_find_payment_sound by (simp add: ref_repos_def)
next
  fix s s' :: ref_store and m i
  assume "create_invoice_row ref_repos s m = Inr (i, s')"
  then show "invoice_reachable ref_es i \<and> inv_state i = Open \<and> inv_payment_hash i = ni_payment_hash m \<and>
      inv_amount_msat i = ni_amount_msat m \<and> inv_bolt_invoice i = ni_bolt_invoice m"
    using load_invoice_reachable load_fresh_invoice
    by (auto simp: ref_repos_def ref_create_invoice_def Let_def split: if_splits option.splits)
next
  fix s s' :: ref_store and n p
  assume "create_payment_row ref_repos s n = Inr (p, s')"
  then show "payment_reachable ref_es p \<and> pay_state p = Initiated \<and> pay_id p = np_id n"
    using load_payment_reachable load_fresh_payment
    by (auto simp: ref_repos_def ref_create_payment_def Let_def split: if_splits option.splits)
next
  fix s s' :: ref_store and p p'
  assume "update_payment_row ref_repos s p = Inr (p', s')" "payment_reachable ref_es p"
  then show "payment_reachable ref_es p' \<and> pay_state p' = pay_state p"
    using update_payment_reachable by (auto simp: ref_repos_def ref_update_payment_def split: option.splits)
next
  fix s :: ref_store and n :: new_payment and p
  assume "find_payment_by_payment_hash ref_repos s (np_payment_hash n) = Inr p"
  then have "ref_find_payment s (np_payment_hash n) = Inr p" by (simp add: ref_repos_def)
  from ref_find_payment_sound [OF this]
  show "\<exists>v. create_payment_row ref_repos s n = Inl (PaymentConstraintViolation (Some PaymentColumn_PaymentHash) v)"
    by (auto simp: ref_repos_def ref_create_payment_def Let_def)
qed

section \<open>A reference environment\<close>

text \<open>A cooperative world around the reference store: the parsed invoice is always the same one,
  every check passes, the node pays at once, nothing fails and nobody interferes.\<close>

definition ref_bolt11 :: bolt11 where
  "ref_bolt11 = \<lparr>b11_payment_hash = replicate 32 7, b11_payee = None, b11_recovered_payee = replicate 33 2,
     b11_amount_msat = Some 25000, b11_would_expire = (\<lambda>_. False)\<rparr>"

definition ref_env :: "(ref_ie, ref_pe, ref_store) env" where
  "ref_env = \<lparr>
     e_mode = Live, e_hex = ref_hex, e_sha256 = (\<lambda>_. replicate 32 7), e_bolt11 = (\<lambda>_. Inr ref_bolt11),
     e_ies = ref_es, e_pes = ref_es, e_repos = ref_repos, e_wallet_str = (\<lambda>_. ''wallet''),
     e_show_symphony = (\<lambda>_. ''symphony''), e_show_decline = (\<lambda>_. ''decline''), e_show_lnd = (\<lambda>_. ''lnd''),
     e_now = (\<lambda>n. Timestamp (int n)), e_payment_id = (\<lambda>n. PaymentId (of_nat n)),
     e_invoice_id = (\<lambda>n. InvoiceId (of_nat n)), e_preimage = (\<lambda>_. Preimage (replicate 32 9)),
     e_ownership = (\<lambda>_ _ _. Inr ()),
     e_authorize = (\<lambda>_ _. Inr \<lparr>sre_status = Approved, sre_authorization_id = None, sre_decline_reason = None\<rparr>),
     e_lnd_add_hold = (\<lambda>_ _. Inr (BoltInvoice ''lnbc1'')), e_lnd_settle = (\<lambda>_ _. Inr ()),
     e_lnd_cancel = (\<lambda>_ _. Inr ()),
     e_lnd_lookup_invoice = (\<lambda>_ h. Inr \<lparr>iu_payment_hash = h, iu_state = LndAccepted,
       iu_amt_paid_msat = MilliSatoshi 25000, iu_payment_preimage = None\<rparr>),
     e_lnd_lookup_payment = (\<lambda>_ h. Some (Inr \<lparr>spr_payment_hash = h,
       spr_payment_preimage = Some (Preimage (replicate 32 9)), spr_status = Succeeded,
       spr_fees_paid_msat = MilliSatoshi 1000, spr_route_hops = [], spr_failure_reason = None\<rparr>)),
     e_lnd_send = (\<lambda>_ _. Inr \<lparr>spr_payment_hash = PaymentHash (replicate 32 7),
       spr_payment_preimage = Some (Preimage (replicate 32 9)), spr_status = Succeeded,
       spr_fees_paid_msat = MilliSatoshi 1000, spr_route_hops = [], spr_failure_reason = None\<rparr>),
     e_lnd_fee_probe = (\<lambda>_ _. Inr \<lparr>fpr_fee_msat = MilliSatoshi 1000, fpr_expiry_seconds = 40\<rparr>),
     e_others = (\<lambda>_ d. d), e_stmt_fail = (\<lambda>_. None), e_begin_fail = (\<lambda>_. None), e_commit = (\<lambda>_. CommitOk)\<rparr>"

definition ref_world :: "ref_store world" where
  "ref_world = \<lparr>w_db = \<lparr>db_es = \<lparr>rs_invoices = [], rs_payments = []\<rparr>, db_outbox = [], db_nextval = 1\<rparr>,
     w_pending = [], w_step = 0, w_trace = []\<rparr>"

end
