(* ===== verification/Entity_Store.thy ===== *)
theory Entity_Store
  imports Repositories
begin

text \<open>
  The event logs behind the repositories. The locale \<open>entity_store\<close> extends the contract of
  \<open>Repositories\<close> by what an insert and an update do to the stored logs: the log of a payment hash,
  and what an entity in memory has not saved yet. It is interpreted on the reference store, under
  the invariant that every stored log is a run of its automaton and no two share a hash.
\<close>

section \<open>Logs and their hash\<close>

fun log_payment_hash :: "payment_event list \<Rightarrow> payment_hash option" where
  "log_payment_hash (EvInitiated h _ _ _ _ _ _ # _) = Some h"
| "log_payment_hash _ = None"

fun log_invoice_hash :: "invoice_event list \<Rightarrow> payment_hash option" where
  "log_invoice_hash (EvCreated h _ _ _ _ _ _ _ # _) = Some h"
| "log_invoice_hash _ = None"

definition first_payment_event :: "new_payment \<Rightarrow> payment_event" where
  "first_payment_event n =
     EvInitiated (np_payment_hash n) (np_wallet_id n) (np_amount_msat n) (np_max_fee_msat n)
       (np_bolt_invoice n) (np_destination n) (np_initiated_at n)"

definition first_invoice_event :: "new_invoice \<Rightarrow> invoice_event" where
  "first_invoice_event n =
     EvCreated (ni_payment_hash n) (ni_payment_preimage n) (ni_wallet_id n) (ni_amount_msat n) (ni_expiry_at n)
       (ni_bolt_invoice n) (ni_external_id n) (ni_created_at n)"

section \<open>The contract\<close>

locale entity_store = gateway_repos ies pes repos
  for ies :: "('ie, invoice_id, invoice_event) es_crate"
    and pes :: "('pe, payment_id, payment_event) es_crate"
    and repos :: "('ie, 'pe, 's) es_repos" +
  fixes store_ok :: "'s \<Rightarrow> bool"
    and plog :: "'s \<Rightarrow> payment_hash \<Rightarrow> payment_event list"
    and ilog :: "'s \<Rightarrow> payment_hash \<Rightarrow> invoice_event list"
    and punsaved :: "'pe \<Rightarrow> payment_event list"
    and iunsaved :: "'ie \<Rightarrow> invoice_event list"
  assumes punsaved_push: "punsaved (ee_push pes ev es) = punsaved es @ [ev]"
    and iunsaved_push: "iunsaved (ee_push ies iev ies') = iunsaved ies' @ [iev]"
    and loaded_payment: "find_payment_by_payment_hash repos s h = Inr p \<Longrightarrow> punsaved (pay_events p) = []"
    and loaded_invoice: "find_invoice_by_payment_hash repos s h = Inr i \<Longrightarrow> iunsaved (inv_events i) = []"
    and payment_inserted:
      "store_ok s \<Longrightarrow> create_payment_row repos s n = Inr (p, s') \<Longrightarrow>
         store_ok s' \<and> plog s (np_payment_hash n) = [] \<and>
         plog s' = (plog s)(np_payment_hash n := [first_payment_event n]) \<and> ilog s' = ilog s \<and>
         ee_iter_all pes (pay_events p) = [first_payment_event n] \<and> punsaved (pay_events p) = []"
    and payment_appended:
      "store_ok s \<Longrightarrow> payment_reachable pes p \<Longrightarrow> update_payment_row repos s p = Inr (p', s') \<Longrightarrow>
         store_ok s' \<and> ee_iter_all pes (pay_events p) = plog s (pay_payment_hash p) @ punsaved (pay_events p) \<and>
         plog s' = (plog s)(pay_payment_hash p := ee_iter_all pes (pay_events p)) \<and> ilog s' = ilog s \<and>
         ee_iter_all pes (pay_events p') = ee_iter_all pes (pay_events p) \<and> punsaved (pay_events p') = []"
    and invoice_inserted:
      "store_ok s \<Longrightarrow> create_invoice_row repos s m = Inr (i, s') \<Longrightarrow>
         store_ok s' \<and> ilog s (ni_payment_hash m) = [] \<and>
         ilog s' = (ilog s)(ni_payment_hash m := [first_invoice_event m]) \<and> plog s' = plog s"
    and invoice_appended:
      "store_ok s \<Longrightarrow> invoice_reachable ies i \<Longrightarrow> update_invoice_row repos s i = Inr (i', s') \<Longrightarrow>
         store_ok s' \<and> ee_iter_all ies (inv_events i) = ilog s (inv_payment_hash i) @ iunsaved (inv_events i) \<and>
         ilog s' = (ilog s)(inv_payment_hash i := ee_iter_all ies (inv_events i)) \<and> plog s' = plog s"

section \<open>Fields and logs\<close>

lemma pay_run_append: "pay_run s (xs @ ys) = (case pay_run s xs of None \<Rightarrow> None | Some s' \<Rightarrow> pay_run s' ys)"
  by (induction xs arbitrary: s) (auto split: option.splits)

lemma inv_run_append: "inv_run s (xs @ ys) = (case inv_run s xs of None \<Rightarrow> None | Some s' \<Rightarrow> inv_run s' ys)"
  by (induction xs arbitrary: s) (auto split: option.splits)

lemma pay_log_run: "pay_log evs s \<Longrightarrow> \<exists>h w a f b d t rest. evs = EvInitiated h w a f b d t # rest \<and> pay_run Initiated rest = Some s"
  by (induction rule: pay_log.induct) (auto simp: pay_run_append)

lemma inv_log_run:
  "inv_log evs s \<Longrightarrow> \<exists>h p w a e b x t rest. evs = EvCreated h p w a e b x t # rest \<and> inv_run Open rest = Some s"
  by (induction rule: inv_log.induct) (auto simp: inv_run_append)

lemma pay_log_valid: "pay_log evs s \<Longrightarrow> pay_valid evs"
  using pay_log_run by fastforce

lemma inv_log_valid: "inv_log evs s \<Longrightarrow> inv_valid evs"
  using inv_log_run by fastforce

text \<open>Only the first event of a log sets the fields an entity must have.\<close>

definition payment_required where
  "payment_required b = (pb_payment_hash b, pb_wallet_id b, pb_amount_msat b, pb_max_fee_msat b, pb_initiated_at b)"

definition invoice_required where
  "invoice_required b = (ib_payment_hash b, ib_payment_preimage b, ib_wallet_id b, ib_amount_msat b, ib_expiry_at b,
     ib_bolt_invoice b, ib_external_id b, ib_created_at b)"

lemma pay_run_required:
  "pay_run s evs \<noteq> None \<Longrightarrow> payment_required (foldl payment_apply_event b evs) = payment_required b"
proof (induction evs arbitrary: s b)
  case (Cons ev evs)
  then obtain s' where "pay_next s ev = Some s'" "pay_run s' evs \<noteq> None" by (auto split: option.splits)
  then show ?case using Cons.IH [of s'] by (cases ev) (auto simp: payment_required_def)
qed simp

lemma inv_run_required:
  "inv_run s evs \<noteq> None \<Longrightarrow> invoice_required (foldl invoice_apply_event b evs) = invoice_required b"
proof (induction evs arbitrary: s b)
  case (Cons ev evs)
  then obtain s' where "inv_next s ev = Some s'" "inv_run s' evs \<noteq> None" by (auto split: option.splits)
  then show ?case using Cons.IH [of s'] by (cases ev) (auto simp: invoice_required_def)
qed simp

text \<open>A payment has the hash, amount and fee limit of the first event of its log.\<close>

lemma payment_log_fields:
  assumes "payment_try_from_events E es = Inr p" "ee_iter_all E es = EvInitiated h w a f b d t # rest"
    "pay_run Initiated rest \<noteq> None"
  shows "pay_payment_hash p = h" "pay_amount_msat p = a" "pay_max_fee_msat p = f"
  using assms(1,2) pay_run_required [OF assms(3), of "payment_apply_event payment_builder_default (EvInitiated h w a f b d t)"]
  by (simp_all add: payment_hydrates_iff payment_required_def)

lemma invoice_log_fields:
  assumes "invoice_try_from_events E es = Inr i" "ee_iter_all E es = EvCreated h p w a e b x t # rest"
    "inv_run Open rest \<noteq> None"
  shows "inv_payment_hash i = h" "inv_payment_preimage i = p"
  using assms(1,2) inv_run_required [OF assms(3), of "invoice_apply_event invoice_builder_default (EvCreated h p w a e b x t)"]
  by (simp_all add: invoice_hydrates_iff invoice_required_def)

section \<open>A list of logs with a key\<close>

definition log_at :: "('ev list \<Rightarrow> 'k option) \<Rightarrow> ('id \<times> 'ev list) list \<Rightarrow> 'k \<Rightarrow> 'ev list" where
  "log_at key xs h = (case find (\<lambda>x. key (snd x) = Some h) xs of Some x \<Rightarrow> snd x | None \<Rightarrow> [])"

definition logs_ok :: "('ev list \<Rightarrow> 'k option) \<Rightarrow> ('ev list \<Rightarrow> bool) \<Rightarrow> ('id \<times> 'ev list) list \<Rightarrow> bool" where
  "logs_ok key valid xs \<longleftrightarrow> list_all (\<lambda>x. valid (snd x)) xs \<and> distinct (map (key \<circ> snd) xs)"

lemma find_snoc:
  "find P (ys @ [y]) = (case find P ys of None \<Rightarrow> if P y then Some y else None | Some z \<Rightarrow> Some z)"
  by (induction ys) auto

lemma key_unique: "logs_ok key valid xs \<Longrightarrow> x \<in> set xs \<Longrightarrow> y \<in> set xs \<Longrightarrow> key (snd x) = key (snd y) \<Longrightarrow> x = y"
  using inj_onD [of "key \<circ> snd" "set xs" x y] by (simp add: logs_ok_def distinct_map)

lemma log_at_member:
  assumes "logs_ok key valid xs" "x \<in> set xs" "key (snd x) = Some h"
  shows "log_at key xs h = snd x"
proof -
  from assms(2,3) obtain y where y: "find (\<lambda>x. key (snd x) = Some h) xs = Some y"
    by (metis (mono_tags, lifting) find_None_iff option.exhaust)
  then have "y \<in> set xs" "key (snd y) = Some h" by (auto simp: find_Some_iff)
  with assms have "y = x" using key_unique [OF assms(1)] by simp
  with y show ?thesis by (simp add: log_at_def)
qed

lemma log_at_absent: "\<forall>x \<in> set xs. key (snd x) \<noteq> Some h \<Longrightarrow> log_at key xs h = []"
  using find_None_iff [of "\<lambda>x. key (snd x) = Some h" xs] by (auto simp: log_at_def)

lemma log_at_insert:
  assumes "key l = Some h" "\<forall>x \<in> set xs. key (snd x) \<noteq> Some h"
  shows "log_at key (xs @ [(i, l)]) = (log_at key xs)(h := l)"
proof
  fix h'
  have "find (\<lambda>x. key (snd x) = Some h) xs = None" using assms(2) by (fastforce simp: find_None_iff)
  then show "log_at key (xs @ [(i, l)]) h' = ((log_at key xs)(h := l)) h'"
    using assms(1) by (auto simp: log_at_def find_snoc split: option.split)
qed

lemma logs_ok_insert:
  "logs_ok key valid xs \<Longrightarrow> valid l \<Longrightarrow> key l = Some h \<Longrightarrow> \<forall>x \<in> set xs. key (snd x) \<noteq> Some h \<Longrightarrow>
   logs_ok key valid (xs @ [(i, l)])"
  by (auto simp: logs_ok_def)

lemma update_log:
  assumes ok: "logs_ok key valid xs" and up: "ref_update_log es xs = Some xs'"
    and k: "key (persisted_events es) = Some h" "key (persisted_events es @ new_events es) = Some h"
    and v: "valid (persisted_events es @ new_events es)"
  shows "logs_ok key valid xs'" "log_at key xs h = persisted_events es"
    "log_at key xs' = (log_at key xs)(h := persisted_events es @ new_events es)"
proof -
  let ?old = "(entity_id es, persisted_events es)" and ?new = "(entity_id es, persisted_events es @ new_events es)"
  let ?f = "\<lambda>x. if x = ?old then ?new else x"
  from up have mem: "?old \<in> set xs" and xs': "xs' = map ?f xs"
    by (auto simp: ref_update_log_def split: if_splits)
  show "log_at key xs h = persisted_events es" using log_at_member [OF ok mem] k(1) by simp
  have keys: "map (key \<circ> snd) xs' = map (key \<circ> snd) xs" using k by (simp add: xs')
  have "list_all (\<lambda>x. valid (snd x)) xs'" using ok v by (auto simp: logs_ok_def xs' list_all_iff)
  with ok show ok': "logs_ok key valid xs'" by (simp only: logs_ok_def keys)
  show "log_at key xs' = (log_at key xs)(h := persisted_events es @ new_events es)"
  proof
    fix h'
    show "log_at key xs' h' = ((log_at key xs)(h := persisted_events es @ new_events es)) h'"
    proof (cases "\<exists>x \<in> set xs. key (snd x) = Some h'")
      case True
      then obtain x where x: "x \<in> set xs" "key (snd x) = Some h'" by blast
      then have "?f x \<in> set xs'" "key (snd (?f x)) = Some h'" using k by (auto simp: xs')
      moreover have "x = ?old \<longleftrightarrow> h' = h" using key_unique [OF ok x(1) mem] x(2) k(1) by auto
      ultimately show ?thesis using log_at_member [OF ok', of "?f x" h'] log_at_member [OF ok x] by auto
    next
      case False
      then have "\<forall>x \<in> set xs'. key (snd x) \<noteq> Some h'" using k by (auto simp: xs')
      with False show ?thesis using log_at_absent [of xs key h'] log_at_absent [of xs' key h'] mem k(1) by auto
    qed
  qed
qed

section \<open>The reference store meets the contract\<close>

definition ref_store_ok :: "ref_store \<Rightarrow> bool" where
  "ref_store_ok s \<longleftrightarrow>
     logs_ok log_payment_hash pay_valid (rs_payments s) \<and> logs_ok log_invoice_hash inv_valid (rs_invoices s)"

definition ref_plog :: "ref_store \<Rightarrow> payment_hash \<Rightarrow> payment_event list" where
  "ref_plog s = log_at log_payment_hash (rs_payments s)"

definition ref_ilog :: "ref_store \<Rightarrow> payment_hash \<Rightarrow> invoice_event list" where
  "ref_ilog s = log_at log_invoice_hash (rs_invoices s)"

lemma log_hash_append:
  "log_payment_hash l = Some h \<Longrightarrow> log_payment_hash (l @ l') = Some h"
  "log_invoice_hash m = Some h \<Longrightarrow> log_invoice_hash (m @ m') = Some h"
  by (cases l rule: log_payment_hash.cases; simp) (cases m rule: log_invoice_hash.cases; simp)

lemma load_payment_valid:
  assumes "pay_valid (snd x)"
  obtains p where "load_payment x = Some p" "log_payment_hash (snd x) = Some (pay_payment_hash p)"
proof -
  from assms obtain h w a f b d t rest where l: "snd x = EvInitiated h w a f b d t # rest" "pay_run Initiated rest \<noteq> None"
    by (cases "snd x" rule: pay_valid.cases) auto
  let ?b = "payment_apply_event payment_builder_default (EvInitiated h w a f b d t)"
  have "\<exists>p. payment_try_from_events ref_es (stored x) = Inr p"
    using pay_run_required [OF l(2), of ?b] l(1)
    by (simp add: payment_try_from_events_def payment_build_def payment_required_def)
  then obtain p where p: "payment_try_from_events ref_es (stored x) = Inr p" ..
  with assms have "load_payment x = Some p" by (simp add: load_payment_def)
  moreover have "pay_payment_hash p = h" using payment_log_fields(1) [OF p _ l(2)] l(1) by simp
  ultimately show ?thesis using l(1) that by simp
qed

lemma load_invoice_valid:
  assumes "inv_valid (snd x)"
  obtains i where "load_invoice x = Some i" "log_invoice_hash (snd x) = Some (inv_payment_hash i)"
proof -
  from assms obtain h p w a e b k t rest where l: "snd x = EvCreated h p w a e b k t # rest" "inv_run Open rest \<noteq> None"
    by (cases "snd x" rule: inv_valid.cases) auto
  let ?b = "invoice_apply_event invoice_builder_default (EvCreated h p w a e b k t)"
  have "\<exists>i. invoice_try_from_events ref_es (stored x) = Inr i"
    using inv_run_required [OF l(2), of ?b] l(1)
    by (simp add: invoice_try_from_events_def invoice_build_def invoice_required_def)
  then obtain i where i: "invoice_try_from_events ref_es (stored x) = Inr i" ..
  with assms have "load_invoice x = Some i" by (simp add: load_invoice_def)
  moreover have "inv_payment_hash i = h" using invoice_log_fields [OF i _ l(2)] l(1) by simp
  ultimately show ?thesis using l(1) that by simp
qed

lemma reachable_payment_log:
  assumes "payment_reachable ref_es p"
  shows "pay_valid (ee_iter_all ref_es (pay_events p))"
    "log_payment_hash (ee_iter_all ref_es (pay_events p)) = Some (pay_payment_hash p)"
proof -
  note l = ref_payment.payment_reachable_log [OF assms]
  then show "pay_valid (ee_iter_all ref_es (pay_events p))" by (rule pay_log_valid)
  from pay_log_run [OF l] payment_log_fields(1) [OF ref_payment.payment_reachable_hydrates [OF assms]]
  show "log_payment_hash (ee_iter_all ref_es (pay_events p)) = Some (pay_payment_hash p)" by fastforce
qed

lemma reachable_invoice_log:
  assumes "invoice_reachable ref_es i"
  shows "inv_valid (ee_iter_all ref_es (inv_events i))"
    "log_invoice_hash (ee_iter_all ref_es (inv_events i)) = Some (inv_payment_hash i)"
proof -
  note l = ref_invoice.reachable_log [OF assms]
  then show "inv_valid (ee_iter_all ref_es (inv_events i))" by (rule inv_log_valid)
  from inv_log_run [OF l] invoice_log_fields [OF ref_invoice.reachable_hydrates [OF assms]]
  show "log_invoice_hash (ee_iter_all ref_es (inv_events i)) = Some (inv_payment_hash i)" by fastforce
qed

lemma loaded_events:
  "load_payment x = Some p \<Longrightarrow> pay_events p = stored x" "load_invoice y = Some i \<Longrightarrow> inv_events i = stored y"
  by (auto simp: load_payment_def load_invoice_def payment_hydrates_iff invoice_hydrates_iff ok_def
      split: if_splits sum.splits)

lemma ref_loaded:
  "ref_find_payment s h = Inr p \<Longrightarrow> new_events (pay_events p) = []"
  "ref_find_invoice s h = Inr i \<Longrightarrow> new_events (inv_events i) = []"
  by (auto simp: ref_find_payment_def ref_find_invoice_def ok_or_def find_Some_iff map_filter_set stored_def
      dest!: nth_mem loaded_events split: option.splits)

lemma ref_no_payment:
  assumes "logs_ok log_payment_hash pay_valid xs"
    and "\<not> (\<exists>p \<in> set (List.map_filter load_payment xs). pay_payment_hash p = h)"
  shows "\<forall>x \<in> set xs. log_payment_hash (snd x) \<noteq> Some h"
proof
  fix x assume x: "x \<in> set xs"
  with assms(1) have "pay_valid (snd x)" by (simp add: logs_ok_def list_all_iff)
  then obtain p where p: "load_payment x = Some p" "log_payment_hash (snd x) = Some (pay_payment_hash p)"
    by (rule load_payment_valid)
  then have "p \<in> set (List.map_filter load_payment xs)" using x by (auto simp: map_filter_set)
  with assms(2) p(2) show "log_payment_hash (snd x) \<noteq> Some h" by auto
qed

lemma ref_no_invoice:
  assumes "logs_ok log_invoice_hash inv_valid xs"
    and "\<not> (\<exists>i \<in> set (List.map_filter load_invoice xs). inv_payment_hash i = h)"
  shows "\<forall>x \<in> set xs. log_invoice_hash (snd x) \<noteq> Some h"
proof
  fix x assume x: "x \<in> set xs"
  with assms(1) have "inv_valid (snd x)" by (simp add: logs_ok_def list_all_iff)
  then obtain i where i: "load_invoice x = Some i" "log_invoice_hash (snd x) = Some (inv_payment_hash i)"
    by (rule load_invoice_valid)
  then have "i \<in> set (List.map_filter load_invoice xs)" using x by (auto simp: map_filter_set)
  with assms(2) i(2) show "log_invoice_hash (snd x) \<noteq> Some h" by auto
qed

lemma fresh_logs [simp]:
  "new_events (new_payment_into_events ref_es n) = [first_payment_event n]"
  "new_events (new_invoice_into_events ref_es m) = [first_invoice_event m]"
  by (simp_all add: new_payment_into_events_def new_invoice_into_events_def ref_es_def first_payment_event_def first_invoice_event_def)

lemma ref_payment_inserted:
  assumes ok: "ref_store_ok s" and c: "ref_create_payment s n = Inr (p, s')"
  shows "ref_store_ok s' \<and> ref_plog s (np_payment_hash n) = [] \<and>
    ref_plog s' = (ref_plog s)(np_payment_hash n := [first_payment_event n]) \<and> ref_ilog s' = ref_ilog s \<and>
    ee_iter_all ref_es (pay_events p) = [first_payment_event n] \<and> new_events (pay_events p) = []"
proof -
  let ?x = "(np_id n, [first_payment_event n])"
  from c have absent: "\<not> (\<exists>p \<in> set (List.map_filter load_payment (rs_payments s)). pay_payment_hash p = np_payment_hash n)"
    and p: "load_payment ?x = Some p" and s': "s' = s\<lparr>rs_payments := rs_payments s @ [?x]\<rparr>"
    by (auto simp: ref_create_payment_def Let_def split: if_splits option.splits)
  have ok1: "logs_ok log_payment_hash pay_valid (rs_payments s)" using ok by (simp add: ref_store_ok_def)
  note no = ref_no_payment [OF ok1 absent]
  have k: "log_payment_hash [first_payment_event n] = Some (np_payment_hash n)" "pay_valid [first_payment_event n]"
    by (simp_all add: first_payment_event_def)
  show ?thesis
    using ok no log_at_insert [OF k(1) no] logs_ok_insert [OF ok1 k(2,1) no] log_at_absent [OF no] loaded_events(1) [OF p]
    by (auto simp: ref_store_ok_def s' ref_plog_def ref_ilog_def stored_def ref_es_def)
qed

lemma ref_invoice_inserted:
  assumes ok: "ref_store_ok s" and c: "ref_create_invoice s n = Inr (i, s')"
  shows "ref_store_ok s' \<and> ref_ilog s (ni_payment_hash n) = [] \<and>
    ref_ilog s' = (ref_ilog s)(ni_payment_hash n := [first_invoice_event n]) \<and> ref_plog s' = ref_plog s"
proof -
  let ?x = "(ni_id n, [first_invoice_event n])"
  from c have absent: "\<not> (\<exists>i \<in> set (List.map_filter load_invoice (rs_invoices s)). inv_payment_hash i = ni_payment_hash n)"
    and s': "s' = s\<lparr>rs_invoices := rs_invoices s @ [?x]\<rparr>"
    by (auto simp: ref_create_invoice_def Let_def split: if_splits option.splits)
  have ok1: "logs_ok log_invoice_hash inv_valid (rs_invoices s)" using ok by (simp add: ref_store_ok_def)
  note no = ref_no_invoice [OF ok1 absent]
  have k: "log_invoice_hash [first_invoice_event n] = Some (ni_payment_hash n)" "inv_valid [first_invoice_event n]"
    by (simp_all add: first_invoice_event_def)
  show ?thesis
    using ok no log_at_insert [OF k(1) no] logs_ok_insert [OF ok1 k(2,1) no] log_at_absent [OF no]
    by (auto simp: ref_store_ok_def s' ref_plog_def ref_ilog_def)
qed

text \<open>The log an update finds in the store has the key of the entity.\<close>

lemma stored_key:
  assumes "logs_ok key valid xs" "ref_update_log es xs = Some xs'" "\<And>l. valid l \<Longrightarrow> key l \<noteq> None"
    and "\<And>l l' k. key l = Some k \<Longrightarrow> key (l @ l') = Some k" "key (persisted_events es @ new_events es) = Some h"
  shows "key (persisted_events es) = Some h"
proof -
  from assms(2) have "(entity_id es, persisted_events es) \<in> set xs" by (auto simp: ref_update_log_def split: if_splits)
  with assms(1) have "valid (persisted_events es)" by (auto simp: logs_ok_def list_all_iff)
  with assms(3) obtain k where k: "key (persisted_events es) = Some k" by blast
  from assms(4) [OF k, of "new_events es"] assms(5) k show ?thesis by simp
qed

lemma valid_keys:
  "pay_valid l \<Longrightarrow> log_payment_hash l \<noteq> None" "inv_valid m \<Longrightarrow> log_invoice_hash m \<noteq> None"
  by (cases l rule: pay_valid.cases; simp) (cases m rule: inv_valid.cases; simp)

lemma ref_payment_appended:
  assumes ok: "ref_store_ok s" and p: "payment_reachable ref_es p" and u: "ref_update_payment s p = Inr (p', s')"
  shows "ref_store_ok s' \<and> ee_iter_all ref_es (pay_events p) = ref_plog s (pay_payment_hash p) @ new_events (pay_events p) \<and>
    ref_plog s' = (ref_plog s)(pay_payment_hash p := ee_iter_all ref_es (pay_events p)) \<and> ref_ilog s' = ref_ilog s \<and>
    ee_iter_all ref_es (pay_events p') = ee_iter_all ref_es (pay_events p) \<and> new_events (pay_events p') = []"
proof -
  let ?es = "pay_events p"
  from u obtain xs where xs: "ref_update_log ?es (rs_payments s) = Some xs"
    and s': "s' = s\<lparr>rs_payments := xs\<rparr>" "p' = p\<lparr>pay_events := persisted ?es\<rparr>"
    by (auto simp: ref_update_payment_def split: option.splits)
  have log: "pay_valid (persisted_events ?es @ new_events ?es)"
    "log_payment_hash (persisted_events ?es @ new_events ?es) = Some (pay_payment_hash p)"
    using reachable_payment_log [OF p] by (simp_all add: ref_es_def)
  have ok1: "logs_ok log_payment_hash pay_valid (rs_payments s)" using ok by (simp add: ref_store_ok_def)
  note key = stored_key [OF ok1 xs valid_keys(1) log_hash_append(1) log(2)]
  show ?thesis
    using ok update_log [OF ok1 xs key log(2,1)]
    by (simp add: ref_store_ok_def s' ref_plog_def ref_ilog_def ref_es_def persisted_def)
qed

lemma ref_invoice_appended:
  assumes ok: "ref_store_ok s" and i: "invoice_reachable ref_es i" and u: "ref_update_invoice s i = Inr (i', s')"
  shows "ref_store_ok s' \<and> ee_iter_all ref_es (inv_events i) = ref_ilog s (inv_payment_hash i) @ new_events (inv_events i) \<and>
    ref_ilog s' = (ref_ilog s)(inv_payment_hash i := ee_iter_all ref_es (inv_events i)) \<and> ref_plog s' = ref_plog s"
proof -
  let ?es = "inv_events i"
  from u obtain xs where xs: "ref_update_log ?es (rs_invoices s) = Some xs" and s': "s' = s\<lparr>rs_invoices := xs\<rparr>"
    by (auto simp: ref_update_invoice_def split: option.splits)
  have log: "inv_valid (persisted_events ?es @ new_events ?es)"
    "log_invoice_hash (persisted_events ?es @ new_events ?es) = Some (inv_payment_hash i)"
    using reachable_invoice_log [OF i] by (simp_all add: ref_es_def)
  have ok1: "logs_ok log_invoice_hash inv_valid (rs_invoices s)" using ok by (simp add: ref_store_ok_def)
  note key = stored_key [OF ok1 xs valid_keys(2) log_hash_append(2) log(2)]
  show ?thesis
    using ok update_log [OF ok1 xs key log(2,1)]
    by (simp add: ref_store_ok_def s' ref_plog_def ref_ilog_def ref_es_def)
qed

interpretation ref_entity_store: entity_store ref_es ref_es ref_repos ref_store_ok ref_plog ref_ilog new_events new_events
proof (unfold_locales, goal_cases)
  case 1 show ?case by (simp add: ref_es_def)
next
  case 2 show ?case by (simp add: ref_es_def)
next
  case 3 then show ?case using ref_loaded(1) by (simp add: ref_repos_def)
next
  case 4 then show ?case using ref_loaded(2) by (simp add: ref_repos_def)
next
  case 5 then show ?case using ref_payment_inserted by (simp add: ref_repos_def)
next
  case 6 then show ?case using ref_payment_appended by (simp add: ref_repos_def)
next
  case 7 then show ?case using ref_invoice_inserted by (simp add: ref_repos_def)
next
  case 8 then show ?case using ref_invoice_appended by (simp add: ref_repos_def)
qed

end
