(* ===== verification/Outbox_Mirror.thy ===== *)
theory Outbox_Mirror
  imports Db_Logic Entity_Store
begin

text \<open>
  The transactional outbox as an invariant of the database: for every payment hash, what the outbox says
  of it is what the stored event logs say. The definitions state the invariant; the lemmas show that
  each kind of committed transaction keeps it. The use cases are taken together in \<open>Gateway_System\<close>.
\<close>

section \<open>What the outbox says\<close>

fun is_payment_event :: "gateway_domain_event \<Rightarrow> bool" where
  "is_payment_event LightningInvoiceSettled = False"
| "is_payment_event LightningHtlcHeld = False"
| "is_payment_event LightningInvoiceCanceled = False"
| "is_payment_event _ = True"

definition row_entry :: "hex_codec \<Rightarrow> payment_hash \<Rightarrow> outbox_row \<Rightarrow> (gateway_domain_event \<times> i64) option" where
  "row_entry H h r =
     (if row_reference_id r = hash_to_hex H h
      then map_option (\<lambda>e. (e, row_amount_sat r)) (ok (domain_event_from_str (row_domain_event_type r))) else None)"

text \<open>The entries of a hash, in the order of the table: those of the payment with their amounts, and those
  of the invoice.\<close>

definition payment_history :: "hex_codec \<Rightarrow> outbox_row list \<Rightarrow> payment_hash \<Rightarrow> (gateway_domain_event \<times> i64) list" where
  "payment_history H rows h = filter (\<lambda>x. is_payment_event (fst x)) (List.map_filter (row_entry H h) rows)"

definition invoice_history :: "hex_codec \<Rightarrow> outbox_row list \<Rightarrow> payment_hash \<Rightarrow> gateway_domain_event list" where
  "invoice_history H rows h =
     map fst (filter (\<lambda>x. \<not> is_payment_event (fst x)) (List.map_filter (row_entry H h) rows))"

section \<open>What the logs say\<close>

fun payment_report :: "payment_event \<Rightarrow> gateway_domain_event option" where
  "payment_report (EvCompleted _ _ _ _) = Some LightningPaymentCompleted"
| "payment_report (EvFailed _ _) = Some LightningPaymentFailed"
| "payment_report _ = None"

text \<open>An intraledger transfer is the payment without a fee limit; it is reported once, when it completes.\<close>

fun payment_reports :: "payment_event list \<Rightarrow> (gateway_domain_event \<times> i64) list" where
  "payment_reports (EvInitiated _ _ amount max_fee _ _ _ # evs) =
     (if max_fee = ZERO
      then (if list_ex is_Completed evs then [(LightningIntraledgerTransferCompleted, whole_sat amount)] else [])
      else (LightningPaymentInitiated, whole_sat amount) #
           map (\<lambda>e. (e, whole_sat amount)) (List.map_filter payment_report evs))"
| "payment_reports _ = []"

fun transfer_log :: "payment_event list \<Rightarrow> bool" where
  "transfer_log (EvInitiated _ _ _ max_fee _ _ _ # evs) \<longleftrightarrow> max_fee = ZERO"
| "transfer_log _ \<longleftrightarrow> False"

fun invoice_report :: "invoice_event \<Rightarrow> gateway_domain_event option" where
  "invoice_report (EvHtlcHeld _ _) = Some LightningHtlcHeld"
| "invoice_report (EvSettled _) = Some LightningInvoiceSettled"
| "invoice_report (EvCanceled _ _) = Some LightningInvoiceCanceled"
| "invoice_report _ = None"

definition invoice_reports :: "invoice_event list \<Rightarrow> gateway_domain_event list" where
  "invoice_reports evs = List.map_filter invoice_report evs"

section \<open>The invariant\<close>

text \<open>Both agree for every hash; an invoice is settled intraledger exactly when the payment of its hash is
  a transfer, and then the transfer is complete.\<close>

definition mirrors ::
  "hex_codec \<Rightarrow> (payment_hash \<Rightarrow> payment_event list) \<Rightarrow> (payment_hash \<Rightarrow> invoice_event list) \<Rightarrow> outbox_row list \<Rightarrow> bool" where
  "mirrors H pl il rows \<longleftrightarrow>
     (\<forall>h. payment_history H rows h = payment_reports (pl h) \<and> invoice_history H rows h = invoice_reports (il h) \<and>
        (list_ex is_SettledIntraledger (il h) \<longleftrightarrow> transfer_log (pl h)) \<and>
        (transfer_log (pl h) \<longrightarrow> list_ex is_Completed (pl h)))"

text \<open>A row carries both names of one event. Sequence numbers are unique and below the counter (until it is
  exhausted), and the rows of one reference are in their order; rows of different references need not be,
  since transactions may commit in another order than they drew their numbers.\<close>

definition row_typed :: "outbox_row \<Rightarrow> bool" where
  "row_typed r \<longleftrightarrow> (\<exists>e. row_domain_event_type r = domain_event_str e \<and> row_event_type r = event_type_str (to_standardized e))"

definition of_reference :: "string \<Rightarrow> outbox_row list \<Rightarrow> outbox_row list" where
  "of_reference ref rows = filter (\<lambda>r. row_reference_id r = ref) rows"

definition table_ok :: "i64 \<Rightarrow> outbox_row list \<Rightarrow> bool" where
  "table_ok next rows \<longleftrightarrow>
     distinct (map row_sequence rows) \<and>
     list_all (\<lambda>r. row_typed r \<and> 0 < sint (row_sequence r) \<and> (0 < sint next \<longrightarrow> sint (row_sequence r) < sint next)) rows \<and>
     (\<forall>ref. sorted (map (\<lambda>r. sint (row_sequence r)) (of_reference ref rows)))"

definition outbox_consistent ::
  "hex_codec \<Rightarrow> ('s \<Rightarrow> bool) \<Rightarrow> ('s \<Rightarrow> payment_hash \<Rightarrow> payment_event list) \<Rightarrow>
   ('s \<Rightarrow> payment_hash \<Rightarrow> invoice_event list) \<Rightarrow> 's db \<Rightarrow> bool" where
  "outbox_consistent H store_ok plog ilog d \<longleftrightarrow>
     store_ok (db_es d) \<and> mirrors H (plog (db_es d)) (ilog (db_es d)) (db_outbox d) \<and>
     table_ok (db_nextval d) (db_outbox d)"

text \<open>What LND vouches for. \<open>paid h pre\<close>: LND reported the payment of \<open>h\<close> succeeded, with preimage \<open>pre\<close>; \<open>received h\<close>:
  the invoice of \<open>h\<close> is settled at LND. A completed payment that is not a transfer is paid with the recorded
  preimage, a settled invoice is received, and the preimage of every invoice opens its hash.\<close>

fun completion_vouched :: "(payment_hash \<Rightarrow> preimage \<Rightarrow> bool) \<Rightarrow> payment_hash \<Rightarrow> payment_event \<Rightarrow> bool" where
  "completion_vouched paid h (EvCompleted _ pre _ _) \<longleftrightarrow> paid h pre"
| "completion_vouched paid h _ \<longleftrightarrow> True"

fun settlement_vouched :: "(payment_hash \<Rightarrow> bool) \<Rightarrow> (u8 list \<Rightarrow> u8 list) \<Rightarrow> payment_hash \<Rightarrow> invoice_event \<Rightarrow> bool" where
  "settlement_vouched received sha h (EvSettled _) \<longleftrightarrow> received h"
| "settlement_vouched received sha h (EvCreated _ pre _ _ _ _ _ _) \<longleftrightarrow> payment_hash_of sha pre = h"
| "settlement_vouched received sha h _ \<longleftrightarrow> True"

definition vouched ::
  "(payment_hash \<Rightarrow> preimage \<Rightarrow> bool) \<Rightarrow> (payment_hash \<Rightarrow> bool) \<Rightarrow> (u8 list \<Rightarrow> u8 list) \<Rightarrow>
   (payment_hash \<Rightarrow> payment_event list) \<Rightarrow> (payment_hash \<Rightarrow> invoice_event list) \<Rightarrow> bool" where
  "vouched paid received sha pl il \<longleftrightarrow>
     (\<forall>h. (transfer_log (pl h) \<or> list_all (completion_vouched paid h) (pl h)) \<and>
        list_all (settlement_vouched received sha h) (il h))"

definition books_ok ::
  "(payment_hash \<Rightarrow> preimage \<Rightarrow> bool) \<Rightarrow> (payment_hash \<Rightarrow> bool) \<Rightarrow> (u8 list \<Rightarrow> u8 list) \<Rightarrow>
   hex_codec \<Rightarrow> ('s \<Rightarrow> bool) \<Rightarrow> ('s \<Rightarrow> payment_hash \<Rightarrow> payment_event list) \<Rightarrow>
   ('s \<Rightarrow> payment_hash \<Rightarrow> invoice_event list) \<Rightarrow> 's db \<Rightarrow> bool" where
  "books_ok paid received sha H store_ok plog ilog d \<longleftrightarrow>
     outbox_consistent H store_ok plog ilog d \<and> vouched paid received sha (plog (db_es d)) (ilog (db_es d))"

lemmas books_defs = books_ok_def outbox_consistent_def

section \<open>Appending a row\<close>

lemma next_sequence: "0 < sint (n :: i64) \<Longrightarrow> 0 < sint (n + 1) \<Longrightarrow> sint (n + 1) = sint n + 1"
proof -
  assume n: "0 < sint n" and n1: "0 < sint (n + 1)"
  have "sint (n + 1) = signed_take_bit 63 (sint n + 1)"
    using sint_word_ariths(1) [of n 1] by simp
  moreover have "sint n < 2 ^ 63" using sint_lt [of n] by simp
  moreover have "sint n \<noteq> 2 ^ 63 - 1"
  proof
    assume "sint n = 2 ^ 63 - 1"
    with n1 calculation(1) show False by (simp add: signed_take_bit_eq_take_bit_minus)
  qed
  ultimately show ?thesis using n by (simp add: signed_take_bit_int_eq_self)
qed

lemma table_ok_bump: "table_ok n rows \<Longrightarrow> 0 < sint n \<Longrightarrow> table_ok (n + 1) rows"
  using next_sequence [of n] by (force simp: table_ok_def list_all_iff)

lemma publish_row_simps [simp]: "row_typed (publish_row n ev)" "row_sequence (publish_row n ev) = n"
  by (auto simp: row_typed_def publish_row_def)

lemma table_ok_publish:
  assumes ok: "table_ok n rows" and n: "0 < sint n"
  shows "table_ok (n + 1) (rows @ [publish_row n ev])"
proof -
  from ok n have below: "sint (row_sequence r) < sint n" if "r \<in> set rows" for r
    using that by (auto simp: table_ok_def list_all_iff)
  then have "distinct (map row_sequence (rows @ [publish_row n ev]))"
    using ok by (force simp: table_ok_def)
  moreover have "sorted (map (\<lambda>r. sint (row_sequence r)) (of_reference ref (rows @ [publish_row n ev])))" for ref
    using ok below by (auto simp: table_ok_def of_reference_def sorted_append less_imp_le)
  moreover have "0 < sint (n + 1) \<longrightarrow> sint n < sint (n + 1)" using next_sequence [OF n] by linarith
  ultimately show ?thesis
    using table_ok_bump [OF ok n] n by (simp add: table_ok_def)
qed

lemma row_entry_publish:
  "row_entry H h (publish_row n ev) =
     (if no_reference_id ev = hash_to_hex H h then Some (no_domain_event ev, no_amount_sat ev) else None)"
  by (simp add: row_entry_def publish_row_def domain_event.from_as)

lemma history_publish:
  "payment_history H (rows @ [publish_row n ev]) h = payment_history H rows h @
     (if no_reference_id ev = hash_to_hex H h \<and> is_payment_event (no_domain_event ev)
      then [(no_domain_event ev, no_amount_sat ev)] else [])"
  "invoice_history H (rows @ [publish_row n ev]) h = invoice_history H rows h @
     (if no_reference_id ev = hash_to_hex H h \<and> \<not> is_payment_event (no_domain_event ev)
      then [no_domain_event ev] else [])"
  by (simp_all add: payment_history_def invoice_history_def row_entry_publish List.map_filter_def)

section \<open>Reports of an extended log\<close>

lemma map_filter_snoc: "List.map_filter f (xs @ [x]) = List.map_filter f xs @ (case f x of None \<Rightarrow> [] | Some y \<Rightarrow> [y])"
  by (simp add: List.map_filter_def split: option.split)

text \<open>A payment log that has not ended, taken further by pending marks and a final event.\<close>

lemma payment_reports_pending:
  assumes "list_all is_Pending pend"
  shows "List.map_filter payment_report pend = []" "\<not> list_ex is_Completed pend"
  using assms by (induction pend) (auto simp: List.map_filter_simps elim: is_Pending.elims)

lemma payment_reports_extend:
  assumes "l = EvInitiated h w a f b d t # rest" "f \<noteq> ZERO" "list_all is_Pending pend"
  shows "payment_reports (l @ pend) = payment_reports l"
    "payment_report ev = Some e \<Longrightarrow> payment_reports (l @ pend @ [ev]) = payment_reports l @ [(e, whole_sat a)]"
  using assms(1,2) payment_reports_pending(1) [OF assms(3)]
  by (simp_all add: List.map_filter_def)

lemma transfer_log_append: "l \<noteq> [] \<Longrightarrow> transfer_log (l @ l') = transfer_log l"
  by (cases l rule: transfer_log.cases) simp_all

section \<open>Extended logs stay vouched for\<close>

lemma vouched_payment:
  "vouched paid received sha pl il \<Longrightarrow> pl h \<noteq> [] \<Longrightarrow> list_all (completion_vouched paid h) xs \<Longrightarrow>
   vouched paid received sha (pl(h := pl h @ xs)) il"
  by (simp add: vouched_def transfer_log_append)

lemma vouched_pending: "list_all is_Pending xs \<Longrightarrow> list_all (completion_vouched paid h) xs"
  by (induction xs) (auto elim: is_Pending.elims)

lemma vouched_initiated:
  "vouched paid received sha pl il \<Longrightarrow> vouched paid received sha (pl(h := [first_payment_event x])) il"
  by (simp add: vouched_def first_payment_event_def)

lemma vouched_transfer:
  "vouched paid received sha pl il \<Longrightarrow> np_max_fee_msat x = ZERO \<Longrightarrow>
   vouched paid received sha (pl(h := first_payment_event x # xs)) (il(h := il h @ [EvSettledIntraledger t]))"
  by (simp add: vouched_def first_payment_event_def)

lemma vouched_invoice:
  "vouched paid received sha pl il \<Longrightarrow> settlement_vouched received sha h x \<Longrightarrow>
   vouched paid received sha pl (il(h := il h @ [x]))"
  by (simp add: vouched_def)

lemma vouched_created:
  "vouched paid received sha pl il \<Longrightarrow> ni_payment_hash x = payment_hash_of sha (ni_payment_preimage x) \<Longrightarrow>
   vouched paid received sha pl (il(ni_payment_hash x := [first_invoice_event x]))"
  by (simp add: vouched_def first_invoice_event_def)

section \<open>The committed transactions keep the mirror\<close>

context hex_crate
begin

lemma mirrors_publish:
  assumes "mirrors H pl il rows" "no_reference_id ev = hash_to_hex H h"
    and "payment_reports l = payment_reports (pl h) @
      (if is_payment_event (no_domain_event ev) then [(no_domain_event ev, no_amount_sat ev)] else [])"
    and "invoice_reports m = invoice_reports (il h) @
      (if is_payment_event (no_domain_event ev) then [] else [no_domain_event ev])"
    and "list_ex is_SettledIntraledger m \<longleftrightarrow> transfer_log l" "transfer_log l \<longrightarrow> list_ex is_Completed l"
  shows "mirrors H (pl(h := l)) (il(h := m)) (rows @ [publish_row n ev])"
  using assms by (simp add: mirrors_def history_publish hash_to_hex_inj)

lemma mirrors_quiet:
  assumes "mirrors H pl il rows" "payment_reports l = payment_reports (pl h)" "invoice_reports m = invoice_reports (il h)"
    and "list_ex is_SettledIntraledger m \<longleftrightarrow> transfer_log l" "transfer_log l \<longrightarrow> list_ex is_Completed l"
  shows "mirrors H (pl(h := l)) (il(h := m)) rows"
  using assms by (simp add: mirrors_def)

text \<open>The open logs: only a payment that is not a transfer is without an outcome.\<close>

lemma open_not_transfer:
  "mirrors H pl il rows \<Longrightarrow> pl h = EvInitiated k w a f b d t # rest \<Longrightarrow> \<not> list_ex is_Completed (pl h) \<Longrightarrow> f \<noteq> ZERO"
  by (auto simp: mirrors_def dest: spec [of _ h])

lemma mirrors_no_intraledger: "mirrors H pl il rows \<Longrightarrow> \<not> transfer_log (pl h) \<Longrightarrow> \<not> list_ex is_SettledIntraledger (il h)"
  by (simp add: mirrors_def)

lemma mirrors_payment_outcome:
  assumes m: "mirrors H pl il rows" and l: "pl h = EvInitiated k w a f b d t # rest" "\<not> list_ex is_Completed (pl h)"
    and "list_all is_Pending pend" "payment_report x = Some (no_domain_event ev)" "is_payment_event (no_domain_event ev)"
    and "no_reference_id ev = hash_to_hex H h" "no_amount_sat ev = whole_sat a"
  shows "mirrors H (pl(h := pl h @ pend @ [x])) il (rows @ [publish_row n ev])"
proof -
  note f = open_not_transfer [OF m l]
  have "mirrors H (pl(h := pl h @ pend @ [x])) (il(h := il h)) (rows @ [publish_row n ev])"
    by (rule mirrors_publish [OF m])
      (use assms f mirrors_no_intraledger [OF m, of h] payment_reports_extend(2) [OF l(1) f] in \<open>simp_all add: l(1)\<close>)
  then show ?thesis by simp
qed

lemma mirrors_payment_pending:
  assumes m: "mirrors H pl il rows" and l: "pl h = EvInitiated k w a f b d t # rest" "\<not> list_ex is_Completed (pl h)"
    and "list_all is_Pending pend"
  shows "mirrors H (pl(h := pl h @ pend)) il rows"
proof -
  note f = open_not_transfer [OF m l]
  have "mirrors H (pl(h := pl h @ pend)) (il(h := il h)) rows"
    by (rule mirrors_quiet [OF m])
      (use assms f mirrors_no_intraledger [OF m, of h] payment_reports_extend(1) [OF l(1) f] in \<open>simp_all add: l(1)\<close>)
  then show ?thesis by simp
qed

lemma mirrors_payment_initiated:
  assumes m: "mirrors H pl il rows" and "pl (np_payment_hash x) = []" "np_max_fee_msat x \<noteq> ZERO"
    and "no_domain_event ev = LightningPaymentInitiated"
    and "no_reference_id ev = hash_to_hex H (np_payment_hash x)" "no_amount_sat ev = whole_sat (np_amount_msat x)"
  shows "mirrors H (pl(np_payment_hash x := [first_payment_event x])) il (rows @ [publish_row n ev])"
proof -
  have "mirrors H (pl(np_payment_hash x := [first_payment_event x])) (il(np_payment_hash x := il (np_payment_hash x)))
      (rows @ [publish_row n ev])"
    by (rule mirrors_publish [OF m])
      (use assms mirrors_no_intraledger [OF m, of "np_payment_hash x"] in \<open>simp_all add: first_payment_event_def List.map_filter_simps\<close>)
  then show ?thesis by simp
qed

lemma mirrors_transfer:
  assumes m: "mirrors H pl il rows" and "pl h = []" and "h = np_payment_hash x" "np_max_fee_msat x = ZERO"
    and "no_domain_event ev = LightningIntraledgerTransferCompleted"
    and "no_reference_id ev = hash_to_hex H h" "no_amount_sat ev = whole_sat (np_amount_msat x)"
  shows "mirrors H (pl(h := [first_payment_event x, EvCompleted t p f hs])) (il(h := il h @ [EvSettledIntraledger t']))
    (rows @ [publish_row n ev])"
  by (rule mirrors_publish [OF m]) (use assms in \<open>simp_all add: first_payment_event_def invoice_reports_def map_filter_snoc\<close>)

lemma mirrors_invoice:
  assumes m: "mirrors H pl il rows" and "invoice_report x = Some (no_domain_event ev)"
    and "no_reference_id ev = hash_to_hex H h"
  shows "mirrors H pl (il(h := il h @ [x])) (rows @ [publish_row n ev])"
proof -
  have "mirrors H (pl(h := pl h)) (il(h := il h @ [x])) (rows @ [publish_row n ev])"
    by (rule mirrors_publish [OF m])
      (use assms in \<open>cases x; auto simp: invoice_reports_def map_filter_snoc mirrors_def\<close>)+
  then show ?thesis by simp
qed

lemma mirrors_created:
  assumes m: "mirrors H pl il rows" and "il (ni_payment_hash x) = []"
  shows "mirrors H pl (il(ni_payment_hash x := [first_invoice_event x])) rows"
proof -
  have "mirrors H (pl(ni_payment_hash x := pl (ni_payment_hash x))) (il(ni_payment_hash x := [first_invoice_event x])) rows"
    by (rule mirrors_quiet [OF m])
      (use m assms(2) in \<open>auto simp: first_invoice_event_def invoice_reports_def List.map_filter_simps mirrors_def
        dest: spec [of _ "ni_payment_hash x"]\<close>)
  then show ?thesis by simp
qed

end

end
