(* ===== verification/App_Payments.thy ===== *)
theory App_Payments
  imports App_Effects Repositories
begin

text \<open>
  The outbound use cases of \<open>src/app/\<close>: sending over Lightning with its three inline transitions
  (\<open>send_payment.rs\<close>), intraledger transfers (\<open>send_intraledger_payment.rs\<close>), the two writers of
  terminal outcomes (\<open>commit_payment.rs\<close>), LND's payment updates (\<open>handle_payment_update.rs\<close>), the
  orphan-hold sweep (\<open>sweep_orphan_holds.rs\<close>) and the fee probe (\<open>fee_probe.rs\<close>).
\<close>

section \<open>Terminal outcomes (commit_payment.rs)\<close>

definition commit_completed ::
  "('ie, 'pe, 's) env \<Rightarrow> 'pe payment \<Rightarrow> payment_hash \<Rightarrow> i64 \<Rightarrow> preimage \<Rightarrow> milli_satoshi \<Rightarrow> hop list \<Rightarrow>
   timestamp \<Rightarrow> ('s world, app_error, 'pe payment) cmd" where
  "commit_completed env payment hash amount_sat pre fees hops now =
     (case settle_payment (e_pes env) pre fees hops now payment of
        (Inl e, _) \<Rightarrow> throwC (AppPayment e)
      | (Inr AlreadyApplied, p) \<Rightarrow> retC p
      | (Inr Executed, p) \<Rightarrow>
          in_tx env AppDb (
            bindC (mapErrC (\<lambda>e. AppPayment (PaymentModify e)) (update_payment_in_op env p)) (\<lambda>p'.
            bindC (draw (e_now env)) (\<lambda>ts.
            bindC (mapErrC AppOutbox (publish_in_tx env
              (for_lightning_payment_completed (hash_to_hex (e_hex env) hash) (hash_to_hex (e_hex env) hash)
                 amount_sat ts
                 (JObj [(''payment_preimage'', JStr (preimage_to_hex (e_hex env) pre)),
                        (''fees_paid_msat'', jmsat fees),
                        (''route_hops'', JArr (hops_to_json (e_hex env) hops))])))) (\<lambda>_.
            retC p')))))"

definition commit_failed ::
  "('ie, 'pe, 's) env \<Rightarrow> 'pe payment \<Rightarrow> payment_hash \<Rightarrow> i64 \<Rightarrow> failure_reason \<Rightarrow> timestamp \<Rightarrow>
   ('s world, app_error, 'pe payment) cmd" where
  "commit_failed env payment hash amount_sat reason now =
     (case fail_payment (e_pes env) reason now payment of
        (Inl e, _) \<Rightarrow> throwC (AppPayment e)
      | (Inr AlreadyApplied, p) \<Rightarrow> retC p
      | (Inr Executed, p) \<Rightarrow>
          in_tx env AppDb (
            bindC (mapErrC (\<lambda>e. AppPayment (PaymentModify e)) (update_payment_in_op env p)) (\<lambda>p'.
            bindC (draw (e_now env)) (\<lambda>ts.
            bindC (mapErrC AppOutbox (publish_in_tx env
              (for_lightning_payment_failed (hash_to_hex (e_hex env) hash) (hash_to_hex (e_hex env) hash)
                 amount_sat ts
                 (JObj [(''failure_reason'', JStr (failure_detail_str reason))])))) (\<lambda>_.
            retC p')))))"

section \<open>Inline transitions (send_payment.rs)\<close>

definition transition_to_pending ::
  "('ie, 'pe, 's) env \<Rightarrow> 'pe payment \<Rightarrow> payment_hash \<Rightarrow> timestamp \<Rightarrow> ('s world, app_error, 'pe payment) cmd" where
  "transition_to_pending env payment hash now =
     (case mark_pending (e_pes env) now payment of
        (Inl e, _) \<Rightarrow> throwC (AppPayment e)
      | (Inr AlreadyApplied, p) \<Rightarrow> retC p
      | (Inr Executed, p) \<Rightarrow>
          matchC (update_payment env p)
            (\<lambda>e. if is_concurrent_modification e
                 then mapErrC (\<lambda>e. AppPayment (PaymentFind e)) (find_payment env hash)
                 else throwC (AppPayment (PaymentModify e)))
            retC)"

definition settle_inline ::
  "('ie, 'pe, 's) env \<Rightarrow> 'pe payment \<Rightarrow> payment_hash \<Rightarrow> i64 \<Rightarrow> preimage \<Rightarrow> milli_satoshi \<Rightarrow> hop list \<Rightarrow>
   timestamp \<Rightarrow> ('s world, app_error, 'pe payment) cmd" where
  "settle_inline env payment hash amount_sat pre fees hops now =
     (case mark_pending (e_pes env) now payment of
        (Inl e, _) \<Rightarrow> throwC (AppPayment e)
      | (Inr _, p) \<Rightarrow> commit_completed env p hash amount_sat pre fees hops now)"

definition fail_inline ::
  "('ie, 'pe, 's) env \<Rightarrow> 'pe payment \<Rightarrow> payment_hash \<Rightarrow> i64 \<Rightarrow> failure_reason \<Rightarrow> timestamp \<Rightarrow>
   ('s world, app_error, 'pe payment) cmd" where
  "fail_inline env payment hash amount_sat reason now =
     (case mark_pending (e_pes env) now payment of
        (Inl e, _) \<Rightarrow> throwC (AppPayment e)
      | (Inr _, p) \<Rightarrow> commit_failed env p hash amount_sat reason now)"

section \<open>Sending over Lightning (send_payment.rs)\<close>

definition build_initiated_outbox ::
  "('ie, 'pe, 's) env \<Rightarrow> payment_hash \<Rightarrow> wallet_id \<Rightarrow> i64 \<Rightarrow> milli_satoshi \<Rightarrow> string \<Rightarrow> bolt_invoice \<Rightarrow>
   timestamp \<Rightarrow> new_outbox_event" where
  "build_initiated_outbox env hash wallet amount_sat max_fee destination bolt ts =
     for_lightning_payment_initiated (hash_to_hex (e_hex env) hash) (hash_to_hex (e_hex env) hash)
       amount_sat ts
       (JObj [(''max_fee_msat'', jmsat max_fee), (''destination'', JStr destination),
              (''wallet_id'', JStr (e_wallet_str env wallet)), (''bolt_invoice'', JStr (bolt_str bolt))])"

text \<open>The satoshi amount of the hold: \<open>amount + max_fee\<close> (a wrapping addition), rounded up.\<close>

definition hold_sat :: "milli_satoshi \<Rightarrow> milli_satoshi \<Rightarrow> u64" where
  "hold_sat amount max_fee =
     whole_sat (round_up_to_sat (MilliSatoshi (as_u64 amount + as_u64 max_fee)))"

definition decline_failure_reason :: "(decline_reason \<Rightarrow> string) \<Rightarrow> decline_reason option \<Rightarrow> failure_reason" where
  "decline_failure_reason show_decline d =
     (case d of
        Some InsufficientFunds \<Rightarrow> InsufficientBalance
      | Some other \<Rightarrow> Other (''Symphony declined: '' @ show_decline other)
      | None \<Rightarrow> Other ''Symphony declined: no reason'')"

text \<open>Steps 6 to 8: the LND send and the dispatch on its answer.\<close>

definition send_payment_dispatch ::
  "('ie, 'pe, 's) env \<Rightarrow> 'pe payment \<Rightarrow> payment_hash \<Rightarrow> i64 \<Rightarrow> bolt_invoice \<Rightarrow> milli_satoshi \<Rightarrow> timestamp \<Rightarrow>
   ('s world, app_error, 'pe payment) cmd" where
  "send_payment_dispatch env payment hash amount_sat bolt max_fee now =
     matchC (lnd_send_payment env
        \<lparr>spp_bolt_invoice = bolt, spp_max_fee_msat = max_fee, spp_timeout_seconds = 60\<rparr>)
       (\<lambda>err. fail_inline env payment hash amount_sat
                (lnd_error_to_failure_reason (e_show_lnd env) err) now)
       (\<lambda>resp.
          if spr_payment_hash resp \<noteq> hash
          then fail_inline env payment hash amount_sat
                 (Other (''LND payment_hash mismatch: expected '' @ hash_to_hex (e_hex env) hash @
                         '', got '' @ hash_to_hex (e_hex env) (spr_payment_hash resp))) now
          else
            (case spr_status resp of
               InFlight \<Rightarrow> transition_to_pending env payment hash now
             | Succeeded \<Rightarrow>
                 (case spr_payment_preimage resp of
                    None \<Rightarrow> throwC (AppLnd (LndInvalidResponse SucceededWithoutPreimage))
                  | Some pre \<Rightarrow> settle_inline env payment hash amount_sat pre
                      (spr_fees_paid_msat resp) (spr_route_hops resp) now)
             | SendFailed \<Rightarrow>
                 fail_inline env payment hash amount_sat
                   (unwrap_or (spr_failure_reason resp) (Other ''LND returned Failed with no reason'')) now))"

text \<open>The synchronous authorization, failing closed on every error and on a decline.\<close>

definition send_payment_authorize ::
  "('ie, 'pe, 's) env \<Rightarrow> 'pe payment \<Rightarrow> payment_hash \<Rightarrow> wallet_id \<Rightarrow> milli_satoshi \<Rightarrow> milli_satoshi \<Rightarrow> i64 \<Rightarrow>
   bolt_invoice \<Rightarrow> timestamp \<Rightarrow> ('s world, app_error, 'pe payment) cmd" where
  "send_payment_authorize env payment hash wallet amount max_fee amount_sat bolt now =
     matchC (symphony_authorize_spend env
        \<lparr>sar_correlation_id = hash_to_hex (e_hex env) hash,
         sar_account = \<lparr>acc_kind = WalletLiability, acc_id = e_wallet_str env wallet\<rparr>,
         sar_sat_amount = hold_sat amount max_fee,
         sar_idempotency_key = hash_to_hex (e_hex env) hash,
         sar_gateway_metadata = JObj []\<rparr>)
       (\<lambda>e. fail_inline env payment hash amount_sat
              (if is_authorize_unavailable e
               then Other (''Symphony service unavailable: '' @ e_show_symphony env e)
               else Other (''Symphony error: '' @ e_show_symphony env e)) now)
       (\<lambda>resp.
          if sre_status resp = Declined
          then fail_inline env payment hash amount_sat
                 (decline_failure_reason (e_show_decline env) (sre_decline_reason resp)) now
          else send_payment_dispatch env payment hash amount_sat bolt max_fee now)"

text \<open>The transaction that persists the intent with its \<open>OutgoingPaymentInitiated\<close> event.\<close>

definition persist_intent ::
  "('ie, 'pe, 's) env \<Rightarrow> new_payment \<Rightarrow> i64 \<Rightarrow> ('s world, app_error, 'pe payment) cmd" where
  "persist_intent env n amount_sat =
     in_tx env AppDb (
       bindC (mapErrC (\<lambda>e. AppPayment (payment_create_error_into e)) (create_payment_in_op env n)) (\<lambda>p.
       bindC (draw (e_now env)) (\<lambda>ts.
       bindC (mapErrC AppOutbox (publish_in_tx env
         (build_initiated_outbox env (np_payment_hash n) (np_wallet_id n) amount_sat (np_max_fee_msat n)
            (np_destination n) (np_bolt_invoice n) ts))) (\<lambda>_.
       retC p))))"

definition send_ln_payment ::
  "('ie, 'pe, 's) env \<Rightarrow> pay_request \<Rightarrow> decoded_invoice \<Rightarrow> timestamp \<Rightarrow> ('s world, app_error, 'pe payment) cmd" where
  "send_ln_payment env req decoded now =
     bindC (liftC (ok_or (di_amount_msat decoded) (AppPayment AmountRequired))) (\<lambda>amount.
     let max_fee = max_for amount; amount_sat = whole_sat amount in
     bindC (draw (e_payment_id env)) (\<lambda>new_id.
     bindC (liftC (map_err AppPayment
       (new_payment_try_new new_id decoded (pq_wallet_id req) None max_fee now))) (\<lambda>n.
     bindC (persist_intent env n amount_sat) (\<lambda>payment.
     send_payment_authorize env payment (di_payment_hash decoded) (pq_wallet_id req) amount max_fee
       amount_sat (di_bolt_invoice decoded) now))))"

section \<open>Intraledger transfers (send_intraledger_payment.rs)\<close>

definition recipient_guard :: "hex_codec \<Rightarrow> timestamp \<Rightarrow> payment_hash \<Rightarrow> 'ie invoice \<Rightarrow> payment_error + unit" where
  "recipient_guard H now hash recipient =
     (case inv_state recipient of
        Open \<Rightarrow> if inv_expiry_at recipient \<le> now then Inl RecipientInvoiceExpired else Inr ()
      | Settled \<Rightarrow> Inl (AlreadyPaid (hash_to_hex H hash))
      | Canceled \<Rightarrow> Inl RecipientInvoiceCanceled
      | Held \<Rightarrow> Inl RecipientInvoiceInProgress)"

text \<open>The one transaction that records the transfer.\<close>

definition record_transfer_invoice ::
  "('ie, 'pe, 's) env \<Rightarrow> new_payment \<Rightarrow> 'ie invoice \<Rightarrow> wallet_id \<Rightarrow> wallet_id \<Rightarrow> timestamp \<Rightarrow> 'pe payment \<Rightarrow>
   ('s world, app_error, 'pe payment) cmd" where
  "record_transfer_invoice env n recipient sender_wallet recipient_wallet now payment =
     (case settle_intraledger (e_ies env) now recipient of
        (Inl e, _) \<Rightarrow> throwC (AppInvoice e)
      | (Inr _, i) \<Rightarrow>
          bindC (mapErrC (\<lambda>e. AppInvoice (InvoiceModify e)) (update_invoice_in_op env i)) (\<lambda>_.
          bindC (draw (e_now env)) (\<lambda>ts.
          bindC (mapErrC AppOutbox (publish_in_tx env
            (for_lightning_intraledger_transfer_completed
               (hash_to_hex (e_hex env) (np_payment_hash n)) (hash_to_hex (e_hex env) (np_payment_hash n))
               (whole_sat (np_amount_msat n)) ts
               (JObj [(''intraledger'', JBool True),
                      (''sender_wallet_id'', JStr (e_wallet_str env sender_wallet)),
                      (''recipient_wallet_id'', JStr (e_wallet_str env recipient_wallet)),
                      (''amount_msat'', jmsat (np_amount_msat n))])))) (\<lambda>_.
          retC payment))))"

definition record_transfer_payment ::
  "('ie, 'pe, 's) env \<Rightarrow> new_payment \<Rightarrow> 'ie invoice \<Rightarrow> preimage \<Rightarrow> wallet_id \<Rightarrow> wallet_id \<Rightarrow> timestamp \<Rightarrow> 'pe payment \<Rightarrow>
   ('s world, app_error, 'pe payment) cmd" where
  "record_transfer_payment env n recipient pre sender_wallet recipient_wallet now payment =
     (case settle_payment (e_pes env) pre ZERO [] now payment of
        (Inl e, _) \<Rightarrow> throwC (AppPayment e)
      | (Inr _, p) \<Rightarrow>
          bindC (mapErrC (\<lambda>e. AppPayment (PaymentModify e)) (update_payment_in_op env p)) (\<lambda>p'.
          record_transfer_invoice env n recipient sender_wallet recipient_wallet now p'))"

definition intraledger_commit ::
  "('ie, 'pe, 's) env \<Rightarrow> new_payment \<Rightarrow> 'ie invoice \<Rightarrow> preimage \<Rightarrow> wallet_id \<Rightarrow> wallet_id \<Rightarrow> timestamp \<Rightarrow>
   ('s world, app_error, 'pe payment) cmd" where
  "intraledger_commit env n recipient pre sender_wallet recipient_wallet now =
     in_tx env AppDb (
       bindC (mapErrC (\<lambda>e. AppPayment (payment_create_error_into e)) (create_payment_in_op env n)) (\<lambda>payment.
       record_transfer_payment env n recipient pre sender_wallet recipient_wallet now payment))"

text \<open>From the authorization on: settle-inline journal, LND-side cancel, local commit.\<close>

definition intraledger_authorize ::
  "('ie, 'pe, 's) env \<Rightarrow> new_payment \<Rightarrow> 'ie invoice \<Rightarrow> wallet_id \<Rightarrow> timestamp \<Rightarrow>
   ('s world, app_error, 'pe payment) cmd" where
  "intraledger_authorize env n recipient sender_wallet now =
     (let hash_hex = hash_to_hex (e_hex env) (np_payment_hash n);
          recipient_wallet = inv_wallet_id recipient in
      matchC (symphony_authorize_spend env
         \<lparr>sar_correlation_id = hash_hex,
          sar_account = \<lparr>acc_kind = WalletLiability, acc_id = e_wallet_str env sender_wallet\<rparr>,
          sar_sat_amount = whole_sat (np_amount_msat n),
          sar_idempotency_key = hash_hex,
          sar_gateway_metadata = JObj [(''intraledger'', JBool True),
            (''recipient_wallet_id'', JStr (e_wallet_str env recipient_wallet))]\<rparr>)
        (\<lambda>e. throwC (AppSymphony e))
        (\<lambda>resp.
           if sre_status resp = Declined
           then throwC (AppSymphony (SymDeclined (unwrap_or (sre_decline_reason resp) (DeclineOther ''no reason''))))
           else
             bindC (lnd_cancel_invoice env (np_payment_hash n)) (\<lambda>_.
             intraledger_commit env n recipient (inv_payment_preimage recipient) sender_wallet
               recipient_wallet now)))"

definition send_intraledger_payment ::
  "('ie, 'pe, 's) env \<Rightarrow> pay_request \<Rightarrow> decoded_invoice \<Rightarrow> 'ie invoice \<Rightarrow> timestamp \<Rightarrow>
   ('s world, app_error, 'pe payment) cmd" where
  "send_intraledger_payment env req decoded recipient now =
     bindC (check_wallet_ownership env (pq_caller_auth req) (pq_wallet_id req)) (\<lambda>_.
     if inv_wallet_id recipient = pq_wallet_id req then throwC (AppPayment SelfPayment)
     else
       bindC (liftC (map_err AppPayment
         (recipient_guard (e_hex env) now (di_payment_hash decoded) recipient))) (\<lambda>_.
       bindC (draw (e_payment_id env)) (\<lambda>new_id.
       bindC (liftC (map_err AppPayment
         (new_payment_try_new_intraledger new_id decoded
            (map_option round_up_to_sat (inv_amount_msat recipient)) (pq_wallet_id req) now))) (\<lambda>n.
       intraledger_authorize env n recipient (pq_wallet_id req) now))))"

text \<open>The routing decision: an invoice of this gateway is paid intraledger.\<close>

definition route_payment ::
  "('ie, 'pe, 's) env \<Rightarrow> pay_request \<Rightarrow> timestamp \<Rightarrow> decoded_invoice \<Rightarrow> ('s world, app_error, 'pe payment) cmd" where
  "route_payment env req now decoded =
     bindC (mapErrC (\<lambda>e. AppInvoice (InvoiceFind e)) (maybe_find_invoice env (di_payment_hash decoded))) (\<lambda>local.
     case local of
       Some recipient \<Rightarrow> send_intraledger_payment env req decoded recipient now
     | None \<Rightarrow> send_ln_payment env req decoded now)"

definition send_payment ::
  "('ie, 'pe, 's) env \<Rightarrow> pay_request \<Rightarrow> ('s world, app_error, 'pe payment) cmd" where
  "send_payment env req =
     bindC (draw (e_now env)) (\<lambda>now.
     bindC (check_wallet_ownership env (pq_caller_auth req) (pq_wallet_id req)) (\<lambda>_.
     bindC (decode_payment_request env (pq_payment_request req)) (\<lambda>decoded.
     route_payment env req now decoded)))"

section \<open>LND payment updates (handle_payment_update.rs)\<close>

definition apply_payment_update ::
  "('ie, 'pe, 's) env \<Rightarrow> payment_update \<Rightarrow> 'pe payment \<Rightarrow> timestamp \<Rightarrow> ('s world, app_error, unit) cmd" where
  "apply_payment_update env u payment now =
     (let amount_sat = whole_sat (pay_amount_msat payment); hash = pay_payment_hash payment in
      case pu_status u of
        InFlight \<Rightarrow> retC ()
      | Succeeded \<Rightarrow>
          (case pu_payment_preimage u of
             None \<Rightarrow> throwC (AppLnd (LndInvalidResponse SucceededWithoutPreimage))
           | Some pre \<Rightarrow>
               bindC (commit_completed env payment hash amount_sat pre (pu_fees_paid_msat u)
                 (pu_route_hops u) now) (\<lambda>_. retC ()))
      | SendFailed \<Rightarrow>
          bindC (commit_failed env payment hash amount_sat
            (unwrap_or (pu_failure_reason u) (Other ''LND TrackPayments emitted Failed with no reason'')) now)
            (\<lambda>_. retC ()))"

definition handle_payment_update ::
  "('ie, 'pe, 's) env \<Rightarrow> payment_update \<Rightarrow> ('s world, app_error, unit) cmd" where
  "handle_payment_update env u =
     matchC (find_payment env (pu_payment_hash u))
       (\<lambda>e. if is_payment_not_found e then retC () else throwC (AppPayment (PaymentFind e)))
       (\<lambda>payment. bindC (draw (e_now env)) (\<lambda>now. apply_payment_update env u payment now))"

section \<open>The orphan-hold sweep (sweep_orphan_holds.rs)\<close>

text \<open>\<open>None\<close> from the lookup is the elapsed 45 s deadline.\<close>

definition lnd_lookup_payment ::
  "('ie, 'pe, 's) env \<Rightarrow> payment_hash \<Rightarrow> ('s world, app_error, (lnd_error + send_payment_response) option) cmd" where
  "lnd_lookup_payment env h w =
     (let r = e_lnd_lookup_payment env (w_step w) h in (Inr r, emit (ELndLookupPayment h r) (tick w)))"

definition apply_orphan_lookup ::
  "('ie, 'pe, 's) env \<Rightarrow> 'pe payment \<Rightarrow> payment_hash \<Rightarrow> timestamp \<Rightarrow> (lnd_error + send_payment_response) option \<Rightarrow>
   ('s world, app_error, bool) cmd" where
  "apply_orphan_lookup env payment hash now lookup =
     (let amount_sat = whole_sat (pay_amount_msat payment) in
      case lookup of
        None \<Rightarrow> retC False
      | Some (Inl e) \<Rightarrow> if e = LndPaymentNotFound then retC False else throwC (AppLnd e)
      | Some (Inr resp) \<Rightarrow>
          (case spr_status resp of
             InFlight \<Rightarrow> retC False
           | Succeeded \<Rightarrow>
               (case spr_payment_preimage resp of
                  None \<Rightarrow> throwC (AppLnd (LndInvalidResponse LookupSucceededWithoutPreimage))
                | Some pre \<Rightarrow>
                    bindC (commit_completed env payment hash amount_sat pre (spr_fees_paid_msat resp)
                      (spr_route_hops resp) now) (\<lambda>_. retC True))
           | SendFailed \<Rightarrow>
               bindC (commit_failed env payment hash amount_sat
                 (unwrap_or (spr_failure_reason resp) (Other ''LND reported Failed with no reason'')) now)
                 (\<lambda>_. retC True)))"

definition reconcile_orphan_hold ::
  "('ie, 'pe, 's) env \<Rightarrow> payment_hash \<Rightarrow> ('s world, app_error, bool) cmd" where
  "reconcile_orphan_hold env hash =
     bindC (mapErrC (\<lambda>e. AppPayment (PaymentFind e)) (find_payment env hash)) (\<lambda>payment.
     if pay_state payment \<noteq> Initiated then retC False
     else
       bindC (draw (e_now env)) (\<lambda>now.
       bindC (lnd_lookup_payment env hash) (\<lambda>lookup.
       apply_orphan_lookup env payment hash now lookup)))"

fun reconcile_orphan_holds ::
  "('ie, 'pe, 's) env \<Rightarrow> payment_hash list \<Rightarrow> ('s world, app_error, nat) cmd" where
  "reconcile_orphan_holds env [] = retC 0"
| "reconcile_orphan_holds env (h # hs) =
     matchC (reconcile_orphan_hold env h)
       (\<lambda>_. reconcile_orphan_holds env hs)
       (\<lambda>done. bindC (reconcile_orphan_holds env hs) (\<lambda>n. retC (if done then n + 1 else n)))"

text \<open>\<open>idle\<close> is in nanoseconds; \<open>chrono::Duration::from_std\<close> refuses more than \<open>i64::MAX\<close>
  milliseconds and the fallback is ten minutes.\<close>

definition idle_duration :: "int \<Rightarrow> int" where
  "idle_duration idle = (if idle div 10 ^ 6 < 2 ^ 63 then idle else 600 * 10 ^ 9)"

definition sweep_orphan_holds ::
  "('ie, 'pe, 's) env \<Rightarrow> int \<Rightarrow> i64 \<Rightarrow> ('s world, app_error, nat) cmd" where
  "sweep_orphan_holds env idle limit =
     bindC (draw (e_now env)) (\<lambda>now.
     bindC (mapErrC AppPayment (query env PaySqlx (\<lambda>s.
       list_stranded_initiated (Timestamp (instant now - idle_duration idle)) limit
         (payment_rows (e_repos env) s)))) (\<lambda>stranded.
     reconcile_orphan_holds env stranded))"

section \<open>Fee probe (fee_probe.rs)\<close>

definition fee_probe :: "('ie, 'pe, 's) env \<Rightarrow> fee_probe_request \<Rightarrow> ('s world, app_error, milli_satoshi) cmd" where
  "fee_probe env req =
     bindC (check_wallet_ownership env (fq_caller_auth req) (fq_wallet_id req)) (\<lambda>_.
     bindC (decode_payment_request env (fq_payment_request req)) (\<lambda>decoded.
     bindC (lnd_fee_probe env (di_bolt_invoice decoded)) (\<lambda>resp.
     retC (fpr_fee_msat resp))))"

section \<open>Effects of the terminal writers\<close>

definition completed_event ::
  "('ie, 'pe, 's) env \<Rightarrow> payment_hash \<Rightarrow> i64 \<Rightarrow> new_outbox_event \<Rightarrow> bool" where
  "completed_event env h amount_sat ev \<longleftrightarrow>
     no_domain_event ev = LightningPaymentCompleted \<and> no_reference_id ev = hash_to_hex (e_hex env) h \<and>
     no_correlation_id ev = hash_to_hex (e_hex env) h \<and> no_amount_sat ev = amount_sat"

definition failed_event ::
  "('ie, 'pe, 's) env \<Rightarrow> payment_hash \<Rightarrow> i64 \<Rightarrow> new_outbox_event \<Rightarrow> bool" where
  "failed_event env h amount_sat ev \<longleftrightarrow>
     no_domain_event ev = LightningPaymentFailed \<and> no_reference_id ev = hash_to_hex (e_hex env) h \<and>
     no_correlation_id ev = hash_to_hex (e_hex env) h \<and> no_amount_sat ev = amount_sat"

text \<open>The trace of a terminal writer: nothing, or the one commit that carries the new state with its
  event; and nothing together with success only for a replay.\<close>

definition completed_tail ::
  "('ie, 'pe, 's) env \<Rightarrow> payment_id \<Rightarrow> payment_hash \<Rightarrow> i64 \<Rightarrow> effect list \<Rightarrow> bool" where
  "completed_tail env i h a t \<longleftrightarrow>
     (\<exists>ev. t = [ECommit [WUpdatePayment i Completed, WPublish ev]] \<and> completed_event env h a ev)"

definition failed_tail ::
  "('ie, 'pe, 's) env \<Rightarrow> payment_id \<Rightarrow> payment_hash \<Rightarrow> i64 \<Rightarrow> effect list \<Rightarrow> bool" where
  "failed_tail env i h a t \<longleftrightarrow>
     (\<exists>ev. t = [ECommit [WUpdatePayment i Failed, WPublish ev]] \<and> failed_event env h a ev)"

lemma commit_completed_emits:
  "emits (commit_completed env p h a pre fees hops now)
     (\<lambda>r t. (t = [] \<or> completed_tail env (pay_id p) h a t) \<and>
        (t = [] \<longrightarrow> (case r of Inl _ \<Rightarrow> True | Inr x \<Rightarrow> already_applied (e_pes env) is_Completed (pay_events p) \<and> x = p)))"
proof (cases "settle_payment (e_pes env) pre fees hops now p")
  case (Pair r p')
  show ?thesis
  proof (cases "r = Inr Executed")
    case True
    have "pay_id p' = pay_id p" "pay_state p' = Completed"
      using payment_command_executed(2) [OF Pair True] by auto
    then show ?thesis
      unfolding commit_completed_def Pair True prod.case sum.case idempotent.case stmt_defs
      by (intro emits_tx [where P = "\<lambda>_ ws. completed_tail env (pay_id p) h a [ECommit ws]"] writes_rules)
        (auto simp: completed_tail_def completed_event_def outbox_ctors)
  next
    case False
    have "r = Inr AlreadyApplied \<Longrightarrow> already_applied (e_pes env) is_Completed (pay_events p) \<and> p' = p"
      using Pair by (auto simp: settle_payment_def split: if_splits)
    with False show ?thesis
      unfolding commit_completed_def Pair prod.case
      by (cases r) (auto intro!: emits_rules split: idempotent.splits)
  qed
qed

lemma commit_failed_emits:
  "emits (commit_failed env p h a reason now)
     (\<lambda>r t. (t = [] \<or> failed_tail env (pay_id p) h a t) \<and>
        (t = [] \<longrightarrow> (case r of Inl _ \<Rightarrow> True | Inr x \<Rightarrow> already_applied (e_pes env) is_Failed (pay_events p) \<and> x = p)))"
proof (cases "fail_payment (e_pes env) reason now p")
  case (Pair r p')
  show ?thesis
  proof (cases "r = Inr Executed")
    case True
    have "pay_id p' = pay_id p" "pay_state p' = Failed"
      using payment_command_executed(3) [OF Pair True] by auto
    then show ?thesis
      unfolding commit_failed_def Pair True prod.case sum.case idempotent.case stmt_defs
      by (intro emits_tx [where P = "\<lambda>_ ws. failed_tail env (pay_id p) h a [ECommit ws]"] writes_rules)
        (auto simp: failed_tail_def failed_event_def outbox_ctors)
  next
    case False
    have "r = Inr AlreadyApplied \<Longrightarrow> already_applied (e_pes env) is_Failed (pay_events p) \<and> p' = p"
      using Pair by (auto simp: fail_payment_def split: if_splits)
    with False show ?thesis
      unfolding commit_failed_def Pair prod.case
      by (cases r) (auto intro!: emits_rules split: idempotent.splits)
  qed
qed

section \<open>Effects of the inline transitions\<close>

lemma mark_pending_keeps:
  assumes "mark_pending E t p = (Inr k, p')"
  shows "pay_id p' = pay_id p" "pay_amount_msat p' = pay_amount_msat p"
  using assms by (auto simp: mark_pending_def Let_def split: payment_state.splits if_splits)

lemma fail_inline_emits:
  "emits (fail_inline env p h a reason now) (\<lambda>_ t. t = [] \<or> failed_tail env (pay_id p) h a t)"
proof (cases "mark_pending (e_pes env) now p")
  case (Pair r p')
  then show ?thesis
    unfolding fail_inline_def
    by (cases r)
      (auto intro!: emits_rules emits_mono [OF commit_failed_emits] dest: mark_pending_keeps)
qed

lemma settle_inline_emits:
  "emits (settle_inline env p h a pre fees hops now) (\<lambda>_ t. t = [] \<or> completed_tail env (pay_id p) h a t)"
proof (cases "mark_pending (e_pes env) now p")
  case (Pair r p')
  then show ?thesis
    unfolding settle_inline_def
    by (cases r)
      (auto intro!: emits_rules emits_mono [OF commit_completed_emits] dest: mark_pending_keeps)
qed

lemma transition_to_pending_emits:
  "emits (transition_to_pending env p h now) (\<lambda>_ t. t = [] \<or> t = [ECommit [WUpdatePayment (pay_id p) Pending]])"
proof (cases "mark_pending (e_pes env) now p")
  case (Pair r p')
  show ?thesis
  proof (cases "r = Inr Executed")
    case True
    have p': "pay_id p' = pay_id p" "pay_state p' = Pending"
      using payment_command_executed(1) [OF Pair True] by auto
    show ?thesis
      unfolding transition_to_pending_def Pair True prod.case sum.case idempotent.case
        update_payment_def stmt_defs query_defs
      by (intro emits_rules emits_tx [where P = "\<lambda>_ ws. ws = [WUpdatePayment (pay_id p) Pending]"] writes_rules)
        (auto simp: p' intro!: emits_rules)
  next
    case False
    then show ?thesis
      unfolding transition_to_pending_def Pair prod.case
      by (cases r) (auto intro!: emits_rules split: idempotent.splits)
  qed
qed

section \<open>The protocol of a Lightning send\<close>

definition approved :: "symphony_error + symphony_authorize_response \<Rightarrow> bool" where
  "approved r \<longleftrightarrow> (case r of Inl _ \<Rightarrow> False | Inr resp \<Rightarrow> sre_status resp = Approved)"

text \<open>The effects of the Lightning path for a persisted intent \<open>n\<close>, with database row \<open>i\<close>: after
  the authorization request for the hold either the failure is recorded, or, only if it was
  approved, the payment goes to LND and its outcome is recorded.\<close>

definition outcome_tail ::
  "('ie, 'pe, 's) env \<Rightarrow> payment_id \<Rightarrow> payment_hash \<Rightarrow> i64 \<Rightarrow> effect list \<Rightarrow> bool" where
  "outcome_tail env i h a t \<longleftrightarrow>
     t = [] \<or> t = [ECommit [WUpdatePayment i Pending]] \<or> completed_tail env i h a t \<or> failed_tail env i h a t"

definition hold_request ::
  "('ie, 'pe, 's) env \<Rightarrow> new_payment \<Rightarrow> symphony_authorize_request" where
  "hold_request env n =
     \<lparr>sar_correlation_id = hash_to_hex (e_hex env) (np_payment_hash n),
      sar_account = \<lparr>acc_kind = WalletLiability, acc_id = e_wallet_str env (np_wallet_id n)\<rparr>,
      sar_sat_amount = hold_sat (np_amount_msat n) (np_max_fee_msat n),
      sar_idempotency_key = hash_to_hex (e_hex env) (np_payment_hash n),
      sar_gateway_metadata = JObj []\<rparr>"

definition send_params :: "new_payment \<Rightarrow> send_payment_params" where
  "send_params n =
     \<lparr>spp_bolt_invoice = np_bolt_invoice n, spp_max_fee_msat = np_max_fee_msat n, spp_timeout_seconds = 60\<rparr>"

definition initiated_event ::
  "('ie, 'pe, 's) env \<Rightarrow> new_payment \<Rightarrow> new_outbox_event \<Rightarrow> bool" where
  "initiated_event env n ev \<longleftrightarrow>
     no_domain_event ev = LightningPaymentInitiated \<and>
     no_reference_id ev = hash_to_hex (e_hex env) (np_payment_hash n) \<and>
     no_correlation_id ev = hash_to_hex (e_hex env) (np_payment_hash n) \<and>
     no_amount_sat ev = whole_sat (np_amount_msat n)"

text \<open>What follows the committed intent.\<close>

fun after_intent ::
  "('ie, 'pe, 's) env \<Rightarrow> new_payment \<Rightarrow> payment_id \<Rightarrow> effect list \<Rightarrow> bool" where
  "after_intent env n i [] = True"
| "after_intent env n i (EAuthorize req r # rest) \<longleftrightarrow>
     req = hold_request env n \<and>
     (if approved r
      then (\<exists>rest'. rest = ELndSend (send_params n) # rest' \<and>
              outcome_tail env i (np_payment_hash n) (whole_sat (np_amount_msat n)) rest')
      else rest = [] \<or> failed_tail env i (np_payment_hash n) (whole_sat (np_amount_msat n)) rest)"
| "after_intent env n i _ = False"

text \<open>The whole Lightning path: nothing is authorized before the intent and its event are
  committed.\<close>

fun ln_protocol :: "('ie, 'pe, 's) env \<Rightarrow> wallet_id \<Rightarrow> effect list \<Rightarrow> bool" where
  "ln_protocol env wallet [] = True"
| "ln_protocol env wallet (ECommit [WCreatePayment n, WPublish ev] # rest) \<longleftrightarrow>
     np_wallet_id n = wallet \<and> np_amount_msat n \<noteq> ZERO \<and>
     np_max_fee_msat n = max_for (np_amount_msat n) \<and> initiated_event env n ev \<and>
     (\<exists>i. after_intent env n i rest)"
| "ln_protocol env wallet _ = False"

lemma outcome_emits:
  "emits (fail_inline env p h a reason now) (\<lambda>_ t. outcome_tail env (pay_id p) h a t)"
  "emits (settle_inline env p h a pre fees hops now) (\<lambda>_ t. outcome_tail env (pay_id p) h a t)"
  "emits (transition_to_pending env p h now) (\<lambda>_ t. outcome_tail env (pay_id p) h a t)"
  "emits (throwC e) (\<lambda>_ t. outcome_tail env (pay_id p) h a t)"
  by (rule emits_mono [OF fail_inline_emits] emits_mono [OF settle_inline_emits]
      emits_mono [OF transition_to_pending_emits] emits_throw; auto simp: outcome_tail_def)+

lemma dispatch_emits:
  "emits (send_payment_dispatch env p h a bolt max_fee now)
     (\<lambda>_ t. \<exists>t'. t = ELndSend \<lparr>spp_bolt_invoice = bolt, spp_max_fee_msat = max_fee, spp_timeout_seconds = 60\<rparr> # t' \<and>
        outcome_tail env (pay_id p) h a t')"
  unfolding send_payment_dispatch_def call_defs
  by (intro emits_rules)
    (auto intro: outcome_emits split: sum.split send_payment_status.split option.split)

lemma not_declined: "s \<noteq> Declined \<longleftrightarrow> s = Approved"
  by (cases s) simp_all

lemma authorize_emits:
  assumes "np_payment_hash n = h" "np_wallet_id n = wallet" "np_amount_msat n = amount"
    "np_max_fee_msat n = max_fee" "np_bolt_invoice n = bolt" "a = whole_sat amount"
  shows "emits (send_payment_authorize env p h wallet amount max_fee a bolt now)
    (\<lambda>_ t. after_intent env n (pay_id p) t)"
proof -
  have fail: "emits (fail_inline env p h a reason now)
      (\<lambda>_ t. t = [] \<or> failed_tail env (pay_id p) (np_payment_hash n) (whole_sat (np_amount_msat n)) t)" for reason
    using fail_inline_emits [of env p h a reason now] assms by simp
  have send: "emits (send_payment_dispatch env p h a bolt max_fee now)
      (\<lambda>_ t. \<exists>t'. t = ELndSend (send_params n) # t' \<and>
         outcome_tail env (pay_id p) (np_payment_hash n) (whole_sat (np_amount_msat n)) t')"
    using dispatch_emits [of env p h a bolt max_fee now] assms by (simp add: send_params_def)
  show ?thesis
    unfolding send_payment_authorize_def call_defs
    using assms fail send
    by (intro emits_rules)
      (auto simp: approved_def hold_request_def not_declined split: sum.split)
qed

lemma persist_intent_emits:
  "emits (persist_intent env n a)
     (\<lambda>r t. (t = [] \<and> isl r) \<or> (\<exists>ev. t = [ECommit [WCreatePayment n, WPublish ev]] \<and>
        no_domain_event ev = LightningPaymentInitiated \<and> no_amount_sat ev = a \<and>
        no_reference_id ev = hash_to_hex (e_hex env) (np_payment_hash n) \<and>
        no_correlation_id ev = hash_to_hex (e_hex env) (np_payment_hash n)))"
  unfolding persist_intent_def stmt_defs
  by (intro emits_tx [where P = "\<lambda>_ ws. \<exists>ev. ws = [WCreatePayment n, WPublish ev] \<and>
        no_domain_event ev = LightningPaymentInitiated \<and> no_amount_sat ev = a \<and>
        no_reference_id ev = hash_to_hex (e_hex env) (np_payment_hash n) \<and>
        no_correlation_id ev = hash_to_hex (e_hex env) (np_payment_hash n)"] writes_rules)
    (auto simp: build_initiated_outbox_def outbox_ctors)

lemma send_ln_payment_emits:
  "emits (send_ln_payment env req decoded now) (\<lambda>_ t. ln_protocol env (pq_wallet_id req) t)"
proof (cases "di_amount_msat decoded")
  case None
  then show ?thesis
    unfolding send_ln_payment_def by (auto intro!: emits_rules)
next
  case (Some amount)
  have step: "emits (bindC (persist_intent env n (whole_sat amount)) (\<lambda>payment.
       send_payment_authorize env payment (di_payment_hash decoded) (pq_wallet_id req) amount (max_for amount)
         (whole_sat amount) (di_bolt_invoice decoded) now)) (\<lambda>_ t. ln_protocol env (pq_wallet_id req) t)"
    if n: "new_payment_try_new i decoded (pq_wallet_id req) None (max_for amount) now = Inr n" for i n
  proof -
    note spec = new_payment_fields [OF n] 
    show ?thesis
    proof (rule emits_bind, rule emits_mono [OF persist_intent_emits])
      fix r :: "app_error + 'b payment" and t
      assume t: "(t = [] \<and> isl r) \<or> (\<exists>ev. t = [ECommit [WCreatePayment n, WPublish ev]] \<and>
        no_domain_event ev = LightningPaymentInitiated \<and> no_amount_sat ev = whole_sat amount \<and>
        no_reference_id ev = hash_to_hex (e_hex env) (np_payment_hash n) \<and>
        no_correlation_id ev = hash_to_hex (e_hex env) (np_payment_hash n))"
      show "case r of Inl e \<Rightarrow> ln_protocol env (pq_wallet_id req) t
        | Inr x \<Rightarrow> emits (send_payment_authorize env x (di_payment_hash decoded) (pq_wallet_id req) amount
            (max_for amount) (whole_sat amount) (di_bolt_invoice decoded) now)
            (\<lambda>r' t'. ln_protocol env (pq_wallet_id req) (t @ t'))"
        using t spec Some
        by (auto simp: initiated_event_def split: sum.split
            intro!: emits_mono [OF authorize_emits [where n = n]] exI)
    qed
  qed
  show ?thesis
    unfolding send_ln_payment_def Some
    by (auto simp: Let_def map_err_def intro!: emits_rules step split: sum.split)
qed

section \<open>The protocol of an intraledger transfer\<close>

definition transfer_request ::
  "('ie, 'pe, 's) env \<Rightarrow> new_payment \<Rightarrow> wallet_id \<Rightarrow> wallet_id \<Rightarrow> symphony_authorize_request" where
  "transfer_request env n sender recipient =
     \<lparr>sar_correlation_id = hash_to_hex (e_hex env) (np_payment_hash n),
      sar_account = \<lparr>acc_kind = WalletLiability, acc_id = e_wallet_str env sender\<rparr>,
      sar_sat_amount = whole_sat (np_amount_msat n),
      sar_idempotency_key = hash_to_hex (e_hex env) (np_payment_hash n),
      sar_gateway_metadata = JObj [(''intraledger'', JBool True),
        (''recipient_wallet_id'', JStr (e_wallet_str env recipient))]\<rparr>"

definition transfer_event :: "('ie, 'pe, 's) env \<Rightarrow> new_payment \<Rightarrow> new_outbox_event \<Rightarrow> bool" where
  "transfer_event env n ev \<longleftrightarrow>
     no_domain_event ev = LightningIntraledgerTransferCompleted \<and>
     no_reference_id ev = hash_to_hex (e_hex env) (np_payment_hash n) \<and>
     no_amount_sat ev = whole_sat (np_amount_msat n)"

definition transfer_commit :: "('ie, 'pe, 's) env \<Rightarrow> new_payment \<Rightarrow> invoice_id \<Rightarrow> effect list \<Rightarrow> bool" where
  "transfer_commit env n j t \<longleftrightarrow>
     (\<exists>ev. t = [ECommit [WCreatePayment n, WUpdatePayment (np_id n) Completed, WUpdateInvoice j Settled,
                         WPublish ev]] \<and> transfer_event env n ev)"

text \<open>The effects after the guards: the transfer is authorized for exactly the amount of the
  payment; only if it is approved is the recipient's invoice canceled at LND, and only then are
  payment, invoice and reporting event committed together.\<close>

fun transfer_protocol ::
  "('ie, 'pe, 's) env \<Rightarrow> new_payment \<Rightarrow> wallet_id \<Rightarrow> 'ie invoice \<Rightarrow> effect list \<Rightarrow> bool" where
  "transfer_protocol env n sender rcp [] = False"
| "transfer_protocol env n sender rcp (EAuthorize req r # rest) \<longleftrightarrow>
     req = transfer_request env n sender (inv_wallet_id rcp) \<and>
     (if approved r
      then (\<exists>rest'. rest = ELndCancel (np_payment_hash n) # rest' \<and>
              (rest' = [] \<or> transfer_commit env n (inv_id rcp) rest'))
      else rest = [])"
| "transfer_protocol env n sender rcp _ = False"

definition intra_protocol ::
  "('ie, 'pe, 's) env \<Rightarrow> wallet_id \<Rightarrow> payment_hash \<Rightarrow> 'ie invoice \<Rightarrow> effect list \<Rightarrow> bool" where
  "intra_protocol env sender h rcp t \<longleftrightarrow>
     t = [] \<or>
     inv_state rcp = Open \<and> inv_wallet_id rcp \<noteq> sender \<and>
     (\<exists>n. np_payment_hash n = h \<and> np_wallet_id n = sender \<and> np_amount_msat n \<noteq> ZERO \<and>
        (\<forall>a. inv_amount_msat rcp = Some a \<longrightarrow> np_amount_msat n = round_up_to_sat a) \<and>
        transfer_protocol env n sender rcp t)"

lemma intra_fields:
  assumes "new_payment_try_new_intraledger i d inv_amount w ts = Inr n"
  shows "np_payment_hash n = di_payment_hash d" "np_wallet_id n = w" "np_amount_msat n \<noteq> ZERO" "np_id n = i"
    "inv_amount = Some a \<Longrightarrow> np_amount_msat n = a"
  using assms
  by (auto simp: new_payment_try_new_intraledger_def bindR_Inr_iff ok_or_def ZERO_def split: option.splits if_splits)

text \<open>The recording transaction, on a repository that meets its contract.\<close>

lemma record_invoice_writes:
  assumes "inv_state rcp = Open" "\<not> already_applied (e_ies env) is_SettledIntraledger (inv_events rcp)"
  shows "writes (record_transfer_invoice env n rcp sw rw now p)
    (\<lambda>_ ws. \<exists>ev. ws = [WUpdateInvoice (inv_id rcp) Settled, WPublish ev] \<and> transfer_event env n ev)"
  using assms
  by (auto simp: record_transfer_invoice_def settle_intraledger_def stmt_defs transfer_event_def outbox_ctors
      intro!: writes_rules)

lemma record_payment_writes:
  assumes rcp: "inv_state rcp = Open" "\<not> already_applied (e_ies env) is_SettledIntraledger (inv_events rcp)"
    and p: "pay_state p = Initiated" "\<not> already_applied (e_pes env) is_Completed (pay_events p)" "pay_id p = np_id n"
  shows "writes (record_transfer_payment env n rcp pre sw rw now p)
    (\<lambda>_ ws. \<exists>ev. ws = [WUpdatePayment (np_id n) Completed, WUpdateInvoice (inv_id rcp) Settled, WPublish ev] \<and>
       transfer_event env n ev)"
  using p
  by (auto simp: record_transfer_payment_def settle_payment_def stmt_defs
      intro!: writes_rules writes_mono [OF record_invoice_writes [OF rcp]])

lemma record_payment_quiet: "writes (record_transfer_payment env n rcp pre sw rw now p) (\<lambda>_ _. True)"
  by (auto simp: record_transfer_payment_def record_transfer_invoice_def stmt_defs split: sum.split prod.split
      intro!: writes_rules)

lemma intraledger_commit_emits:
  assumes "gateway_repos (e_ies env) (e_pes env) (e_repos env)"
    and rcp: "inv_state rcp = Open" "\<not> already_applied (e_ies env) is_SettledIntraledger (inv_events rcp)"
  shows "emits (intraledger_commit env n rcp pre sw rw now)
    (\<lambda>_ t. t = [] \<or> transfer_commit env n (inv_id rcp) t)"
proof -
  have "writes (bindC (mapErrC (\<lambda>e. AppPayment (payment_create_error_into e)) (create_payment_in_op env n))
      (\<lambda>payment. record_transfer_payment env n rcp pre sw rw now payment))
      (\<lambda>_ ws. transfer_commit env n (inv_id rcp) [ECommit ws])"
    unfolding create_payment_in_op_def
  proof (intro writes_rules record_payment_quiet)
    fix s x s'
    assume c: "create_payment_row (e_repos env) s n = Inr (x, s')"
    show "writes (record_transfer_payment env n rcp pre sw rw now x)
       (\<lambda>_ ws'. transfer_commit env n (inv_id rcp) [ECommit ([WCreatePayment n] @ ws')])"
      using gateway_repos.created_not_settled [OF assms(1) c] gateway_repos.created_payment [OF assms(1) c]
      by (auto simp: transfer_commit_def intro!: writes_mono [OF record_payment_writes [OF rcp]])
  qed
  then show ?thesis
    unfolding intraledger_commit_def by (rule emits_tx) simp_all
qed

lemma intraledger_authorize_emits:
  assumes "gateway_repos (e_ies env) (e_pes env) (e_repos env)"
    and "inv_state rcp = Open" "\<not> already_applied (e_ies env) is_SettledIntraledger (inv_events rcp)"
  shows "emits (intraledger_authorize env n rcp sender now) (\<lambda>_ t. transfer_protocol env n sender rcp t)"
  unfolding intraledger_authorize_def call_defs Let_def
  by (intro emits_rules)
    (auto simp: approved_def transfer_request_def not_declined map_err_def split: sum.split
      intro!: emits_rules emits_mono [OF intraledger_commit_emits [OF assms]])

lemma send_intraledger_emits:
  assumes "gateway_repos (e_ies env) (e_pes env) (e_repos env)"
    and "find_invoice_by_payment_hash (e_repos env) s (di_payment_hash decoded) = Inr rcp"
  shows "emits (send_intraledger_payment env req decoded rcp now)
    (\<lambda>_ t. \<exists>b t'. t = EOwnership (pq_wallet_id req) b # t' \<and> (b \<or> t' = []) \<and>
       intra_protocol env (pq_wallet_id req) (di_payment_hash decoded) rcp t')"
proof -
  have isopen: "recipient_guard H now h rcp = Inr u \<Longrightarrow>
      inv_state rcp = Open \<and> \<not> already_applied (e_ies env) is_SettledIntraledger (inv_events rcp)" for H h u
    using gateway_repos.found_open_not_settled [OF assms]
    by (auto simp: recipient_guard_def split: invoice_state.splits if_splits)
  have step: "emits (intraledger_authorize env n rcp (pq_wallet_id req) now)
      (\<lambda>_ t'. intra_protocol env (pq_wallet_id req) (di_payment_hash decoded) rcp t')"
    if g: "recipient_guard (e_hex env) now (di_payment_hash decoded) rcp = Inr ()"
      and ne: "inv_wallet_id rcp \<noteq> pq_wallet_id req"
      and n: "\<exists>i. new_payment_try_new_intraledger i decoded (map_option round_up_to_sat (inv_amount_msat rcp))
         (pq_wallet_id req) now = Inr n" for n
  proof (rule emits_mono [OF intraledger_authorize_emits [OF assms(1)]])
    show "inv_state rcp = Open" "\<not> already_applied (e_ies env) is_SettledIntraledger (inv_events rcp)"
      using isopen [OF g] by simp_all
    show "intra_protocol env (pq_wallet_id req) (di_payment_hash decoded) rcp t"
      if "transfer_protocol env n (pq_wallet_id req) rcp t" for t
      unfolding intra_protocol_def
      using that isopen [OF g] ne n intra_fields
      by (intro disjI2 conjI exI [of _ n]) auto
  qed
  have quiet: "intra_protocol env (pq_wallet_id req) (di_payment_hash decoded) rcp []"
    by (simp add: intra_protocol_def)
  show ?thesis
    unfolding send_intraledger_payment_def call_defs
    by (intro emits_rules, auto simp: quiet map_err_def split: sum.split intro!: emits_rules step) blast
qed

text \<open>The effects of \<open>send_payment\<close>: the ownership check comes first and gates everything; then
  either the Lightning protocol or (with the check repeated) the intraledger protocol.\<close>

definition send_protocol :: "('ie, 'pe, 's) env \<Rightarrow> wallet_id \<Rightarrow> effect list \<Rightarrow> bool" where
  "send_protocol env wallet t \<longleftrightarrow>
     (\<exists>ok t'. t = EOwnership wallet ok # t' \<and> (ok \<or> t' = []) \<and>
        (ln_protocol env wallet t' \<or>
         (\<exists>ok2 t'' h rcp. t' = EOwnership wallet ok2 # t'' \<and> (ok2 \<or> t'' = []) \<and>
            inv_payment_hash rcp = h \<and> intra_protocol env wallet h rcp t'')))"

lemma send_payment_emits:
  assumes "gateway_repos (e_ies env) (e_pes env) (e_repos env)"
  shows "emits (send_payment env req) (\<lambda>_ t. send_protocol env (pq_wallet_id req) t)"
proof -
  let ?w = "pq_wallet_id req"
  have quiet: "send_protocol env ?w [EOwnership ?w b]" for b
    by (auto simp: send_protocol_def)
  have ln: "emits (send_ln_payment env req decoded now) (\<lambda>_ t. send_protocol env ?w (EOwnership ?w True # t))"
    for decoded now
    by (rule emits_mono [OF send_ln_payment_emits]) (auto simp: send_protocol_def)
  have intra: "emits (send_intraledger_payment env req decoded rcp now)
      (\<lambda>_ t. send_protocol env ?w (EOwnership ?w True # t))"
    if "find_invoice_by_payment_hash (e_repos env) s (di_payment_hash decoded) = Inr rcp" for s decoded rcp now
  proof (rule emits_mono [OF send_intraledger_emits [OF assms that]])
    fix t
    assume "\<exists>b t'. t = EOwnership ?w b # t' \<and> (b \<or> t' = []) \<and>
      intra_protocol env ?w (di_payment_hash decoded) rcp t'"
    moreover have "inv_payment_hash rcp = di_payment_hash decoded"
      using gateway_repos.found_invoice [OF assms that] by simp
    ultimately show "send_protocol env ?w (EOwnership ?w True # t)"
      unfolding send_protocol_def by blast
  qed
  have route: "emits (route_payment env req now decoded) (\<lambda>_ t. send_protocol env ?w (EOwnership ?w True # t))"
    for decoded now
    unfolding route_payment_def maybe_find_invoice_def
  proof (intro emits_rules)
    fix s
    show "case map_err (\<lambda>e. AppInvoice (InvoiceFind e))
        (case find_invoice_by_payment_hash (e_repos env) s (di_payment_hash decoded) of
          Inl EsNotFound \<Rightarrow> Inr None | Inl (EsFindOther m) \<Rightarrow> Inl (EsFindOther m) | Inr i \<Rightarrow> Inr (Some i)) of
        Inl e \<Rightarrow> send_protocol env ?w (EOwnership ?w True # [])
      | Inr x \<Rightarrow> emits (case x of Some recipient \<Rightarrow> send_intraledger_payment env req decoded recipient now
         | None \<Rightarrow> send_ln_payment env req decoded now)
         (\<lambda>r' t'. send_protocol env ?w (EOwnership ?w True # ([] @ t')))"
      using ln [of decoded now] intra [of s decoded] quiet [of True]
      by (cases "find_invoice_by_payment_hash (e_repos env) s (di_payment_hash decoded)")
        (simp_all split: es_find_error.split)
  qed (simp add: quiet)
  have decoded: "emits (bindC (decode_payment_request env pr) (\<lambda>decoded. route_payment env req now decoded))
      (\<lambda>_ t. send_protocol env ?w (EOwnership ?w True # t))" for pr now
    unfolding decode_payment_request_def
    by (intro emits_rules, simp add: emits_lift, intro emits_rules)
      (simp add: quiet route split: sum.split)
  show ?thesis
    unfolding send_payment_def check_wallet_ownership_def
    by (intro emits_rules, simp, intro emits_rules)
      (simp add: quiet decoded map_err_def split: sum.split)
qed

section \<open>Effects of updates and of the sweep\<close>

text \<open>What a handler of LND's verdicts may commit: the terminal state that matches the verdict,
  with its event.\<close>

definition verdict_tail ::
  "('ie, 'pe, 's) env \<Rightarrow> send_payment_status \<Rightarrow> payment_hash \<Rightarrow> effect list \<Rightarrow> bool" where
  "verdict_tail env status h t \<longleftrightarrow>
     t = [] \<or>
     (\<exists>i a. status = Succeeded \<and> completed_tail env i h a t \<or> status = SendFailed \<and> failed_tail env i h a t)"

lemma verdict_emits:
  "emits (bindC (commit_completed env p h a pre fees hops now) (\<lambda>_. retC x)) (\<lambda>_ t. verdict_tail env Succeeded h t)"
  "emits (bindC (commit_failed env p h a reason now) (\<lambda>_. retC x)) (\<lambda>_ t. verdict_tail env SendFailed h t)"
proof -
  show "emits (bindC (commit_completed env p h a pre fees hops now) (\<lambda>_. retC x))
      (\<lambda>_ t. verdict_tail env Succeeded h t)"
    by (rule emits_bind, rule emits_mono [OF commit_completed_emits])
      (auto simp: verdict_tail_def intro!: emits_rules split: sum.split)
  show "emits (bindC (commit_failed env p h a reason now) (\<lambda>_. retC x))
      (\<lambda>_ t. verdict_tail env SendFailed h t)"
    by (rule emits_bind, rule emits_mono [OF commit_failed_emits])
      (auto simp: verdict_tail_def intro!: emits_rules split: sum.split)
qed

lemma verdict_Nil: "verdict_tail env st h []"
  by (simp add: verdict_tail_def)

lemma apply_payment_update_emits:
  "emits (apply_payment_update env u p now) (\<lambda>_ t. verdict_tail env (pu_status u) (pay_payment_hash p) t)"
  unfolding apply_payment_update_def Let_def
  by (auto simp: verdict_Nil intro!: verdict_emits emits_ret emits_throw
      split: send_payment_status.split option.split)

lemma handle_payment_update_emits:
  assumes "gateway_repos (e_ies env) (e_pes env) (e_repos env)"
  shows "emits (handle_payment_update env u) (\<lambda>_ t. verdict_tail env (pu_status u) (pu_payment_hash u) t)"
  unfolding handle_payment_update_def find_payment_def
proof (intro emits_match emits_query)
  fix s
  show "case find_payment_by_payment_hash (e_repos env) s (pu_payment_hash u) of
      Inl e \<Rightarrow> emits (if is_payment_not_found e then retC () else throwC (AppPayment (PaymentFind e)))
        (\<lambda>r' t'. verdict_tail env (pu_status u) (pu_payment_hash u) ([] @ t'))
    | Inr x \<Rightarrow> emits (bindC (draw (e_now env)) (\<lambda>now. apply_payment_update env u x now))
        (\<lambda>r' t'. verdict_tail env (pu_status u) (pu_payment_hash u) ([] @ t'))"
  proof (cases "find_payment_by_payment_hash (e_repos env) s (pu_payment_hash u)")
    case (Inr p)
    with gateway_repos.found_payment [OF assms] have "pay_payment_hash p = pu_payment_hash u" by blast
    with Inr apply_payment_update_emits [of env u p] show ?thesis
      by (auto intro!: emits_bind emits_draw)
  qed (auto simp: verdict_Nil intro!: emits_ret emits_throw)
qed (auto simp: verdict_Nil intro!: emits_ret emits_throw)

text \<open>The sweep: every commit comes right after a lookup of the same payment with that verdict (the
  argument \<open>prev\<close> is the lookup just before).\<close>

fun lookup_verdict :: "(lnd_error + send_payment_response) option \<Rightarrow> send_payment_status option" where
  "lookup_verdict (Some (Inr resp)) = Some (spr_status resp)"
| "lookup_verdict _ = None"

primrec sweep_trace ::
  "('ie, 'pe, 's) env \<Rightarrow> (payment_hash \<times> (lnd_error + send_payment_response) option) option \<Rightarrow> effect list \<Rightarrow> bool" where
  "sweep_trace env prev [] = True"
| "sweep_trace env prev (x # xs) =
     (case x of
        ELndLookupPayment h lk \<Rightarrow> sweep_trace env (Some (h, lk)) xs
      | ECommit ws \<Rightarrow>
          (case prev of
             None \<Rightarrow> False
           | Some (h, lk) \<Rightarrow>
               (case lookup_verdict lk of
                  None \<Rightarrow> False
                | Some st \<Rightarrow> verdict_tail env st h [ECommit ws] \<and> sweep_trace env None xs))
      | _ \<Rightarrow> False)"

definition orphan_trace :: "('ie, 'pe, 's) env \<Rightarrow> payment_hash \<Rightarrow> effect list \<Rightarrow> bool" where
  "orphan_trace env h t \<longleftrightarrow>
     t = [] \<or> (\<exists>lk t'. t = ELndLookupPayment h lk # t' \<and>
       (t' = [] \<or> (\<exists>st. lookup_verdict lk = Some st \<and> verdict_tail env st h t')))"

lemma verdict_tail_cases: "verdict_tail env st h t \<Longrightarrow> t = [] \<or> (\<exists>ws. t = [ECommit ws])"
  by (auto simp: verdict_tail_def completed_tail_def failed_tail_def)

lemma sweep_trace_weaken: "sweep_trace env None t \<Longrightarrow> sweep_trace env l t"
  by (cases t) (auto split: effect.splits)

lemma orphan_trace_append:
  assumes "orphan_trace env h t" "sweep_trace env None t'"
  shows "sweep_trace env None (t @ t')"
proof (cases t)
  case (Cons x t1)
  with assms(1) obtain lk where x: "x = ELndLookupPayment h lk"
    and t1: "t1 = [] \<or> (\<exists>st. lookup_verdict lk = Some st \<and> verdict_tail env st h t1)"
    by (auto simp: orphan_trace_def)
  from t1 have "t1 = [] \<or> (\<exists>ws st. t1 = [ECommit ws] \<and> lookup_verdict lk = Some st \<and> verdict_tail env st h t1)"
    using verdict_tail_cases by blast
  with Cons x assms(2) sweep_trace_weaken show ?thesis by auto
qed (use assms in simp)

lemma emits_lookup_payment [emits_rules]:
  "(\<And>r. Q (Inr r) [ELndLookupPayment h r]) \<Longrightarrow> emits (lnd_lookup_payment env h) Q"
  by (simp add: emits_def lnd_lookup_payment_def Let_def)

lemma apply_orphan_lookup_emits:
  "emits (apply_orphan_lookup env p h now lk)
     (\<lambda>_ t. t = [] \<or> (\<exists>st. lookup_verdict lk = Some st \<and> verdict_tail env st h t))"
proof (cases "lookup_verdict lk")
  case None
  then show ?thesis
    unfolding apply_orphan_lookup_def Let_def
    by (auto intro!: emits_ret emits_throw split: option.split sum.split)
next
  case (Some st)
  then obtain resp where lk: "lk = Some (Inr resp)" "st = spr_status resp"
    by (cases lk rule: lookup_verdict.cases) auto
  have "emits (apply_orphan_lookup env p h now lk) (\<lambda>_ t. verdict_tail env st h t)"
    unfolding apply_orphan_lookup_def Let_def lk
    by (auto simp: verdict_Nil intro!: verdict_emits emits_ret emits_throw
        split: send_payment_status.split option.split)
  with Some show ?thesis by (auto elim: emits_mono)
qed

lemma reconcile_orphan_hold_emits:
  "emits (reconcile_orphan_hold env h) (\<lambda>_ t. orphan_trace env h t)"
proof -
  have none: "orphan_trace env h []" by (simp add: orphan_trace_def)
  have step: "emits (apply_orphan_lookup env p h now lk) (\<lambda>_ t. orphan_trace env h (ELndLookupPayment h lk # t))"
    for p now lk
    by (rule emits_mono [OF apply_orphan_lookup_emits]) (auto simp: orphan_trace_def)
  show ?thesis
    unfolding reconcile_orphan_hold_def find_payment_def
    by (intro emits_rules)
      (auto simp: none map_err_def intro!: emits_rules step split: sum.split)
qed

lemma reconcile_orphan_holds_emits: "emits (reconcile_orphan_holds env hs) (\<lambda>_ t. sweep_trace env None t)"
proof (induction hs)
  case Nil
  show ?case unfolding reconcile_orphan_holds.simps by (rule emits_ret) simp
next
  case (Cons h hs)
  have rest: "emits (reconcile_orphan_holds env hs) (\<lambda>_ t'. sweep_trace env None (t @ t'))"
    if "orphan_trace env h t" for t
    by (rule emits_mono [OF Cons.IH]) (rule orphan_trace_append [OF that])
  show ?case
    unfolding reconcile_orphan_holds.simps
  proof (rule emits_match, rule emits_mono [OF reconcile_orphan_hold_emits])
    fix r :: "app_error + bool" and t
    assume t: "orphan_trace env h t"
    have "emits (bindC (reconcile_orphan_holds env hs) (\<lambda>n. retC (if x then n + 1 else n)))
        (\<lambda>_ t'. sweep_trace env None (t @ t'))" for x
      by (rule emits_bind, rule emits_mono [OF rest [OF t]]) (auto split: sum.split intro!: emits_ret)
    then show "case r of
        Inl e \<Rightarrow> emits (reconcile_orphan_holds env hs) (\<lambda>r' t'. sweep_trace env None (t @ t'))
      | Inr x \<Rightarrow> emits (bindC (reconcile_orphan_holds env hs) (\<lambda>n. retC (if x then n + 1 else n)))
          (\<lambda>r' t'. sweep_trace env None (t @ t'))"
      using rest [OF t] by (auto split: sum.split intro!: emits_ret)
  qed
qed

lemma sweep_orphan_holds_emits: "emits (sweep_orphan_holds env idle limit) (\<lambda>_ t. sweep_trace env None t)"
  unfolding sweep_orphan_holds_def
  by (intro emits_rules)
    (auto simp: map_err_def intro!: emits_rules reconcile_orphan_holds_emits split: sum.split)

section \<open>Where LND sends occur in the protocol\<close>

primrec is_lnd_send :: "effect \<Rightarrow> bool" where
  "is_lnd_send (EOwnership _ _) = False"
| "is_lnd_send (EAuthorize _ _) = False"
| "is_lnd_send (ELndAddHold _) = False"
| "is_lnd_send (ELndSettle _) = False"
| "is_lnd_send (ELndCancel _) = False"
| "is_lnd_send (ELndLookupInvoice _ _) = False"
| "is_lnd_send (ELndLookupPayment _ _) = False"
| "is_lnd_send (ELndSend _) = True"
| "is_lnd_send (ELndFeeProbe _) = False"
| "is_lnd_send (ECommit _) = False"
| "is_lnd_send (ESpawnListener _) = False"

lemma transfer_no_send: "transfer_protocol env n sender rcp t \<Longrightarrow> ELndSend p \<notin> set t"
  by (cases "(env, n, sender, rcp, t)" rule: transfer_protocol.cases)
    (auto simp: transfer_commit_def split: if_splits)

lemma tail_no_send:
  "outcome_tail env i h a t \<Longrightarrow> ELndSend p \<notin> set t"
  "failed_tail env i h a t \<Longrightarrow> ELndSend p \<notin> set t"
  by (auto simp: outcome_tail_def completed_tail_def failed_tail_def)

lemma ln_protocol_send:
  assumes "ln_protocol env wallet t" "ELndSend p \<in> set t"
  obtains n ev ans rest where "t = [ECommit [WCreatePayment n, WPublish ev], EAuthorize (hold_request env n) ans,
      ELndSend p] @ rest" "approved ans" "p = send_params n" "np_wallet_id n = wallet"
    "np_max_fee_msat n = max_for (np_amount_msat n)" "initiated_event env n ev" "\<forall>q. ELndSend q \<notin> set rest"
proof -
  obtain n ev t1 i where t: "t = ECommit [WCreatePayment n, WPublish ev] # t1" "np_wallet_id n = wallet"
    "np_max_fee_msat n = max_for (np_amount_msat n)" "initiated_event env n ev" "after_intent env n i t1"
    using assms by (cases "(env, wallet, t)" rule: ln_protocol.cases) auto
  then have "ELndSend p \<in> set t1" using assms(2) by simp
  then obtain ans t2 where t1: "t1 = EAuthorize (hold_request env n) ans # t2" "ELndSend p \<in> set t2"
    using t(5) by (cases "(env, n, i, t1)" rule: after_intent.cases) auto
  have ap: "approved ans"
  proof (rule ccontr)
    assume "\<not> approved ans"
    with t(5) t1(1) have "t2 = [] \<or> failed_tail env i (np_payment_hash n) (whole_sat (np_amount_msat n)) t2"
      by simp
    with t1(2) show False using tail_no_send(2) [where p = p and t = t2] by auto
  qed
  with t(5) t1 obtain rest where r: "t2 = ELndSend (send_params n) # rest"
    "outcome_tail env i (np_payment_hash n) (whole_sat (np_amount_msat n)) rest"
    by auto
  have "p = send_params n"
    using t1(2) r tail_no_send(1) [OF r(2)] by auto
  with t t1 r ap tail_no_send(1) [OF r(2)] show thesis
    by (intro that [of n ev ans rest]) auto
qed

lemma send_protocol_lnd:
  assumes "send_protocol env wallet t" "ELndSend p \<in> set t"
  shows "\<exists>n ev ans rest. t = [EOwnership wallet True, ECommit [WCreatePayment n, WPublish ev],
      EAuthorize (hold_request env n) ans, ELndSend p] @ rest \<and>
    approved ans \<and> p = send_params n \<and> np_wallet_id n = wallet \<and>
    np_max_fee_msat n = max_for (np_amount_msat n) \<and> initiated_event env n ev \<and>
    (\<forall>q. ELndSend q \<notin> set rest)"
proof -
  obtain b t1 where t: "t = EOwnership wallet b # t1" "b \<or> t1 = []" and
    alt: "ln_protocol env wallet t1 \<or> (\<exists>ok2 t2 h rcp. t1 = EOwnership wallet ok2 # t2 \<and> (ok2 \<or> t2 = []) \<and>
      inv_payment_hash rcp = h \<and> intra_protocol env wallet h rcp t2)"
    using assms(1) unfolding send_protocol_def by (elim exE conjE)
  have s: "ELndSend p \<in> set t1" using assms(2) t by simp
  have "ln_protocol env wallet t1"
    using alt
  proof
    assume "\<exists>ok2 t2 h rcp. t1 = EOwnership wallet ok2 # t2 \<and> (ok2 \<or> t2 = []) \<and>
      inv_payment_hash rcp = h \<and> intra_protocol env wallet h rcp t2"
    then obtain ok2 t2 h rcp where t2: "t1 = EOwnership wallet ok2 # t2" "intra_protocol env wallet h rcp t2"
      by blast
    then have "t2 = [] \<or> (\<exists>n. transfer_protocol env n wallet rcp t2)"
      unfolding intra_protocol_def by blast
    moreover have "ELndSend p \<in> set t2" using s t2(1) by simp
    ultimately show ?thesis using transfer_no_send [where p = p and t = t2] by fastforce
  qed
  from ln_protocol_send [OF this s] obtain n ev ans rest where
    "t1 = [ECommit [WCreatePayment n, WPublish ev], EAuthorize (hold_request env n) ans, ELndSend p] @ rest"
    "approved ans" "p = send_params n" "np_wallet_id n = wallet"
    "np_max_fee_msat n = max_for (np_amount_msat n)" "initiated_event env n ev" "\<forall>q. ELndSend q \<notin> set rest" .
  moreover have b using t(2) s by auto
  ultimately show ?thesis using t(1) by auto
qed

section \<open>Sending twice\<close>

text \<open>Other tasks never remove a payment.\<close>

definition keeps_payments :: "('ie, 'pe, 's) env \<Rightarrow> bool" where
  "keeps_payments env \<longleftrightarrow>
     (\<forall>n d h p. find_payment_by_payment_hash (e_repos env) (db_es d) h = Inr p \<longrightarrow>
        (\<exists>p'. find_payment_by_payment_hash (e_repos env) (db_es (e_others env n d)) h = Inr p'))"

definition has_payment :: "('ie, 'pe, 's) env \<Rightarrow> payment_hash \<Rightarrow> 's world \<Rightarrow> bool" where
  "has_payment env h w \<longleftrightarrow> (\<exists>p. find_payment_by_payment_hash (e_repos env) (db_es (w_db w)) h = Inr p)"

lemma has_payment_kept:
  "keeps_payments env \<Longrightarrow> has_payment env h w \<Longrightarrow> has_payment env h (interfere env w)"
  "has_payment env h (tick w) = has_payment env h w"
  "has_payment env h (emit x w) = has_payment env h w"
  "has_payment env h (w\<lparr>w_pending := ws\<rparr>) = has_payment env h w"
  by (auto simp: has_payment_def keeps_payments_def interfere_def)

lemma persist_intent_refused:
  assumes "gateway_repos (e_ies env) (e_pes env) (e_repos env)" "keeps_payments env"
    and "has_payment env (np_payment_hash n) w"
  shows "\<exists>e w'. persist_intent env n a w = (Inl e, w') \<and> w_trace w' = w_trace w"
proof (cases "e_begin_fail env (w_step w)")
  case None
  define w0 where "w0 = tick ((interfere env w)\<lparr>w_pending := []\<rparr>)"
  have "has_payment env (np_payment_hash n) w0"
    using assms(2,3) by (simp add: w0_def has_payment_kept)
  then obtain v where v: "create_payment_row (e_repos env) (db_es (w_db w0)) n =
      Inl (PaymentConstraintViolation (Some PaymentColumn_PaymentHash) v)"
    using gateway_repos.unique_payment_hash [OF assms(1)] unfolding has_payment_def by blast
  have "\<exists>e w1. create_payment_in_op env n w0 = (Inl e, w1) \<and> w_trace w1 = w_trace w"
    by (simp add: create_payment_in_op_def stmt_def v split: option.split) (simp add: w0_def)
  with None show ?thesis
    by (auto simp: persist_intent_def in_tx_def Let_def bindC_def mapErrC_def simp flip: w0_def)
qed (simp add: persist_intent_def in_tx_def)

lemma send_ln_payment_refused:
  assumes "gateway_repos (e_ies env) (e_pes env) (e_repos env)" "keeps_payments env"
    and "has_payment env (di_payment_hash decoded) w"
  shows "\<exists>e w'. send_ln_payment env req decoded now w = (Inl e, w') \<and> w_trace w' = w_trace w"
proof -
  have refused: "\<exists>e w'. persist_intent env n a (tick w) = (Inl e, w') \<and> w_trace w' = w_trace w"
    if "new_payment_try_new i decoded (pq_wallet_id req) None (max_for m) now = Inr n" for i m n a
  proof -
    have "has_payment env (np_payment_hash n) (tick w)"
      using new_payment_fields [OF that] assms(3) by (simp add: has_payment_kept)
    from persist_intent_refused [OF assms(1,2) this] show ?thesis by simp
  qed
  show ?thesis
  proof (cases "di_amount_msat decoded")
    case (Some m)
    show ?thesis
    proof (cases "new_payment_try_new (e_payment_id env (w_step w)) decoded (pq_wallet_id req) None (max_for m) now")
      case (Inr n)
      from refused [OF Inr, of "whole_sat m"] obtain e w' where
        "persist_intent env n (whole_sat m) (tick w) = (Inl e, w')" "w_trace w' = w_trace w" by blast
      with Some Inr show ?thesis
        by (simp add: send_ln_payment_def bindC_def ok_or_def draw_def map_err_def Let_def)
    qed (simp add: send_ln_payment_def Some bindC_def ok_or_def draw_def map_err_def Let_def)
  qed (simp add: send_ln_payment_def bindC_def ok_or_def)
qed

lemma intraledger_no_send:
  assumes "gateway_repos (e_ies env) (e_pes env) (e_repos env)"
    and "find_invoice_by_payment_hash (e_repos env) s (di_payment_hash decoded) = Inr rcp"
    and "send_intraledger_payment env req decoded rcp now w = (r, w')"
  shows "\<exists>t. w_trace w' = w_trace w @ t \<and> ELndSend p \<notin> set t"
proof -
  obtain t b t' where t: "w_trace w' = w_trace w @ t" "t = EOwnership (pq_wallet_id req) b # t'"
    "intra_protocol env (pq_wallet_id req) (di_payment_hash decoded) rcp t'"
    using send_intraledger_emits [OF assms(1,2)] assms(3) unfolding emits_def by blast
  then have "t' = [] \<or> (\<exists>n. transfer_protocol env n (pq_wallet_id req) rcp t')"
    unfolding intra_protocol_def by blast
  then have "ELndSend p \<notin> set t'"
    using transfer_no_send [where p = p and t = t'] by fastforce
  with t show ?thesis by auto
qed

text \<open>From the routing query on, when the invoice's payment is already there.\<close>

lemma routed_no_send:
  assumes "gateway_repos (e_ies env) (e_pes env) (e_repos env)" "keeps_payments env"
    and "has_payment env (di_payment_hash d) w"
    and run: "route_payment env req now d w = (r, w')"
  shows "\<exists>t. w_trace w' = w_trace w @ t \<and> ELndSend p \<notin> set t"
proof -
  define w1 where "w1 = tick (interfere env w)"
  have w1: "has_payment env (di_payment_hash d) w1" "w_trace w1 = w_trace w"
    using assms(2,3) by (simp_all add: w1_def has_payment_kept)
  consider e v where "r = Inl e" "w' = v" "w_trace v = w_trace w"
    | rcp where "find_invoice_by_payment_hash (e_repos env) (db_es (w_db w1)) (di_payment_hash d) = Inr rcp"
        "send_intraledger_payment env req d rcp now w1 = (r, w')"
    | "send_ln_payment env req d now w1 = (r, w')"
    using run
    by (auto simp: route_payment_def bindC_def mapErrC_def maybe_find_invoice_def query_def map_err_def Let_def w1_def
        split: option.splits sum.splits es_find_error.splits)
  then show ?thesis
  proof cases
    case 2
    from intraledger_no_send [OF assms(1) this] show ?thesis by (simp add: w1)
  next
    case 3
    with send_ln_payment_refused [OF assms(1,2) w1(1)] show ?thesis by (metis w1(2) append_Nil2 empty_iff empty_set prod.inject)
  qed auto
qed

lemma decode_hash:
  assumes "decode_bolt11 H parse now pr = Inr d" "parse pr = Inr b"
  shows "di_payment_hash d = PaymentHash (b11_payment_hash b)"
  using assms by (auto simp: decode_bolt11_def bindR_Inr_iff map_err_def Let_def split: if_splits)

lemma send_payment_routed:
  assumes "send_payment env req w = (r, w')" "e_bolt11 env (pq_payment_request req) = Inr b"
  shows "(\<exists>x. w_trace w' = w_trace w @ [EOwnership (pq_wallet_id req) x]) \<or>
    (\<exists>d w2. di_payment_hash d = PaymentHash (b11_payment_hash b) \<and> w_db w2 = w_db w \<and>
       w_trace w2 = w_trace w @ [EOwnership (pq_wallet_id req) True] \<and>
       route_payment env req (e_now env (w_step w)) d w2 = (r, w'))"
proof (cases "e_ownership env (Suc (w_step w)) (pq_caller_auth req) (pq_wallet_id req)")
  case (Inl e)
  then have "w_trace w' = w_trace w @ [EOwnership (pq_wallet_id req) False]"
    using assms(1)
    by (auto simp: send_payment_def bindC_def check_wallet_ownership_def mapErrC_def call_def draw_def Let_def)
  then show ?thesis by blast
next
  case (Inr u)
  define w2 where "w2 = tick (emit (EOwnership (pq_wallet_id req) True) (tick (tick w)))"
  define dec where "dec = decode_bolt11 (e_hex env) (e_bolt11 env)
    (max 0 (instant (e_now env (Suc (Suc (w_step w)))))) (pq_payment_request req)"
  have run: "(case dec of Inl e \<Rightarrow> (Inl e, w2) | Inr d \<Rightarrow> route_payment env req (e_now env (w_step w)) d w2) = (r, w')"
    using assms(1) Inr
    by (simp add: send_payment_def bindC_def check_wallet_ownership_def mapErrC_def call_def draw_def
        decode_payment_request_def Let_def w2_def dec_def split: sum.splits)
  have w2: "w_db w2 = w_db w" "w_trace w2 = w_trace w @ [EOwnership (pq_wallet_id req) True]"
    by (simp_all add: w2_def)
  show ?thesis
  proof (cases dec)
    case Inr
    with run w2 decode_hash [OF Inr [unfolded dec_def]] assms(2) show ?thesis by fastforce
  qed (use run w2 in auto)
qed

section \<open>Replayed updates\<close>

lemma commit_terminal:
  assumes "pay_state p \<noteq> Initiated" "pay_state p \<noteq> Pending"
  shows "snd (commit_completed env p h a pre fees hops now w) = w"
    "snd (commit_failed env p h a reason now w) = w"
  using assms
  by (auto simp: commit_completed_def commit_failed_def settle_payment_def fail_payment_def Let_def
      split: payment_state.split)

lemma bind_ret_world: "snd (m w) = w \<Longrightarrow> snd (bindC m (\<lambda>_. retC x) w) = w"
  by (auto simp: bindC_def split: prod.split sum.split)

lemma apply_update_terminal:
  assumes "pay_state p \<noteq> Initiated" "pay_state p \<noteq> Pending"
  shows "snd (apply_payment_update env u p now w) = w"
  by (simp add: apply_payment_update_def Let_def bind_ret_world commit_terminal [OF assms]
      split: send_payment_status.split option.split)

section \<open>Hold amounts\<close>

lemma hold_sat_nat:
  assumes "msat_nat amount < 2 ^ 63"
  shows "unat (hold_sat amount (max_for amount)) =
    (msat_nat amount + msat_nat (max_for amount) + 999) div 1000"
proof -
  let ?sum = "msat_nat amount + msat_nat (max_for amount)"
  have b: "?sum < 2 ^ 63 + 92233720368548001"
    using assms max_for_bound(2) [of amount] by linarith
  then have sum: "unat (as_u64 amount + as_u64 (max_for amount)) = ?sum"
    by (simp add: unat_word_ariths)
  have "msat_nat (round_up_to_sat (MilliSatoshi (as_u64 amount + as_u64 (max_for amount)))) =
      (?sum + 999) div 1000 * 1000"
    using b by (subst msat_nat_round_up) (simp_all add: sum)
  then show ?thesis
    by (simp add: hold_sat_def)
qed

section \<open>Properties\<close>

text \<open>C1. Every run of \<open>send_payment\<close>, whatever LND, Symphony, the database and other tasks do, follows
  the protocol: ownership first; on the Lightning path the intent and its \<open>Initiated\<close> event are
  committed together, then a hold of \<open>amount + max_fee\<close> is requested, LND is called only after an
  approval, and each outcome is committed together with its event; on the intraledger path the
  transfer is authorized for exactly the payment's amount, the recipient's LND invoice is canceled
  only after an approval, and only then one transaction records the completed payment, the settled
  invoice and the report.\<close>

theorem send_payment_protocol:
  assumes "gateway_repos (e_ies env) (e_pes env) (e_repos env)" "send_payment env req w = (r, w')"
  shows "\<exists>t. w_trace w' = w_trace w @ t \<and> send_protocol env (pq_wallet_id req) t"
  using send_payment_emits [OF assms(1)] assms(2) unfolding emits_def by blast

definition sample_request :: pay_request where
  "sample_request = \<lparr>pq_caller_auth = CallerAuth ''token'' ''user'', pq_wallet_id = WalletId 5,
     pq_payment_request = ''lnbc1'', pq_memo = None\<rparr>"

lemma ref_env_repos: "gateway_repos (e_ies ref_env) (e_pes ref_env) (e_repos ref_env)"
  by (simp add: ref_env_def ref_gateway.gateway_repos_axioms)

theorem send_payment_protocol_witness:
  "\<exists>t. w_trace (snd (send_payment ref_env sample_request ref_world)) = w_trace ref_world @ t \<and>
     send_protocol ref_env (WalletId 5) t"
  using send_payment_protocol [OF ref_env_repos prod.collapse [symmetric], of sample_request ref_world]
  by (simp add: sample_request_def)

text \<open>C2. LND is asked to pay only by a run that owns the wallet, has committed the intent with its
  event and has an approved authorization of exactly that intent's hold, in this order, with the
  fee limit the policy gives for its amount; and it is asked once.\<close>

theorem lnd_send_only_after_approval:
  assumes "gateway_repos (e_ies env) (e_pes env) (e_repos env)" "send_payment env req w = (r, w')"
    and "w_trace w' = w_trace w @ t" "ELndSend p \<in> set t"
  shows "\<exists>n ev ans rest. t = [EOwnership (pq_wallet_id req) True, ECommit [WCreatePayment n, WPublish ev],
      EAuthorize (hold_request env n) ans, ELndSend p] @ rest \<and>
    approved ans \<and> p = send_params n \<and> np_wallet_id n = pq_wallet_id req \<and>
    np_max_fee_msat n = max_for (np_amount_msat n) \<and> initiated_event env n ev \<and>
    (\<forall>q. ELndSend q \<notin> set rest)"
proof -
  obtain t' where "w_trace w' = w_trace w @ t'" and sp: "send_protocol env (pq_wallet_id req) t'"
    using send_payment_emits [OF assms(1)] assms(2) unfolding emits_def by blast
  with assms(3) have "send_protocol env (pq_wallet_id req) t" by simp
  then show ?thesis using assms(4) by (rule send_protocol_lnd)
qed

lemma ref_send_reaches_lnd:
  "\<exists>p. ELndSend p \<in> set (w_trace (snd (send_payment ref_env sample_request ref_world)))"
proof -
  have "list_ex is_lnd_send (w_trace (snd (send_payment ref_env sample_request ref_world)))"
    by code_simp
  then obtain x where "x \<in> set (w_trace (snd (send_payment ref_env sample_request ref_world)))" "is_lnd_send x"
    by (auto simp: list_ex_iff)
  then show ?thesis by (cases x rule: effect.exhaust) auto
qed

theorem lnd_send_only_after_approval_witness:
  "\<exists>n ev ans rest. w_trace (snd (send_payment ref_env sample_request ref_world)) =
     [EOwnership (WalletId 5) True, ECommit [WCreatePayment n, WPublish ev],
      EAuthorize (hold_request ref_env n) ans, ELndSend (send_params n)] @ rest \<and> approved ans"
proof -
  let ?t = "w_trace (snd (send_payment ref_env sample_request ref_world))"
  obtain p where "ELndSend p \<in> set ?t"
    using ref_send_reaches_lnd by blast
  from lnd_send_only_after_approval [OF ref_env_repos prod.collapse [symmetric] _ this]
  show ?thesis
    by (fastforce simp: sample_request_def ref_world_def)
qed

text \<open>C25. The hold requested for a Lightning payment covers the amount together with the largest
  routing fee the policy allows, and exceeds it by less than one satoshi, for every amount below
  \<open>2^63\<close> milli-satoshi (all amounts the \<open>BIGINT\<close> columns can hold).\<close>

theorem hold_covers_amount_and_fee:
  assumes "msat_nat amount < 2 ^ 63"
  shows "msat_nat amount + msat_nat (max_for amount) \<le> 1000 * unat (hold_sat amount (max_for amount)) \<and>
    1000 * unat (hold_sat amount (max_for amount)) < msat_nat amount + msat_nat (max_for amount) + 1000"
  using ceil_1000_bounds [of "msat_nat amount + msat_nat (max_for amount)"]
  by (simp only: hold_sat_nat [OF assms] mult.commute [of 1000])

theorem hold_covers_amount_and_fee_witness:
  "msat_nat (MilliSatoshi 25000) + msat_nat (max_for (MilliSatoshi 25000)) \<le>
     1000 * unat (hold_sat (MilliSatoshi 25000) (max_for (MilliSatoshi 25000)))"
  using hold_covers_amount_and_fee [of "MilliSatoshi 25000"] by simp

text \<open>A payment hash is never sent to LND twice: while a payment with the hash of the invoice is in
  the store and no other task removes payments, a run of \<open>send_payment\<close> for that invoice makes no
  send, no matter how LND, Symphony, the ownership checker and the database behave.\<close>

lemma never_sent_twice:
  assumes "gateway_repos (e_ies env) (e_pes env) (e_repos env)" "keeps_payments env"
    and "e_bolt11 env (pq_payment_request req) = Inr b"
    and "has_payment env (PaymentHash (b11_payment_hash b)) w"
    and "send_payment env req w = (r, w')" "w_trace w' = w_trace w @ t"
  shows "ELndSend p \<notin> set t"
proof -
  have "\<exists>t'. w_trace w' = w_trace w @ t' \<and> ELndSend p \<notin> set t'"
    using send_payment_routed [OF assms(5,3)]
  proof (elim disjE exE conjE)
    fix d w2
    assume d: "di_payment_hash d = PaymentHash (b11_payment_hash b)"
      and w2: "w_db w2 = w_db w" "w_trace w2 = w_trace w @ [EOwnership (pq_wallet_id req) True]"
      and run: "route_payment env req (e_now env (w_step w)) d w2 = (r, w')"
    have "has_payment env (di_payment_hash d) w2"
      using assms(4) d w2(1) by (simp add: has_payment_def)
    from routed_no_send [OF assms(1,2) this run, of p] w2(2) show ?thesis by auto
  qed auto
  with assms(6) show ?thesis by simp
qed

definition paid_world :: "ref_store world" where
  "paid_world = ref_world\<lparr>w_db := (w_db ref_world)\<lparr>db_es := \<lparr>rs_invoices = [], rs_payments =
     [(PaymentId 1, [EvInitiated (PaymentHash (replicate 32 7)) (WalletId 5) (MilliSatoshi 25000)
        (MilliSatoshi 10000) (BoltInvoice ''lnbc1'') ''02'' (Timestamp 0),
        EvCompleted (Timestamp 4) (Preimage (replicate 32 9)) (MilliSatoshi 1000) []])]\<rparr>\<rparr>\<rparr>"

definition paid_payment :: "ref_pe payment" where
  "paid_payment = projr (ref_find_payment (db_es (w_db paid_world)) (PaymentHash (replicate 32 7)))"

lemma paid_world_found:
  "find_payment_by_payment_hash (e_repos ref_env) (db_es (w_db paid_world)) (PaymentHash (replicate 32 7)) =
     Inr paid_payment" "pay_state paid_payment = Completed"
  by (simp_all add: paid_payment_def paid_world_def ref_env_def ref_repos_def ref_find_payment_def
      List.map_filter_def load_payment_def stored_def payment_hydrates_iff ref_es_def payment_builder_default_def
      payment_build_def ok_def ok_or_def payment_try_from_events_def)


definition sample_update :: payment_update where
  "sample_update = \<lparr>pu_payment_hash = PaymentHash (replicate 32 7), pu_status = SendFailed,
     pu_payment_preimage = None, pu_fees_paid_msat = MilliSatoshi 0, pu_route_hops = [], pu_failure_reason = Some NoRoute\<rparr>"


text \<open>C14. Replays and late verdicts are harmless: when the payment an update names has already reached
  a terminal state, handling it commits nothing and leaves the database as other tasks left it,
  whatever the update says.\<close>

theorem terminal_payment_untouched:
  assumes "find_payment_by_payment_hash (e_repos env) (db_es (e_others env (w_step w) (w_db w)))
      (pu_payment_hash u) = Inr p"
    and "pay_state p \<noteq> Initiated" "pay_state p \<noteq> Pending"
  shows "w_trace (snd (handle_payment_update env u w)) = w_trace w \<and>
    w_db (snd (handle_payment_update env u w)) \<in> {w_db w, e_others env (w_step w) (w_db w)}"
  using assms(1)
  by (simp add: apply_update_terminal [OF assms(2,3)] handle_payment_update_def find_payment_def matchC_def query_def bindC_def draw_def Let_def
      interfere_def tick_def split: option.split)

theorem terminal_payment_untouched_witness:
  "w_trace (snd (handle_payment_update ref_env sample_update paid_world)) = w_trace paid_world"
proof -
  have "find_payment_by_payment_hash (e_repos ref_env)
      (db_es (e_others ref_env (w_step paid_world) (w_db paid_world))) (pu_payment_hash sample_update) = Inr paid_payment"
    using paid_world_found(1) by (simp add: sample_update_def) (simp add: ref_env_def)
  from terminal_payment_untouched [OF this] paid_world_found(2) show ?thesis by simp
qed

text \<open>C13. The orphan-hold sweep never acts on a guess: in every run of it, over any batch, each commit
  comes right after a lookup of the same payment in which LND reported a final verdict, and it
  records exactly that verdict with its event; after a deadline, an unknown payment, an error or a
  payment in flight it commits nothing.\<close>

theorem sweep_follows_verdicts:
  "\<exists>t. w_trace (snd (sweep_orphan_holds env idle limit w)) = w_trace w @ t \<and> sweep_trace env None t"
  using sweep_orphan_holds_emits unfolding emits_def by (metis prod.collapse)

end
