(* ===== verification/App_Invoices.thy ===== *)
theory App_Invoices
  imports App_Effects Repositories
begin

text \<open>
  The inbound use cases of \<open>src/app/\<close>: issuing a HODL invoice (\<open>create_invoice.rs\<close>), the two
  writers of terminal outcomes (\<open>commit_invoice.rs\<close>), LND's invoice updates
  (\<open>handle_invoice_update.rs\<close>), settling a held invoice (\<open>settle_hold_invoice.rs\<close>), reconciling it
  with LND (\<open>reconcile_held_invoice.rs\<close>), and the dispatcher of per-hash listeners.
\<close>

section \<open>Issuing an invoice (create_invoice.rs)\<close>

text \<open>A string is its bytes.\<close>

definition external_id_byte :: "char \<Rightarrow> bool" where
  "external_id_byte c \<longleftrightarrow>
     (let b = of_char c :: nat in
      97 \<le> b \<and> b \<le> 122 \<or> 48 \<le> b \<and> b \<le> 57 \<or> c = CHR ''-'' \<or> c = CHR ''_'')"

definition is_valid_external_id :: "string \<Rightarrow> bool" where
  "is_valid_external_id s \<longleftrightarrow> 1 \<le> length s \<and> length s \<le> 100 \<and> list_all external_id_byte s"

definition resolve_external_id :: "hex_codec \<Rightarrow> string option \<Rightarrow> payment_hash \<Rightarrow> invoice_error + string" where
  "resolve_external_id H supplied hash =
     (let external_id = (case supplied of Some s \<Rightarrow> s | None \<Rightarrow> hash_to_hex H hash) in
      if is_valid_external_id external_id then Inr external_id
      else Inl (InvInvalidExternalId external_id))"

definition spawn_listener :: "payment_hash \<Rightarrow> ('s world, app_error, unit) cmd" where
  "spawn_listener h w = (Inr (), emit (ESpawnListener h) (tick w))"

text \<open>From the persisted invoice on.\<close>

definition persist_invoice ::
  "('ie, 'pe, 's) env \<Rightarrow> new_invoice \<Rightarrow> ('s world, app_error, 'ie invoice) cmd" where
  "persist_invoice env n =
     (if e_mode env = DryRun
      then throwC (AppWalletOwnership ''DryRun mode not yet wired in slice 1a'')
      else
        bindC (mapErrC (\<lambda>e. AppInvoice (invoice_create_error_into e)) (create_invoice_op env n)) (\<lambda>invoice.
        bindC (spawn_listener (inv_payment_hash invoice)) (\<lambda>_.
        retC invoice)))"

definition create_invoice ::
  "('ie, 'pe, 's) env \<Rightarrow> new_invoice_request \<Rightarrow> ('s world, app_error, 'ie invoice) cmd" where
  "create_invoice env req =
     bindC (draw (e_now env)) (\<lambda>now.
     bindC (check_wallet_ownership env (nir_caller_auth req) (nir_wallet_id req)) (\<lambda>_.
     bindC (draw (e_preimage env)) (\<lambda>pre.
     let hash = payment_hash_of (e_sha256 env) pre in
     bindC (liftC (map_err AppInvoice (resolve_external_id (e_hex env) (nir_external_id req) hash))) (\<lambda>external_id.
     bindC (lnd_add_hold_invoice env
       \<lparr>ahp_payment_hash = hash, ahp_amount_msat = Some (nir_amount_msat req), ahp_memo = nir_memo req,
        ahp_expiry_seconds = nir_expiry_seconds req\<rparr>) (\<lambda>bolt.
     bindC (draw (e_invoice_id env)) (\<lambda>new_id.
     bindC (liftC (map_err AppInvoice
       (new_invoice_try_new new_id hash pre (nir_wallet_id req) (Some (nir_amount_msat req))
          (nir_expiry_seconds req) bolt external_id now))) (\<lambda>n.
     persist_invoice env n)))))))"

section \<open>Terminal outcomes (commit_invoice.rs)\<close>

definition commit_settle ::
  "('ie, 'pe, 's) env \<Rightarrow> 'ie invoice \<Rightarrow> payment_hash \<Rightarrow> milli_satoshi \<Rightarrow> ('s world, app_error, unit) cmd" where
  "commit_settle env invoice hash amt_paid =
     bindC (draw (e_now env)) (\<lambda>now.
     case settle_invoice (e_ies env) now invoice of
       (Inl e, _) \<Rightarrow> throwC (AppInvoice e)
     | (Inr AlreadyApplied, _) \<Rightarrow> retC ()
     | (Inr Executed, i) \<Rightarrow>
         (case inv_held_amount_msat i of
            None \<Rightarrow> throwC (AppPanic ''settle requires Held; mark_held sets held_amount_msat'')
          | Some held \<Rightarrow>
              in_tx env AppDb (
                bindC (mapErrC (\<lambda>e. AppInvoice (InvoiceModify e)) (update_invoice_in_op env i)) (\<lambda>_.
                bindC (draw (e_now env)) (\<lambda>ts.
                bindC (mapErrC AppOutbox (publish_in_tx env
                  (for_lightning_invoice_settled (hash_to_hex (e_hex env) hash) (hash_to_hex (e_hex env) hash)
                     (whole_sat amt_paid) ts
                     (JObj [(''wallet_id'', JStr (e_wallet_str env (inv_wallet_id invoice))),
                            (''amt_paid_msat'', jmsat amt_paid), (''held_amount_msat'', jmsat held),
                            (''external_id'', JStr (inv_external_id invoice))])))) (\<lambda>_.
                retC ()))))))"

definition commit_cancel ::
  "('ie, 'pe, 's) env \<Rightarrow> 'ie invoice \<Rightarrow> payment_hash \<Rightarrow> cancel_reason \<Rightarrow> milli_satoshi \<Rightarrow>
   ('s world, app_error, unit) cmd" where
  "commit_cancel env invoice hash reason amt_paid =
     bindC (draw (e_now env)) (\<lambda>now.
     case cancel_invoice (e_ies env) reason now invoice of
       (Inl e, _) \<Rightarrow> throwC (AppInvoice e)
     | (Inr AlreadyApplied, _) \<Rightarrow> retC ()
     | (Inr Executed, i) \<Rightarrow>
         in_tx env AppDb (
           bindC (mapErrC (\<lambda>e. AppInvoice (InvoiceModify e)) (update_invoice_in_op env i)) (\<lambda>_.
           bindC (draw (e_now env)) (\<lambda>ts.
           bindC (mapErrC AppOutbox (publish_in_tx env
             (for_lightning_invoice_canceled (hash_to_hex (e_hex env) hash) (hash_to_hex (e_hex env) hash)
                (whole_sat amt_paid) ts
                (JObj [(''reason'', JStr (cancel_reason_str reason)),
                       (''wallet_id'', JStr (e_wallet_str env (inv_wallet_id invoice))),
                       (''amt_paid_msat'', jmsat amt_paid),
                       (''held_amount_msat'',
                        case inv_held_amount_msat i of None \<Rightarrow> JNull | Some m \<Rightarrow> jmsat m)])))) (\<lambda>_.
           retC ())))))"

section \<open>Settling a held invoice (settle_hold_invoice.rs, reconcile_held_invoice.rs)\<close>

definition settle_on_lnd_state ::
  "('ie, 'pe, 's) env \<Rightarrow> 'ie invoice \<Rightarrow> payment_hash \<Rightarrow> invoice_update \<Rightarrow> ('s world, app_error, unit) cmd" where
  "settle_on_lnd_state env invoice hash lnd_state =
     (case iu_state lnd_state of
        LndAccepted \<Rightarrow>
          bindC (lnd_settle_invoice env (inv_payment_preimage invoice)) (\<lambda>_.
          commit_settle env invoice hash (iu_amt_paid_msat lnd_state))
      | LndSettled \<Rightarrow> commit_settle env invoice hash (iu_amt_paid_msat lnd_state)
      | LndCanceled \<Rightarrow> commit_cancel env invoice hash Expired (iu_amt_paid_msat lnd_state)
      | LndOpen \<Rightarrow> retC ())"

definition settle_hold_invoice ::
  "('ie, 'pe, 's) env \<Rightarrow> payment_hash \<Rightarrow> ('s world, app_error, unit) cmd" where
  "settle_hold_invoice env hash =
     matchC (find_invoice env hash)
       (\<lambda>e. if is_invoice_not_found e then retC () else throwC (AppInvoice (InvoiceFind e)))
       (\<lambda>invoice.
          if inv_state invoice \<noteq> Held then retC ()
          else
            bindC (lnd_lookup_invoice env hash) (\<lambda>lnd_state.
            settle_on_lnd_state env invoice hash lnd_state))"

text \<open>\<open>reconcile_held_invoice\<close> has the same four arms, in another order.\<close>

definition reconcile_held_invoice ::
  "('ie, 'pe, 's) env \<Rightarrow> payment_hash \<Rightarrow> ('s world, app_error, unit) cmd" where
  "reconcile_held_invoice env hash =
     matchC (find_invoice env hash)
       (\<lambda>e. if is_invoice_not_found e then retC () else throwC (AppInvoice (InvoiceFind e)))
       (\<lambda>invoice.
          if inv_state invoice \<noteq> Held then retC ()
          else
            bindC (lnd_lookup_invoice env hash) (\<lambda>lnd_state.
            case iu_state lnd_state of
              LndSettled \<Rightarrow> commit_settle env invoice hash (iu_amt_paid_msat lnd_state)
            | LndCanceled \<Rightarrow> commit_cancel env invoice hash Expired (iu_amt_paid_msat lnd_state)
            | LndAccepted \<Rightarrow>
                bindC (lnd_settle_invoice env (inv_payment_preimage invoice)) (\<lambda>_.
                commit_settle env invoice hash (iu_amt_paid_msat lnd_state))
            | LndOpen \<Rightarrow> retC ()))"

section \<open>LND invoice updates (handle_invoice_update.rs)\<close>

definition transition_to_held ::
  "('ie, 'pe, 's) env \<Rightarrow> 'ie invoice \<Rightarrow> payment_hash \<Rightarrow> milli_satoshi \<Rightarrow> timestamp \<Rightarrow>
   ('s world, app_error, unit) cmd" where
  "transition_to_held env invoice hash amt_paid now =
     (case mark_held (e_ies env) amt_paid now invoice of
        (Inl e, _) \<Rightarrow> throwC (AppInvoice e)
      | (Inr AlreadyApplied, _) \<Rightarrow> retC ()
      | (Inr Executed, i) \<Rightarrow>
          in_tx env AppDb (
            bindC (mapErrC (\<lambda>e. AppInvoice (InvoiceModify e)) (update_invoice_in_op env i)) (\<lambda>_.
            bindC (draw (e_now env)) (\<lambda>ts.
            bindC (mapErrC AppOutbox (publish_in_tx env
              (for_lightning_htlc_held (hash_to_hex (e_hex env) hash) (hash_to_hex (e_hex env) hash)
                 (whole_sat amt_paid) ts
                 (JObj [(''amt_paid_msat'', jmsat amt_paid),
                        (''wallet_id'', JStr (e_wallet_str env (inv_wallet_id invoice)))])))) (\<lambda>_.
            retC ())))))"

text \<open>The error of the auto-settle is logged and dropped.\<close>

definition apply_invoice_update ::
  "('ie, 'pe, 's) env \<Rightarrow> invoice_update \<Rightarrow> 'ie invoice \<Rightarrow> timestamp \<Rightarrow> ('s world, app_error, unit) cmd" where
  "apply_invoice_update env u invoice now =
     (let hash = inv_payment_hash invoice in
      case iu_state u of
        LndOpen \<Rightarrow> retC ()
      | LndAccepted \<Rightarrow>
          bindC (transition_to_held env invoice hash (iu_amt_paid_msat u) now) (\<lambda>_.
          matchC (settle_hold_invoice env hash) (\<lambda>_. retC ()) (\<lambda>_. retC ()))
      | LndSettled \<Rightarrow> retC ()
      | LndCanceled \<Rightarrow> commit_cancel env invoice hash Expired (iu_amt_paid_msat u))"

definition handle_invoice_update ::
  "('ie, 'pe, 's) env \<Rightarrow> invoice_update \<Rightarrow> ('s world, app_error, unit) cmd" where
  "handle_invoice_update env u =
     matchC (find_invoice env (iu_payment_hash u))
       (\<lambda>e. if is_invoice_not_found e then retC () else throwC (AppInvoice (InvoiceFind e)))
       (\<lambda>invoice. bindC (draw (e_now env)) (\<lambda>now. apply_invoice_update env u invoice now))"

section \<open>The dispatcher of listeners\<close>

text \<open>The \<open>Live\<close> dispatcher: the set of active hashes, and the listener tasks it has started and that
  have not finished.\<close>

record dispatcher =
  dp_active :: "payment_hash set"
  dp_tasks :: "payment_hash list"

definition spawn_listener_for :: "payment_hash \<Rightarrow> dispatcher \<Rightarrow> dispatcher" where
  "spawn_listener_for h d =
     (if h \<in> dp_active d then d
      else d\<lparr>dp_active := insert h (dp_active d), dp_tasks := dp_tasks d @ [h]\<rparr>)"

text \<open>The end of a listener task, for whatever reason: it releases its slot.\<close>

definition listener_exit :: "payment_hash \<Rightarrow> dispatcher \<Rightarrow> dispatcher" where
  "listener_exit h d = d\<lparr>dp_active := dp_active d - {h}, dp_tasks := remove1 h (dp_tasks d)\<rparr>"

inductive dispatcher_step :: "dispatcher \<Rightarrow> dispatcher \<Rightarrow> bool" where
  spawn: "dispatcher_step d (spawn_listener_for h d)"
| exit: "h \<in> set (dp_tasks d) \<Longrightarrow> dispatcher_step d (listener_exit h d)"

definition dispatcher_new :: dispatcher where
  "dispatcher_new = \<lparr>dp_active = {}, dp_tasks = []\<rparr>"

inductive dispatcher_reachable :: "dispatcher \<Rightarrow> bool" where
  new: "dispatcher_reachable dispatcher_new"
| step: "dispatcher_reachable d \<Longrightarrow> dispatcher_step d d' \<Longrightarrow> dispatcher_reachable d'"

inductive_cases dispatcher_stepE: "dispatcher_step d d'"

text \<open>\<open>InvoiceUpdateDispatcher\<close> in each of its modes: the one that starts listeners, one that ignores the call, and
  one that only notes the hash.\<close>

datatype dispatcher_mode = LiveMode dispatcher | NoOp | Recording "payment_hash list"

definition dispatcher_for_test :: dispatcher_mode where
  "dispatcher_for_test = NoOp"

definition recording_for_test :: dispatcher_mode where
  "recording_for_test = Recording []"

fun recorded :: "dispatcher_mode \<Rightarrow> payment_hash list" where
  "recorded (Recording hashes) = hashes"
| "recorded _ = []"

fun dispatch_listener_for :: "payment_hash \<Rightarrow> dispatcher_mode \<Rightarrow> dispatcher_mode" where
  "dispatch_listener_for h (LiveMode inner) = LiveMode (spawn_listener_for h inner)"
| "dispatch_listener_for h NoOp = NoOp"
| "dispatch_listener_for h (Recording hashes) = Recording (hashes @ [h])"

text \<open>The recording dispatcher is a complete account of the calls, in their order; the live one has a listener for
  each of them, at most one per hash.\<close>

lemma recorded_calls: "recorded (fold dispatch_listener_for hs recording_for_test) = hs"
proof -
  have "fold dispatch_listener_for hs (Recording acc) = Recording (acc @ hs)" for acc
    by (induction hs arbitrary: acc) simp_all
  then show ?thesis by (simp add: recording_for_test_def)
qed

lemma live_calls:
  "fold dispatch_listener_for hs (LiveMode dispatcher_new) =
     LiveMode \<lparr>dp_active = set hs, dp_tasks = rev (remdups (rev hs))\<rparr>"
proof (induction hs rule: rev_induct)
  case (snoc h hs)
  then show ?case by (auto simp: spawn_listener_for_def)
qed (simp add: dispatcher_new_def)

section \<open>Effects of the terminal writers\<close>

definition invoice_event_for ::
  "('ie, 'pe, 's) env \<Rightarrow> gateway_domain_event \<Rightarrow> payment_hash \<Rightarrow> milli_satoshi \<Rightarrow> new_outbox_event \<Rightarrow> bool" where
  "invoice_event_for env d h amt ev \<longleftrightarrow>
     no_domain_event ev = d \<and> no_reference_id ev = hash_to_hex (e_hex env) h \<and>
     no_correlation_id ev = hash_to_hex (e_hex env) h \<and> no_amount_sat ev = whole_sat amt"

text \<open>One commit that moves invoice \<open>i\<close> to \<open>st\<close> together with the event \<open>d\<close> that reports it.\<close>

definition invoice_commit ::
  "('ie, 'pe, 's) env \<Rightarrow> invoice_state \<Rightarrow> gateway_domain_event \<Rightarrow> invoice_id \<Rightarrow> payment_hash \<Rightarrow> milli_satoshi \<Rightarrow>
   effect list \<Rightarrow> bool" where
  "invoice_commit env st d i h amt t \<longleftrightarrow>
     (\<exists>ev. t = [ECommit [WUpdateInvoice i st, WPublish ev]] \<and> invoice_event_for env d h amt ev)"

abbreviation settled_commit where
  "settled_commit env \<equiv> invoice_commit env Settled LightningInvoiceSettled"

abbreviation canceled_commit where
  "canceled_commit env \<equiv> invoice_commit env Canceled LightningInvoiceCanceled"

abbreviation held_commit where
  "held_commit env \<equiv> invoice_commit env Held LightningHtlcHeld"

definition no_panic :: "app_error + 'a \<Rightarrow> bool" where
  "no_panic r \<longleftrightarrow> (\<forall>m. r \<noteq> Inl (AppPanic m))"

lemma no_panic_simps [simp]:
  "no_panic (Inr x)" "no_panic (Inl (AppInvoice e))" "no_panic (Inl (AppLnd l))" "no_panic (Inl (AppDb m))"
  "no_panic (Inl (AppOutbox q))"
  by (simp_all add: no_panic_def)

definition never_panics :: "('s world, app_error, 'a) cmd \<Rightarrow> bool" where
  "never_panics m \<longleftrightarrow> (\<forall>w. no_panic (fst (m w)))"

lemma never_panics_bind: "never_panics m \<Longrightarrow> (\<And>x. never_panics (f x)) \<Longrightarrow> never_panics (bindC m f)"
  unfolding never_panics_def bindC_def
  by (auto simp: no_panic_def split: prod.splits sum.splits) (metis fst_conv)+

lemma never_panics_intros:
  "never_panics (retC x)" "never_panics (draw g)" "never_panics (throwC (AppInvoice e))"
  "never_panics (mapErrC (\<lambda>e. AppInvoice (InvoiceModify e)) m)" "never_panics (mapErrC AppOutbox m')"
  "never_panics (mapErrC AppLnd m'')"
  by (auto simp: never_panics_def no_panic_def draw_def mapErrC_def map_err_def split: prod.splits sum.splits)

lemma never_panics_tx: "never_panics m \<Longrightarrow> never_panics (in_tx env AppDb m)"
  unfolding never_panics_def in_tx_def Let_def
  by (auto simp: no_panic_def split: option.splits prod.splits sum.splits commit_result.splits) (metis fst_conv)+

lemma never_panics_match:
  "(\<And>e. never_panics (g e)) \<Longrightarrow> (\<And>x. never_panics (k x)) \<Longrightarrow> never_panics (matchC m g k)"
  unfolding never_panics_def matchC_def by (simp split: prod.split sum.split)

lemma never_panics_found:
  "(\<And>s x. f s = Inr x \<Longrightarrow> never_panics (k x)) \<Longrightarrow> (\<And>e. never_panics (g e)) \<Longrightarrow>
     never_panics (matchC (query env infra f) g k)"
  unfolding never_panics_def matchC_def query_def Let_def
  by (auto split: option.splits sum.splits)

lemma settle_Executed:
  assumes "settle_invoice E t i = (Inr Executed, i')"
  shows "inv_id i' = inv_id i" "inv_state i' = Settled" "inv_state i = Held"
    "inv_held_amount_msat i' = inv_held_amount_msat i"
  using assms by (auto simp: settle_invoice_def split: if_splits)

lemma cancel_Executed:
  assumes "cancel_invoice E c t i = (Inr Executed, i')"
  shows "inv_id i' = inv_id i" "inv_state i' = Canceled" "inv_state i \<in> {Open, Held}"
  using assms by (auto simp: cancel_invoice_def split: if_splits)

lemma held_Executed:
  assumes "mark_held E a t i = (Inr Executed, i')"
  shows "inv_id i' = inv_id i" "inv_state i' = Held" "inv_state i = Open"
  using assms by (auto simp: mark_held_def split: if_splits)

text \<open>The common shape of the three writers.\<close>

lemma commit_writes:
  assumes "inv_id i' = i" "inv_state i' = st" "\<And>ts. invoice_event_for env d h amt (mk ts)"
  shows "emits (in_tx env AppDb (
      bindC (mapErrC (\<lambda>e. AppInvoice (InvoiceModify e)) (update_invoice_in_op env i')) (\<lambda>_.
      bindC (draw (e_now env)) (\<lambda>ts.
      bindC (mapErrC AppOutbox (publish_in_tx env (mk ts))) (\<lambda>_. retC ())))))
    (\<lambda>_ t. t = [] \<or> invoice_commit env st d i h amt t)"
  using assms unfolding stmt_defs
  by (intro emits_tx [where P = "\<lambda>_ ws. invoice_commit env st d i h amt [ECommit ws]"] writes_rules)
    (auto simp: invoice_commit_def)

lemma commit_settle_emits:
  "emits (commit_settle env x h amt) (\<lambda>_ t. t = [] \<or> settled_commit env (inv_id x) h amt t)"
proof -
  have "emits (case settle_invoice (e_ies env) now x of
       (Inl e, _) \<Rightarrow> throwC (AppInvoice e) | (Inr AlreadyApplied, _) \<Rightarrow> retC ()
     | (Inr Executed, i) \<Rightarrow> (case inv_held_amount_msat i of
            None \<Rightarrow> throwC (AppPanic ''settle requires Held; mark_held sets held_amount_msat'')
          | Some held \<Rightarrow>
              in_tx env AppDb (
                bindC (mapErrC (\<lambda>e. AppInvoice (InvoiceModify e)) (update_invoice_in_op env i)) (\<lambda>_.
                bindC (draw (e_now env)) (\<lambda>ts.
                bindC (mapErrC AppOutbox (publish_in_tx env
                  (for_lightning_invoice_settled (hash_to_hex (e_hex env) h) (hash_to_hex (e_hex env) h)
                     (whole_sat amt) ts (md held)))) (\<lambda>_.
                retC ()))))))
     (\<lambda>_ t. t = [] \<or> settled_commit env (inv_id x) h amt t)" for now md
    by (auto intro!: emits_ret emits_throw commit_writes dest: settle_Executed
        simp: invoice_event_for_def outbox_ctors
        split: prod.split sum.split idempotent.split option.split)
  then show ?thesis
    unfolding commit_settle_def by (auto intro!: emits_bind emits_draw)
qed

lemma commit_cancel_emits:
  "emits (commit_cancel env x h reason amt) (\<lambda>_ t. t = [] \<or> canceled_commit env (inv_id x) h amt t)"
  unfolding commit_cancel_def
  by (auto intro!: emits_bind emits_draw emits_ret emits_throw commit_writes dest: cancel_Executed
        simp: invoice_event_for_def outbox_ctors
        split: prod.split sum.split idempotent.split option.split)

lemma transition_to_held_emits:
  "emits (transition_to_held env x h amt now) (\<lambda>r t. t = [] \<or> held_commit env (inv_id x) h amt t)"
  unfolding transition_to_held_def
  by (auto intro!: emits_ret emits_throw commit_writes dest: held_Executed
        simp: invoice_event_for_def outbox_ctors
        split: prod.split sum.split idempotent.split)

lemma commit_settle_never_panics:
  assumes "inv_state x = Held \<Longrightarrow> inv_held_amount_msat x \<noteq> None"
  shows "never_panics (commit_settle env x h amt)"
proof -
  have held: "settle_invoice (e_ies env) t x = (Inr Executed, i) \<Longrightarrow> inv_held_amount_msat i = None \<Longrightarrow> False" for t i
    using settle_Executed assms by metis
  show ?thesis
    unfolding commit_settle_def
    by (auto intro!: never_panics_bind never_panics_tx never_panics_intros dest: held
        split: prod.split sum.split idempotent.split option.split)
qed

lemma commit_cancel_never_panics: "never_panics (commit_cancel env x h reason amt)"
  unfolding commit_cancel_def
  by (auto intro!: never_panics_bind never_panics_tx never_panics_intros
      split: prod.split sum.split idempotent.split option.split)

section \<open>Effects of settling and of updates\<close>

text \<open>What follows a lookup of invoice \<open>x\<close> (held in the database) at LND: the preimage is released
  only if LND still holds the payment, and the state that is committed is the one LND reports or,
  after the release, \<open>Settled\<close>; always with the amount LND reports.\<close>

definition after_lookup ::
  "('ie, 'pe, 's) env \<Rightarrow> 'ie invoice \<Rightarrow> payment_hash \<Rightarrow> (lnd_error + invoice_update) \<Rightarrow> effect list \<Rightarrow> bool" where
  "after_lookup env x h lk t \<longleftrightarrow>
     (case lk of
        Inl _ \<Rightarrow> t = []
      | Inr u \<Rightarrow>
          (case iu_state u of
             LndAccepted \<Rightarrow> (\<exists>t'. t = ELndSettle (inv_payment_preimage x) # t' \<and>
               (t' = [] \<or> settled_commit env (inv_id x) h (iu_amt_paid_msat u) t'))
           | LndSettled \<Rightarrow> t = [] \<or> settled_commit env (inv_id x) h (iu_amt_paid_msat u) t
           | LndCanceled \<Rightarrow> t = [] \<or> canceled_commit env (inv_id x) h (iu_amt_paid_msat u) t
           | LndOpen \<Rightarrow> t = []))"

definition held_in_db :: "('ie, 'pe, 's) env \<Rightarrow> payment_hash \<Rightarrow> 'ie invoice \<Rightarrow> bool" where
  "held_in_db env h x \<longleftrightarrow>
     (\<exists>s. find_invoice_by_payment_hash (e_repos env) s h = Inr x) \<and> inv_state x = Held"

definition hold_trace :: "('ie, 'pe, 's) env \<Rightarrow> payment_hash \<Rightarrow> effect list \<Rightarrow> bool" where
  "hold_trace env h t \<longleftrightarrow>
     t = [] \<or> (\<exists>x lk t'. held_in_db env h x \<and> t = ELndLookupInvoice h lk # t' \<and> after_lookup env x h lk t')"

lemma settle_on_lnd_state_emits:
  "emits (settle_on_lnd_state env x h u) (\<lambda>_ t. after_lookup env x h (Inr u) t)"
proof (cases "iu_state u")
  case LndAccepted
  have "emits (commit_settle env x h (iu_amt_paid_msat u))
      (\<lambda>_ t. after_lookup env x h (Inr u) (ELndSettle (inv_payment_preimage x) # t))"
    by (rule emits_mono [OF commit_settle_emits]) (simp add: after_lookup_def LndAccepted)
  moreover have "after_lookup env x h (Inr u) [ELndSettle (inv_payment_preimage x)]"
    by (simp add: after_lookup_def LndAccepted)
  ultimately show ?thesis
    unfolding settle_on_lnd_state_def LndAccepted lnd_invoice_state.case lnd_settle_invoice_def
    by (intro emits_rules) (simp add: map_err_def split: sum.split)
qed (auto simp: settle_on_lnd_state_def after_lookup_def intro!: emits_ret
    emits_mono [OF commit_settle_emits] emits_mono [OF commit_cancel_emits])

lemma settle_hold_invoice_emits: "emits (settle_hold_invoice env h) (\<lambda>_ t. hold_trace env h t)"
proof -
  have none: "hold_trace env h []" by (simp add: hold_trace_def)
  have step: "emits (settle_on_lnd_state env x h u) (\<lambda>_ t. hold_trace env h (ELndLookupInvoice h (Inr u) # t))"
    if "held_in_db env h x" for x u
    by (rule emits_mono [OF settle_on_lnd_state_emits]) (use that in \<open>auto simp: hold_trace_def\<close>)
  have failed: "hold_trace env h [ELndLookupInvoice h (Inl e)]" if "held_in_db env h x" for x e
    using that by (auto simp: hold_trace_def after_lookup_def)
  have look: "emits (bindC (lnd_lookup_invoice env h) (\<lambda>u. settle_on_lnd_state env x h u)) (\<lambda>_ t. hold_trace env h t)"
    if "held_in_db env h x" for x
    unfolding lnd_lookup_invoice_def
    by (intro emits_rules) (use that in \<open>auto simp: map_err_def failed step split: sum.split\<close>)
  show ?thesis
    unfolding settle_hold_invoice_def find_invoice_def
    by (intro emits_match emits_query)
      (auto simp: none held_in_db_def intro!: emits_ret emits_throw look split: sum.split)
qed

lemma reconcile_is_settle: "reconcile_held_invoice env h = settle_hold_invoice env h"
  unfolding reconcile_held_invoice_def settle_hold_invoice_def settle_on_lnd_state_def [abs_def] ..

text \<open>The effects of one update of invoice \<open>h\<close>.\<close>

definition update_trace ::
  "('ie, 'pe, 's) env \<Rightarrow> invoice_update \<Rightarrow> effect list \<Rightarrow> bool" where
  "update_trace env u t \<longleftrightarrow>
     (case iu_state u of
        LndOpen \<Rightarrow> t = []
      | LndSettled \<Rightarrow> t = []
      | LndCanceled \<Rightarrow> t = [] \<or> (\<exists>i. canceled_commit env i (iu_payment_hash u) (iu_amt_paid_msat u) t)
      | LndAccepted \<Rightarrow>
          (\<exists>t1 t2. t = t1 @ t2 \<and>
             (t1 = [] \<or> (\<exists>i. held_commit env i (iu_payment_hash u) (iu_amt_paid_msat u) t1)) \<and>
             hold_trace env (iu_payment_hash u) t2))"

lemma update_traceI:
  assumes "iu_state u = LndAccepted" "hold_trace env (iu_payment_hash u) t2"
    and "t1 = [] \<or> held_commit env i (iu_payment_hash u) (iu_amt_paid_msat u) t1"
  shows "update_trace env u (t1 @ t2)"
  unfolding update_trace_def assms(1) lnd_invoice_state.case
  using assms(2,3) by (intro exI [of _ t1] exI [of _ t2]) auto

lemma apply_invoice_update_emits:
  assumes "inv_payment_hash x = iu_payment_hash u"
  shows "emits (apply_invoice_update env u x now) (\<lambda>_ t. update_trace env u t)"
proof (cases "iu_state u")
  case LndAccepted
  have settle: "emits (matchC (settle_hold_invoice env (iu_payment_hash u)) (\<lambda>_. retC ()) (\<lambda>_. retC ()))
      (\<lambda>(_ :: app_error + unit) t2. update_trace env u (t1 @ t2))"
    if "t1 = [] \<or> held_commit env (inv_id x) (iu_payment_hash u) (iu_amt_paid_msat u) t1" for t1
    by (intro emits_match emits_mono [OF settle_hold_invoice_emits])
      (auto intro!: emits_ret update_traceI [OF LndAccepted _ that] split: sum.split)
  have stop: "update_trace env u t1"
    if "t1 = [] \<or> held_commit env (inv_id x) (iu_payment_hash u) (iu_amt_paid_msat u) t1" for t1
    using update_traceI [where ?t2.0 = "[]", OF LndAccepted _ that] by (simp add: hold_trace_def)
  show ?thesis
    unfolding apply_invoice_update_def LndAccepted Let_def lnd_invoice_state.case assms
  proof (rule emits_bind, rule emits_mono [OF transition_to_held_emits])
    fix r :: "app_error + unit" and t
    assume t: "t = [] \<or> held_commit env (inv_id x) (iu_payment_hash u) (iu_amt_paid_msat u) t"
    show "case r of Inl e \<Rightarrow> update_trace env u t
      | Inr _ \<Rightarrow> emits (matchC (settle_hold_invoice env (iu_payment_hash u)) (\<lambda>_. retC ()) (\<lambda>_. retC ()))
          (\<lambda>(_ :: app_error + unit) t'. update_trace env u (t @ t'))"
      using stop [OF t] settle [OF t] by (simp split: sum.split)
  qed
qed (use assms in \<open>auto simp: apply_invoice_update_def update_trace_def intro!: emits_ret
    emits_mono [OF commit_cancel_emits]\<close>)

lemma handle_invoice_update_emits:
  assumes "gateway_repos (e_ies env) (e_pes env) (e_repos env)"
  shows "emits (handle_invoice_update env u) (\<lambda>_ t. update_trace env u t)"
proof -
  have none: "update_trace env u []"
    by (auto simp: update_trace_def hold_trace_def split: lnd_invoice_state.split)
  have step: "emits (bindC (draw (e_now env)) (\<lambda>now. apply_invoice_update env u x now)) (\<lambda>_ t. update_trace env u t)"
    if "find_invoice_by_payment_hash (e_repos env) s (iu_payment_hash u) = Inr x" for s x
    using gateway_repos.found_invoice [OF assms that]
    by (auto intro!: emits_bind emits_draw apply_invoice_update_emits)
  show ?thesis
    unfolding handle_invoice_update_def find_invoice_def
    by (intro emits_match emits_query)
      (auto simp: none intro!: emits_ret emits_throw step split: sum.split)
qed

section \<open>Effects of issuing an invoice\<close>

text \<open>The request LND gets for an invoice with preimage \<open>pre\<close>, and the row that follows it.\<close>

definition hold_params ::
  "('ie, 'pe, 's) env \<Rightarrow> new_invoice_request \<Rightarrow> preimage \<Rightarrow> add_hold_invoice_params" where
  "hold_params env req pre =
     \<lparr>ahp_payment_hash = payment_hash_of (e_sha256 env) pre, ahp_amount_msat = Some (nir_amount_msat req),
      ahp_memo = nir_memo req, ahp_expiry_seconds = nir_expiry_seconds req\<rparr>"

definition issued ::
  "('ie, 'pe, 's) env \<Rightarrow> new_invoice_request \<Rightarrow> preimage \<Rightarrow> new_invoice \<Rightarrow> bool" where
  "issued env req pre n \<longleftrightarrow>
     ni_payment_preimage n = pre \<and> ni_payment_hash n = payment_hash_of (e_sha256 env) pre \<and>
     ni_wallet_id n = nir_wallet_id req \<and> ni_amount_msat n = Some (nir_amount_msat req) \<and>
     nir_amount_msat req \<noteq> ZERO \<and> is_valid_external_id (ni_external_id n) \<and>
     (\<forall>x. nir_external_id req = Some x \<longrightarrow> ni_external_id n = x)"

definition create_trace :: "('ie, 'pe, 's) env \<Rightarrow> new_invoice_request \<Rightarrow> effect list \<Rightarrow> bool" where
  "create_trace env req t \<longleftrightarrow>
     (\<exists>ok t1. t = EOwnership (nir_wallet_id req) ok # t1 \<and>
        (t1 = [] \<or> ok \<and> (\<exists>pre t2. t1 = ELndAddHold (hold_params env req pre) # t2 \<and>
           (t2 = [] \<or> e_mode env = Live \<and> (\<exists>n. issued env req pre n \<and>
              (t2 = [ECommit [WCreateInvoice n]] \<or>
               t2 = [ECommit [WCreateInvoice n], ESpawnListener (ni_payment_hash n)]))))))"

lemma emits_spawn [emits_rules]: "Q (Inr ()) [ESpawnListener h] \<Longrightarrow> emits (spawn_listener h) Q"
  by (simp add: emits_def spawn_listener_def)

lemma persist_invoice_emits:
  assumes "gateway_repos (e_ies env) (e_pes env) (e_repos env)"
  shows "emits (persist_invoice env n) (\<lambda>_ t. t = [] \<or> e_mode env = Live \<and>
    (t = [ECommit [WCreateInvoice n]] \<or> t = [ECommit [WCreateInvoice n], ESpawnListener (ni_payment_hash n)]))"
proof (cases "e_mode env")
  case Live
  have "writes (create_invoice_in_op env n) (\<lambda>x ws. ws = [WCreateInvoice n] \<and> inv_payment_hash x = ni_payment_hash n)"
    using gateway_repos.created_invoice [OF assms] unfolding create_invoice_in_op_def
    by (auto intro!: writes_rules)
  then have "emits (create_invoice_op env n) (\<lambda>r t. case r of
      Inl _ \<Rightarrow> t = [] \<or> t = [ECommit [WCreateInvoice n]]
    | Inr x \<Rightarrow> t = [ECommit [WCreateInvoice n]] \<and> inv_payment_hash x = ni_payment_hash n)"
    unfolding create_invoice_op_def by (rule emits_tx) auto
  then show ?thesis
    unfolding persist_invoice_def Live
    by (simp, intro emits_bind emits_mapErr, elim emits_mono)
      (auto simp: map_err_def intro!: emits_rules split: sum.splits)
qed (auto simp: persist_invoice_def intro!: emits_throw)

lemma new_invoice_fields:
  assumes "new_invoice_try_new i h pre wallet (Some a) e bolt ext now = Inr n"
  shows "ni_payment_hash n = h" "ni_payment_preimage n = pre" "ni_wallet_id n = wallet" "ni_amount_msat n = Some a"
    "a \<noteq> ZERO" "ni_external_id n = ext" "ni_expiry_at n = add_seconds now (uint (effective_expiry e))"
  using assms by (auto simp: new_invoice_try_new_def Let_def ZERO_def split: if_splits)

lemma resolve_external_id_Inr:
  assumes "resolve_external_id H given h = Inr x"
  shows "is_valid_external_id x" "given = Some y \<Longrightarrow> x = y"
  using assms by (auto simp: resolve_external_id_def Let_def split: if_splits)

lemma create_invoice_emits:
  assumes "gateway_repos (e_ies env) (e_pes env) (e_repos env)"
  shows "emits (create_invoice env req) (\<lambda>_ t. create_trace env req t)"
proof -
  let ?o = "EOwnership (nir_wallet_id req) True"
  have q1: "create_trace env req [EOwnership (nir_wallet_id req) b]" for b
    by (simp add: create_trace_def)
  have q2: "create_trace env req [?o, ELndAddHold (hold_params env req pre)]" for pre
    by (auto simp: create_trace_def)
  have persist: "emits (persist_invoice env n)
      (\<lambda>_ t. create_trace env req (?o # ELndAddHold (hold_params env req pre) # t))"
    if "issued env req pre n" for pre n
    by (rule emits_mono [OF persist_invoice_emits [OF assms]]) (use that in \<open>auto simp: create_trace_def\<close>)
  have row: "issued env req pre n"
    if "resolve_external_id (e_hex env) (nir_external_id req) (payment_hash_of (e_sha256 env) pre) = Inr ext"
      "new_invoice_try_new i (payment_hash_of (e_sha256 env) pre) pre (nir_wallet_id req)
         (Some (nir_amount_msat req)) (nir_expiry_seconds req) bolt ext now = Inr n" for pre ext i bolt now n
    using new_invoice_fields [OF that(2)] resolve_external_id_Inr [OF that(1)] by (auto simp: issued_def)
  show ?thesis
    unfolding create_invoice_def call_defs Let_def
    by (intro emits_rules)
      (auto simp: q1 q2 map_err_def hold_params_def [symmetric] intro!: emits_rules persist
        split: sum.split, rule row)
qed

text \<open>The invoice that is returned has the requested amount.\<close>

lemma create_invoice_amount:
  assumes "gateway_repos (e_ies env) (e_pes env) (e_repos env)"
  shows "emits (create_invoice env req) (\<lambda>r _. case r of
      Inl e \<Rightarrow> (\<forall>msg. e \<noteq> AppPanic msg) | Inr i \<Rightarrow> inv_amount_msat i = Some (nir_amount_msat req))"
proof -
  let ?Q = "\<lambda>r (_ :: effect list). case r of
      Inl e \<Rightarrow> (\<forall>msg. e \<noteq> AppPanic msg) | Inr i \<Rightarrow> inv_amount_msat i = Some (nir_amount_msat req)"
  have persist: "emits (persist_invoice env n) ?Q" if "ni_amount_msat n = Some (nir_amount_msat req)" for n
  proof -
    have "writes (create_invoice_in_op env n) (\<lambda>x _. inv_amount_msat x = Some (nir_amount_msat req))"
      using gateway_repos.created_invoice [OF assms] that unfolding create_invoice_in_op_def
      by (auto intro!: writes_rules)
    then have "emits (create_invoice_op env n) (\<lambda>r _. case r of
        Inl _ \<Rightarrow> True | Inr x \<Rightarrow> inv_amount_msat x = Some (nir_amount_msat req))"
      unfolding create_invoice_op_def by (rule emits_tx) auto
    then show ?thesis
      unfolding persist_invoice_def
      by (auto simp: map_err_def intro!: emits_rules elim!: emits_mono split: sum.splits)
  qed
  show ?thesis
    unfolding create_invoice_def call_defs Let_def
    by (intro emits_rules)
      (auto simp: map_err_def intro!: emits_rules persist new_invoice_fields(4) split: sum.split)
qed

section \<open>Invariant of the dispatcher\<close>

definition dispatcher_inv :: "dispatcher \<Rightarrow> bool" where
  "dispatcher_inv d \<longleftrightarrow> distinct (dp_tasks d) \<and> set (dp_tasks d) = dp_active d"

lemma dispatcher_inv_step: "dispatcher_inv d \<Longrightarrow> dispatcher_step d d' \<Longrightarrow> dispatcher_inv d'"
  by (erule dispatcher_stepE)
    (auto simp: dispatcher_inv_def spawn_listener_for_def listener_exit_def set_remove1_eq split: if_splits)

lemma dispatcher_reachable_inv: "dispatcher_reachable d \<Longrightarrow> dispatcher_inv d"
  by (induction rule: dispatcher_reachable.induct)
    (auto simp: dispatcher_new_def dispatcher_inv_def [of "\<lparr>dp_active = _, dp_tasks = _\<rparr>"] dest: dispatcher_inv_step)

lemma settlement_panic_free:
  assumes "gateway_repos (e_ies env) (e_pes env) (e_repos env)"
  shows "never_panics (settle_hold_invoice env h)" and "never_panics (handle_invoice_update env u)"
proof -
  have held: "never_panics (commit_settle env x h' a)"
    if "find_invoice_by_payment_hash (e_repos env) s k = Inr x" for s k x h' a
    using gateway_repos.found_held_has_amount [OF assms that] by (intro commit_settle_never_panics)
  have settle: "never_panics (settle_hold_invoice env h')" for h'
    unfolding settle_hold_invoice_def find_invoice_def settle_on_lnd_state_def call_defs
    by (auto intro!: never_panics_found never_panics_bind never_panics_intros commit_cancel_never_panics
        split: lnd_invoice_state.split) (rule held, assumption)+
  show "never_panics (settle_hold_invoice env h)" by (rule settle)
  show "never_panics (handle_invoice_update env u)"
    unfolding handle_invoice_update_def find_invoice_def apply_invoice_update_def transition_to_held_def Let_def
    using settle
    by (auto intro!: never_panics_found never_panics_bind never_panics_tx never_panics_intros commit_cancel_never_panics
        never_panics_match split: lnd_invoice_state.split prod.split sum.split idempotent.split)
qed

section \<open>Properties\<close>




text \<open>C29. The \<open>expect\<close> of \<open>commit_settle\<close> never fires: on every repository that returns reachable
  invoices, settling a held invoice and handling an update never panic.\<close>

theorem settlement_never_panics:
  assumes "gateway_repos (e_ies env) (e_pes env) (e_repos env)"
  shows "no_panic (fst (settle_hold_invoice env h w)) \<and> no_panic (fst (handle_invoice_update env u w))"
  using settlement_panic_free [OF assms] by (simp add: never_panics_def)

theorem settlement_never_panics_witness:
  "no_panic (fst (settle_hold_invoice ref_env (PaymentHash (replicate 32 7)) ref_world))"
  using settlement_never_panics [of ref_env] by (simp add: ref_env_def ref_gateway.gateway_repos_axioms)

text \<open>C17. Issuing an invoice: the ownership check comes first and gates everything; the external id is
  validated before LND is asked for the HODL invoice; the row that is committed has the hash LND
  was given, the preimage of that hash, the wallet, amount and external id of the request; nothing
  is committed in dry-run mode; and the listener for that hash is started only after the commit.\<close>

theorem create_invoice_protocol:
  assumes "gateway_repos (e_ies env) (e_pes env) (e_repos env)"
  shows "\<exists>t. w_trace (snd (create_invoice env req w)) = w_trace w @ t \<and> create_trace env req t"
  using create_invoice_emits [OF assms] unfolding emits_def by (metis prod.collapse)

definition sample_invoice_request :: new_invoice_request where
  "sample_invoice_request = \<lparr>nir_caller_auth = CallerAuth ''token'' ''user'', nir_wallet_id = WalletId 5,
     nir_amount_msat = MilliSatoshi 25000, nir_expiry_seconds = 3600, nir_memo = None, nir_external_id = Some ''a-1''\<rparr>"

theorem create_invoice_protocol_witness:
  "\<exists>t. w_trace (snd (create_invoice ref_env sample_invoice_request ref_world)) = w_trace ref_world @ t \<and>
     create_trace ref_env sample_invoice_request t"
  by (rule create_invoice_protocol) (simp add: ref_env_def ref_gateway.gateway_repos_axioms)

text \<open>An invoice without an external id always gets a valid one: the hex form of any 32-byte hash
  passes the format check, so the default is never refused.\<close>

lemma default_external_id_valid:
  assumes "hex_crate H" "wf_hash h"
  shows "resolve_external_id H None h = Inr (hash_to_hex H h)"
proof -
  obtain bs where h: "h = PaymentHash bs" "length bs = 32"
    using assms(2) by (cases h) (simp add: wf_hash_def)
  have "list_all external_id_byte ''0123456789abcdef''" by code_simp
  then have "list_all external_id_byte (hex_encode H bs)"
    using hex_crate.encode_lowercase [OF assms(1), of bs] by (auto simp: list_all_iff simp del: set_simps)
  with h hex_crate.encode_length [OF assms(1), of bs] show ?thesis
    by (simp add: resolve_external_id_def is_valid_external_id_def hash_to_hex_def)
qed



text \<open>The order of \<open>create_invoice\<close>: an amount of zero is refused only after LND has been asked
  for the invoice, so the node is left with an amountless HODL invoice the gateway has no row for.\<close>

lemma zero_amount_reaches_lnd:
  assumes "nir_amount_msat req = ZERO" "e_ownership env (Suc (w_step w)) (nir_caller_auth req) (nir_wallet_id req) = Inr ()"
    and "nir_external_id req = Some x" "is_valid_external_id x"
    and "\<And>n p. \<exists>b. e_lnd_add_hold env n p = Inr b"
  shows "fst (create_invoice env req w) = Inl (AppInvoice InvInvalidAmount) \<and>
    w_trace (snd (create_invoice env req w)) =
      w_trace w @ [EOwnership (nir_wallet_id req) True,
        ELndAddHold (hold_params env req (e_preimage env (Suc (Suc (w_step w)))))]"
proof -
  obtain b where "e_lnd_add_hold env (Suc (Suc (Suc (w_step w))))
      (hold_params env req (e_preimage env (Suc (Suc (w_step w))))) = Inr b"
    using assms(5) by blast
  with assms(1-4) show ?thesis
    by (simp add: create_invoice_def bindC_def draw_def call_defs call_def mapErrC_def map_err_def Let_def
        resolve_external_id_def new_invoice_try_new_def ZERO_def hold_params_def)
qed

end
