(* ===== verification/Jobs.thy ===== *)
theory Jobs
  imports App_Payments App_Invoices
begin

text \<open>
  The scheduled jobs of \<open>src/job/\<close>: the reconciliation of held invoices, the boot-time recovery of
  per-hash listeners and the orphan-hold sweep. The scheduler itself is the \<open>job\<close> crate; a run is
  a command that ends in a completion or an error.
\<close>

section \<open>Runs\<close>

definition RECONCILIATION_SWEEP_LIMIT :: i64 where
  "RECONCILIATION_SWEEP_LIMIT = 1000"

definition RECONCILIATION_SWEEP_INTERVAL :: nat where
  "RECONCILIATION_SWEEP_INTERVAL = 300"

datatype job_completion = Complete | RescheduleIn nat

fun reconcile_each :: "('ie, 'pe, 's) env \<Rightarrow> payment_hash list \<Rightarrow> ('s world, app_error, unit) cmd" where
  "reconcile_each env [] = retC ()"
| "reconcile_each env (h # hs) =
     matchC (reconcile_held_invoice env h) (\<lambda>_. reconcile_each env hs) (\<lambda>_. reconcile_each env hs)"

definition invoice_reconciliation_sweep :: "('ie, 'pe, 's) env \<Rightarrow> ('s world, app_error, job_completion) cmd" where
  "invoice_reconciliation_sweep env =
     bindC (mapErrC AppInvoice (query env InvSqlx (\<lambda>s.
       list_held RECONCILIATION_SWEEP_LIMIT (invoice_rows (e_repos env) s)))) (\<lambda>held.
     bindC (reconcile_each env held) (\<lambda>_.
     retC (RescheduleIn RECONCILIATION_SWEEP_INTERVAL)))"

text \<open>\<open>list_open_invoices\<close>: the ids, then one load each; a row that fails to load is skipped.\<close>

fun load_each :: "('ie, 'pe, 's) env \<Rightarrow> invoice_id list \<Rightarrow> ('s world, app_error, 'ie invoice list) cmd" where
  "load_each env [] = retC []"
| "load_each env (i # is) =
     matchC (query env EsFindOther (\<lambda>s. find_invoice_by_id (e_repos env) s i))
       (\<lambda>_. load_each env is)
       (\<lambda>x. bindC (load_each env is) (\<lambda>xs. retC (x # xs)))"

definition list_open_invoices :: "('ie, 'pe, 's) env \<Rightarrow> ('s world, app_error, 'ie invoice list) cmd" where
  "list_open_invoices env =
     bindC (mapErrC AppInvoice (query env InvSqlx (\<lambda>s. Inr (open_invoice_ids (invoice_rows (e_repos env) s)))))
       (load_each env)"

fun spawn_each :: "payment_hash list \<Rightarrow> ('s world, app_error, unit) cmd" where
  "spawn_each [] = retC ()"
| "spawn_each (h # hs) = bindC (spawn_listener h) (\<lambda>_. spawn_each hs)"

definition run_invoice_subscription_recovery_sweep :: "('ie, 'pe, 's) env \<Rightarrow> ('s world, app_error, unit) cmd" where
  "run_invoice_subscription_recovery_sweep env =
     bindC (list_open_invoices env) (\<lambda>invoices. spawn_each (map inv_payment_hash invoices))"

definition invoice_subscription_recovery_sweep ::
  "('ie, 'pe, 's) env \<Rightarrow> ('s world, app_error, job_completion) cmd" where
  "invoice_subscription_recovery_sweep env =
     bindC (run_invoice_subscription_recovery_sweep env) (\<lambda>_. retC Complete)"

definition ORPHAN_HOLD_IDLE_THRESHOLD :: int where
  "ORPHAN_HOLD_IDLE_THRESHOLD = 600 * 10 ^ 9"

definition ORPHAN_HOLD_SWEEP_LIMIT :: i64 where
  "ORPHAN_HOLD_SWEEP_LIMIT = 1000"

definition ORPHAN_HOLD_SWEEP_INTERVAL :: nat where
  "ORPHAN_HOLD_SWEEP_INTERVAL = 12 * 60 * 60"

definition orphan_hold_sweep :: "('ie, 'pe, 's) env \<Rightarrow> ('s world, app_error, job_completion) cmd" where
  "orphan_hold_sweep env =
     bindC (sweep_orphan_holds env ORPHAN_HOLD_IDLE_THRESHOLD ORPHAN_HOLD_SWEEP_LIMIT) (\<lambda>_.
     retC (RescheduleIn ORPHAN_HOLD_SWEEP_INTERVAL))"

text \<open>What the initializers register with the job service: the type of the job and the runner they build.\<close>

record 's job_initializer =
  ji_job_type :: string
  ji_init :: "('s world, app_error, job_completion) cmd"

definition recovery_sweep_initializer :: "('ie, 'pe, 's) env \<Rightarrow> 's job_initializer" where
  "recovery_sweep_initializer app =
     \<lparr>ji_job_type = ''invoice_subscription_recovery_sweep'', ji_init = invoice_subscription_recovery_sweep app\<rparr>"

definition reconciliation_sweep_initializer :: "('ie, 'pe, 's) env \<Rightarrow> 's job_initializer" where
  "reconciliation_sweep_initializer app =
     \<lparr>ji_job_type = ''invoice_reconciliation_sweep'', ji_init = invoice_reconciliation_sweep app\<rparr>"

definition orphan_hold_sweep_initializer :: "('ie, 'pe, 's) env \<Rightarrow> 's job_initializer" where
  "orphan_hold_sweep_initializer app = \<lparr>ji_job_type = ''orphan_hold_sweep'', ji_init = orphan_hold_sweep app\<rparr>"

section \<open>Effects\<close>

lemma reconcile_each_ok: "fst (reconcile_each env hs w) = Inr ()"
  by (induction hs arbitrary: w) (auto simp: matchC_def split: prod.split sum.split)

lemma reconcile_each_emits:
  "emits (reconcile_each env hs) (\<lambda>_ t. \<exists>ts. t = concat ts \<and> list_all2 (hold_trace env) hs ts)"
proof (induction hs)
  case Nil
  show ?case unfolding reconcile_each.simps by (rule emits_ret) simp
next
  case (Cons h hs)
  have rest: "emits (reconcile_each env hs) (\<lambda>_ t'. \<exists>ts. t @ t' = concat ts \<and> list_all2 (hold_trace env) (h # hs) ts)"
    if "hold_trace env h t" for t
  proof (rule emits_mono [OF Cons.IH], elim exE conjE)
    fix t' ts assume "t' = concat ts" "list_all2 (hold_trace env) hs ts"
    then show "\<exists>ts. t @ t' = concat ts \<and> list_all2 (hold_trace env) (h # hs) ts"
      using that by (intro exI [of _ "t # ts"]) simp
  qed
  show ?case
    unfolding reconcile_each.simps reconcile_is_settle
    by (rule emits_match, rule emits_mono [OF settle_hold_invoice_emits]) (auto simp: rest split: sum.split)
qed

lemma load_each_quiet:
  assumes "\<And>n. e_stmt_fail env n = None" "\<And>n d. e_others env n d = d"
  shows "\<exists>w'. load_each env is w =
      (Inr (List.map_filter (\<lambda>i. ok (find_invoice_by_id (e_repos env) (db_es (w_db w)) i)) is), w') \<and>
    w_trace w' = w_trace w \<and> w_db w' = w_db w"
proof (induction "is" arbitrary: w)
  case (Cons i "is")
  let ?w = "tick (interfere env w)"
  have w: "w_trace ?w = w_trace w" "w_db ?w = w_db w"
    by (simp_all add: interfere_def assms(2))
  obtain w' where "load_each env is ?w =
      (Inr (List.map_filter (\<lambda>i. ok (find_invoice_by_id (e_repos env) (db_es (w_db w)) i)) is), w')"
    "w_trace w' = w_trace w" "w_db w' = w_db w"
    using Cons.IH [of ?w] w by auto
  then show ?case
    using w
    by (cases "find_invoice_by_id (e_repos env) (db_es (w_db w)) i")
      (simp_all add: matchC_def query_def bindC_def assms(1) Let_def List.map_filter_simps ok_def)
qed (simp add: List.map_filter_simps)

lemma spawn_each_run:
  "fst (spawn_each hs w) = Inr () \<and> w_trace (snd (spawn_each hs w)) = w_trace w @ map ESpawnListener hs"
  by (induction hs arbitrary: w) (simp_all add: bindC_def spawn_listener_def)

section \<open>Properties\<close>




end
