(* ===== verification/Gateway_System.thy ===== *)
theory Gateway_System
  imports Outbox_Mirror Jobs
begin

text \<open>
  The gateway as a whole. The locale \<open>gateway_env\<close> collects what the environment promises: repositories that
  meet the contract of \<open>Entity_Store\<close>, the hex crate, and other tasks that keep the outbox consistent. Under
  it every use case of \<open>src/app/\<close> and every job of \<open>src/job/\<close> keeps the outbox consistent, whatever fails on the
  way and whatever LND and Symphony answer, and so does every sequence of them.
\<close>

section \<open>Operations of the gateway\<close>

text \<open>What the drivers of the coordinator start: API calls, updates of LND's streams, and jobs.\<close>

datatype gateway_op =
    OpSendPayment pay_request
  | OpFeeProbe fee_probe_request
  | OpCreateInvoice new_invoice_request
  | OpPaymentUpdate payment_update
  | OpInvoiceUpdate invoice_update
  | OpSettleHold payment_hash
  | OpReconcileHeld payment_hash
  | OpReconciliationSweep
  | OpRecoverySweep
  | OpOrphanSweep

fun run_op :: "('ie, 'pe, 's) env \<Rightarrow> gateway_op \<Rightarrow> 's world \<Rightarrow> 's world" where
  "run_op env (OpSendPayment req) w = snd (send_payment env req w)"
| "run_op env (OpFeeProbe req) w = snd (fee_probe env req w)"
| "run_op env (OpCreateInvoice req) w = snd (create_invoice env req w)"
| "run_op env (OpPaymentUpdate u) w = snd (handle_payment_update env u w)"
| "run_op env (OpInvoiceUpdate u) w = snd (handle_invoice_update env u w)"
| "run_op env (OpSettleHold h) w = snd (settle_hold_invoice env h w)"
| "run_op env (OpReconcileHeld h) w = snd (reconcile_held_invoice env h w)"
| "run_op env OpReconciliationSweep w = snd (invoice_reconciliation_sweep env w)"
| "run_op env OpRecoverySweep w = snd (invoice_subscription_recovery_sweep env w)"
| "run_op env OpOrphanSweep w = snd (orphan_hold_sweep env w)"

definition run_ops :: "('ie, 'pe, 's) env \<Rightarrow> gateway_op list \<Rightarrow> 's world \<Rightarrow> 's world" where
  "run_ops env ops w = fold (run_op env) ops w"

text \<open>A succeeded update from LND's payment stream vouches for the payment.\<close>

definition update_vouched :: "(payment_hash \<Rightarrow> preimage \<Rightarrow> bool) \<Rightarrow> payment_update \<Rightarrow> bool" where
  "update_vouched paid u \<longleftrightarrow>
     (case pu_payment_preimage u of None \<Rightarrow> True | Some pre \<Rightarrow> pu_status u = Succeeded \<longrightarrow> paid (pu_payment_hash u) pre)"

fun op_vouched :: "(payment_hash \<Rightarrow> preimage \<Rightarrow> bool) \<Rightarrow> gateway_op \<Rightarrow> bool" where
  "op_vouched paid (OpPaymentUpdate u) \<longleftrightarrow> update_vouched paid u"
| "op_vouched paid _ \<longleftrightarrow> True"

text \<open>Another instance of the gateway on the same database: between the steps of this one it runs whole
  operations, in an environment of its own.\<close>

definition on_db :: "'s db \<Rightarrow> 's world" where
  "on_db d = \<lparr>w_db = d, w_pending = [], w_step = 0, w_trace = []\<rparr>"

definition beside :: "('ie, 'pe, 's) env \<Rightarrow> (nat \<Rightarrow> gateway_op list) \<Rightarrow> ('ie, 'pe, 's) env \<Rightarrow> ('ie, 'pe, 's) env" where
  "beside peer sched env = env\<lparr>e_others := (\<lambda>n d. w_db (run_ops peer (sched n) (on_db d)))\<rparr>"

section \<open>The environment\<close>

text \<open>\<open>paid\<close> and \<open>received\<close> are what LND vouches for: the answers of the environment justify them.\<close>

locale gateway_env = entity_store "e_ies env" "e_pes env" "e_repos env" store_ok plog ilog punsaved iunsaved +
  hex: hex_crate "e_hex env"
  for env :: "('ie, 'pe, 's) env" and store_ok plog ilog punsaved iunsaved +
  fixes paid :: "payment_hash \<Rightarrow> preimage \<Rightarrow> bool" and received :: "payment_hash \<Rightarrow> bool"
  assumes send_paid:
      "e_lnd_send env n p = Inr r \<Longrightarrow> spr_status r = Succeeded \<Longrightarrow> spr_payment_preimage r = Some pre \<Longrightarrow>
       paid (spr_payment_hash r) pre"
    and lookup_paid:
      "e_lnd_lookup_payment env n h = Some (Inr r) \<Longrightarrow> spr_status r = Succeeded \<Longrightarrow> spr_payment_preimage r = Some pre \<Longrightarrow>
       paid h pre"
    and lookup_received: "e_lnd_lookup_invoice env n h = Inr u \<Longrightarrow> iu_state u = LndSettled \<Longrightarrow> received h"
    and settle_received: "e_lnd_settle env n pre = Inr () \<Longrightarrow> received (payment_hash_of (e_sha256 env) pre)"
    and others_keep: "stable (books_ok paid received (e_sha256 env) (e_hex env) store_ok plog ilog) env"
begin

abbreviation consistent :: "'s db \<Rightarrow> bool" where
  "consistent \<equiv> books_ok paid received (e_sha256 env) (e_hex env) store_ok plog ilog"

abbreviation vouched_logs :: "'s \<Rightarrow> bool" where
  "vouched_logs s \<equiv> vouched paid received (e_sha256 env) (plog s) (ilog s)"

text \<open>A payment in memory that stands for the stored one of hash \<open>h\<close>, with nothing unsaved but pending marks.\<close>

definition tracked :: "payment_hash \<Rightarrow> 'pe payment \<Rightarrow> bool" where
  "tracked h p \<longleftrightarrow>
     payment_reachable (e_pes env) p \<and> pay_payment_hash p = h \<and> list_all is_Pending (punsaved (pay_events p))"

definition loaded :: "payment_hash \<Rightarrow> 'ie invoice \<Rightarrow> bool" where
  "loaded h i \<longleftrightarrow> invoice_reachable (e_ies env) i \<and> inv_payment_hash i = h \<and> iunsaved (inv_events i) = []"

lemma consistent_rollback:
  "consistent d \<Longrightarrow> db_nextval d = n \<Longrightarrow> 0 < sint n \<Longrightarrow> consistent (rollback d (d'\<lparr>db_nextval := n + 1\<rparr>))"
  by (simp add: books_defs rollback_def table_ok_bump)

lemma consistent_store: "consistent d \<Longrightarrow> store_ok (db_es d)"
  by (simp add: books_defs)

lemma rollback_same: "db_nextval d' = db_nextval d \<Longrightarrow> rollback d d' = d"
  by (simp add: rollback_def)

lemma keeps_find_payment: "keeps consistent (find_payment env h) (tracked h)"
  unfolding find_payment_def
  by (rule keeps_query [OF others_keep]) (use found_payment loaded_payment in \<open>auto simp: tracked_def\<close>)

lemma keeps_find_invoice: "keeps consistent (find_invoice env h) (loaded h)"
  unfolding find_invoice_def
  by (rule keeps_query [OF others_keep]) (use found_invoice loaded_invoice in \<open>auto simp: loaded_def\<close>)

lemma keeps_maybe_find_invoice: "keeps consistent (maybe_find_invoice env h) (\<lambda>x. \<forall>i. x = Some i \<longrightarrow> loaded h i)"
  unfolding maybe_find_invoice_def
  by (rule keeps_query [OF others_keep])
    (use found_invoice loaded_invoice in \<open>auto simp: loaded_def split: sum.splits es_find_error.splits\<close>)

section \<open>Payments\<close>

text \<open>The stored log of an open payment that an update extends.\<close>

lemma open_payment_log:
  assumes d: "store_ok (db_es d)" and p: "tracked h p" "pay_state p \<in> {Initiated, Pending}"
    and p': "payment_reachable (e_pes env) p'" "pay_payment_hash p' = h" "pay_events p' = ee_push (e_pes env) x (pay_events p)"
    and u: "update_payment_row (e_repos env) (db_es d) p' = Inr (q, s')"
  obtains w a f b k t rest where
    "plog (db_es d) h = EvInitiated h w a f b k t # rest" "a = pay_amount_msat p"
    "\<not> list_ex is_Completed (plog (db_es d) h)" "store_ok s'" "ilog s' = ilog (db_es d)"
    "plog s' = (plog (db_es d))(h := plog (db_es d) h @ punsaved (pay_events p) @ [x])"
proof -
  note c = payment_container.intro [OF pes_laws]
  let ?l = "plog (db_es d) h" and ?it = "ee_iter_all (e_pes env) (pay_events p)"
  note app = payment_appended [OF d p'(1) u, unfolded p'(2)]
  have it: "?it = ?l @ punsaved (pay_events p)"
    using app by (simp add: p'(3) punsaved_push es_events.iter_push [OF pes_laws])
  from p(1) have r: "payment_reachable (e_pes env) p" "pay_payment_hash p = h" "list_all is_Pending (punsaved (pay_events p))"
    by (simp_all add: tracked_def)
  note log = payment_container.payment_reachable_log [OF c r(1)]
  from pay_log_run [OF log] obtain k0 w a f b k t rest where
    first: "?it = EvInitiated k0 w a f b k t # rest" "pay_run Initiated rest = Some (pay_state p)" by blast
  note fields = payment_log_fields [OF payment_container.payment_reachable_hydrates [OF c r(1)] first(1)]
  have nc: "\<not> list_ex is_Completed ?it"
    using pay_log_counts [OF log] p(2) countP_0_iff [of is_Completed ?it] by (auto simp: list_ex_iff)
  have "?l \<noteq> []"
  proof
    assume "?l = []"
    with it first(1) have "punsaved (pay_events p) = EvInitiated k0 w a f b k t # rest" by simp
    with r(3) show False by simp
  qed
  then obtain rest' where l: "?l = EvInitiated k0 w a f b k t # rest'"
    using it first(1) by (metis append_Cons list.exhaust list.inject)
  have "k0 = h" "a = pay_amount_msat p" using fields first(2) r(2) by simp_all
  moreover have "\<not> list_ex is_Completed ?l" using nc it by simp
  ultimately show ?thesis
    using that [of w a f b k t rest'] l app it by (simp add: p'(3) punsaved_push es_events.iter_push [OF pes_laws])
qed

lemma payment_outcome_committed:
  assumes d: "consistent d" "db_nextval d = n" "0 < sint n" and p: "tracked h p" "pay_state p \<in> {Initiated, Pending}"
    and p': "payment_reachable (e_pes env) p'" "pay_payment_hash p' = h" "pay_events p' = ee_push (e_pes env) x (pay_events p)"
    and u: "update_payment_row (e_repos env) (db_es d) p' = Inr (q, s')"
    and ev: "payment_report x = Some (no_domain_event ev)" "no_reference_id ev = hash_to_hex (e_hex env) h"
      "no_amount_sat ev = whole_sat (pay_amount_msat p)"
    and v: "completion_vouched paid h x"
  shows "consistent (d\<lparr>db_es := s', db_outbox := db_outbox d @ [publish_row n ev], db_nextval := n + 1\<rparr>)"
proof -
  from d have ok: "store_ok (db_es d)" "mirrors (e_hex env) (plog (db_es d)) (ilog (db_es d)) (db_outbox d)"
    "table_ok n (db_outbox d)" "vouched_logs (db_es d)" by (simp_all add: books_defs)
  have pe: "is_payment_event (no_domain_event ev)" using ev(1) by (cases x) auto
  from p(1) have pend: "list_all is_Pending (punsaved (pay_events p))" by (simp add: tracked_def)
  from open_payment_log [OF ok(1) p p' u] obtain w a f b k t rest where
    l: "plog (db_es d) h = EvInitiated h w a f b k t # rest" "a = pay_amount_msat p"
      "\<not> list_ex is_Completed (plog (db_es d) h)" "store_ok s'" "ilog s' = ilog (db_es d)"
      "plog s' = (plog (db_es d))(h := plog (db_es d) h @ punsaved (pay_events p) @ [x])" .
  have "vouched_logs s'"
    using vouched_payment [OF ok(4), of h "punsaved (pay_events p) @ [x]"] vouched_pending [OF pend] v l(1,5,6) by simp
  with hex.mirrors_payment_outcome [OF ok(2) l(1,3) pend ev(1) pe ev(2)] ev(3) l table_ok_publish [OF ok(3) d(3), of ev]
  show ?thesis by (simp add: books_defs)
qed

lemma keeps_outcome_tx:
  assumes p: "tracked h p" "pay_state p \<in> {Initiated, Pending}"
    and p': "payment_reachable (e_pes env) p'" "pay_payment_hash p' = h" "pay_events p' = ee_push (e_pes env) x (pay_events p)"
    and ev: "\<And>ts. payment_report x = Some (no_domain_event (ev ts)) \<and> no_reference_id (ev ts) = hash_to_hex (e_hex env) h \<and>
      no_amount_sat (ev ts) = whole_sat (pay_amount_msat p)"
    and v: "completion_vouched paid h x"
  shows "keeps consistent (in_tx env AppDb (
      bindC (mapErrC g (update_payment_in_op env p')) (\<lambda>q.
      bindC (draw (e_now env)) (\<lambda>ts. bindC (mapErrC AppOutbox (publish_in_tx env (ev ts))) (\<lambda>_. retC q))))) (\<lambda>_. True)"
  unfolding update_payment_in_op_def
  by (rule keeps_tx [OF others_keep], intro body_rules)
    (use payment_outcome_committed [OF _ _ _ p p'] consistent_rollback ev v in \<open>auto simp: rollback_def\<close>)

lemma tracked_command:
  assumes "tracked h p"
  shows "mark_pending (e_pes env) t p = (r, p') \<Longrightarrow> payment_reachable (e_pes env) p'"
    "settle_payment (e_pes env) pre fees hops t p = (r, p') \<Longrightarrow> payment_reachable (e_pes env) p'"
    "fail_payment (e_pes env) reason t p = (r, p') \<Longrightarrow> payment_reachable (e_pes env) p'"
  using payment_reachable.command [of "e_pes env" p "mark_pending (e_pes env) t" r p']
    payment_reachable.command [of "e_pes env" p "settle_payment (e_pes env) pre fees hops t" r p']
    payment_reachable.command [of "e_pes env" p "fail_payment (e_pes env) reason t" r p'] assms
  by (simp_all add: tracked_def)

lemma keeps_commit_completed:
  assumes p: "tracked h p" and a: "a = whole_sat (pay_amount_msat p)" and v: "paid h pre"
  shows "keeps consistent (commit_completed env p h a pre fees hops now) (\<lambda>_. True)"
proof (cases "settle_payment (e_pes env) pre fees hops now p")
  case (Pair r p')
  show ?thesis
  proof (cases "r = Inr Executed")
    case True
    note x = payment_command_executed(2) [OF Pair True]
    have "payment_reachable (e_pes env) p'" by (rule tracked_command(2) [OF p Pair])
    then show ?thesis
      unfolding commit_completed_def Pair True prod.case sum.case idempotent.case
      by (intro keeps_outcome_tx [OF p, where x = "EvCompleted now pre fees hops"])
        (use x p a v in \<open>auto simp: tracked_def outbox_ctors\<close>)
  next
    case False
    then show ?thesis unfolding commit_completed_def Pair
      by (auto split: sum.split idempotent.split intro!: keeps_rules)
  qed
qed

lemma keeps_commit_failed:
  assumes p: "tracked h p" and a: "a = whole_sat (pay_amount_msat p)"
  shows "keeps consistent (commit_failed env p h a reason now) (\<lambda>_. True)"
proof (cases "fail_payment (e_pes env) reason now p")
  case (Pair r p')
  show ?thesis
  proof (cases "r = Inr Executed")
    case True
    note x = payment_command_executed(3) [OF Pair True]
    have "payment_reachable (e_pes env) p'" by (rule tracked_command(3) [OF p Pair])
    then show ?thesis
      unfolding commit_failed_def Pair True prod.case sum.case idempotent.case
      by (intro keeps_outcome_tx [OF p, where x = "EvFailed now reason"])
        (use x p a in \<open>auto simp: tracked_def outbox_ctors\<close>)
  next
    case False
    then show ?thesis unfolding commit_failed_def Pair
      by (auto split: sum.split idempotent.split intro!: keeps_rules)
  qed
qed

lemma tracked_pending:
  assumes "tracked h p" "mark_pending (e_pes env) now p = (Inr r, p')"
  shows "tracked h p'" "pay_amount_msat p' = pay_amount_msat p"
proof -
  have "payment_reachable (e_pes env) p'" by (rule tracked_command(1) [OF assms])
  moreover have "p' = p \<or> p' = p\<lparr>pay_events := ee_push (e_pes env) (EvPending now) (pay_events p), pay_state := Pending\<rparr>"
    using payment_command_executed(1) [OF assms(2)] payment_command_noop(1) [OF assms(2)] by blast
  ultimately show "tracked h p'" "pay_amount_msat p' = pay_amount_msat p"
    using assms(1) by (auto simp: tracked_def punsaved_push)
qed

lemma keeps_settle_inline:
  assumes "tracked h p" "a = whole_sat (pay_amount_msat p)" "paid h pre"
  shows "keeps consistent (settle_inline env p h a pre fees hops now) (\<lambda>_. True)"
  unfolding settle_inline_def using tracked_pending [OF assms(1)] assms(2,3)
  by (auto split: prod.split sum.split intro!: keeps_rules keeps_commit_completed)

lemma keeps_fail_inline:
  assumes "tracked h p" "a = whole_sat (pay_amount_msat p)"
  shows "keeps consistent (fail_inline env p h a reason now) (\<lambda>_. True)"
  unfolding fail_inline_def using tracked_pending [OF assms(1)] assms(2)
  by (auto split: prod.split sum.split intro!: keeps_rules keeps_commit_failed)

text \<open>The mark of a payment in flight is saved without a report.\<close>

lemma payment_pending_committed:
  assumes d: "consistent d" and p: "tracked h p" "pay_state p \<in> {Initiated, Pending}"
    and p': "payment_reachable (e_pes env) p'" "pay_payment_hash p' = h"
      "pay_events p' = ee_push (e_pes env) (EvPending now) (pay_events p)"
    and u: "update_payment_row (e_repos env) (db_es d) p' = Inr (q, s')"
  shows "consistent (d\<lparr>db_es := s'\<rparr>)"
proof -
  from d have ok: "store_ok (db_es d)" "mirrors (e_hex env) (plog (db_es d)) (ilog (db_es d)) (db_outbox d)"
    "table_ok (db_nextval d) (db_outbox d)" "vouched_logs (db_es d)" by (simp_all add: books_defs)
  from p(1) have pend: "list_all is_Pending (punsaved (pay_events p) @ [EvPending now])" by (simp add: tracked_def)
  from open_payment_log [OF ok(1) p p' u] obtain w a f b k t rest where
    l: "plog (db_es d) h = EvInitiated h w a f b k t # rest" "\<not> list_ex is_Completed (plog (db_es d) h)"
      "store_ok s'" "ilog s' = ilog (db_es d)"
      "plog s' = (plog (db_es d))(h := plog (db_es d) h @ punsaved (pay_events p) @ [EvPending now])" by metis
  have "vouched_logs s'"
    using vouched_payment [OF ok(4), of h] vouched_pending [OF pend] l(1,4,5) by simp
  with hex.mirrors_payment_pending [OF ok(2) l(1,2) pend] l ok(3)
  show ?thesis by (simp add: books_defs)
qed

lemma keeps_transition_to_pending:
  assumes p: "tracked h p"
  shows "keeps consistent (transition_to_pending env p h now) (\<lambda>_. True)"
proof (cases "mark_pending (e_pes env) now p")
  case (Pair r p')
  show ?thesis
  proof (cases "r = Inr Executed")
    case True
    note x = payment_command_executed(1) [OF Pair True]
    have st: "pay_state p \<in> {Initiated, Pending}" using x by auto
    have p': "payment_reachable (e_pes env) p'" "pay_payment_hash p' = h"
      "pay_events p' = ee_push (e_pes env) (EvPending now) (pay_events p)"
      using tracked_command(1) [OF p Pair] x p by (auto simp: tracked_def)
    have up: "keeps consistent (update_payment env p') (\<lambda>_. True)"
      unfolding update_payment_def update_payment_in_op_def
      by (rule keeps_tx [OF others_keep], intro body_rules)
        (use payment_pending_committed [OF _ p st p'] in \<open>auto simp: rollback_same\<close>)
    show ?thesis
      unfolding transition_to_pending_def Pair True prod.case sum.case idempotent.case
      by (rule keeps_match, rule keeps_mono [OF up])
        (auto intro!: keeps_rules keeps_mono [OF keeps_find_payment])
  next
    case False
    then show ?thesis unfolding transition_to_pending_def Pair
      by (auto split: sum.split idempotent.split intro!: keeps_rules)
  qed
qed

lemma created_tracked:
  assumes "store_ok s" "create_payment_row (e_repos env) s n = Inr (p, s')"
  shows "tracked (np_payment_hash n) p" "pay_amount_msat p = np_amount_msat n" "pay_payment_hash p = np_payment_hash n"
proof -
  note c = payment_container.intro [OF pes_laws]
  note ins = payment_inserted [OF assms] and cr = created_payment [OF assms(2)]
  have log: "ee_iter_all (e_pes env) (pay_events p) = EvInitiated (np_payment_hash n) (np_wallet_id n) (np_amount_msat n)
      (np_max_fee_msat n) (np_bolt_invoice n) (np_destination n) (np_initiated_at n) # []"
    using ins by (simp add: first_payment_event_def)
  from cr have r: "payment_reachable (e_pes env) p" by simp
  from payment_log_fields [OF payment_container.payment_reachable_hydrates [OF c r] log]
  show "pay_amount_msat p = np_amount_msat n" and h: "pay_payment_hash p = np_payment_hash n" by simp_all
  from r h ins show "tracked (np_payment_hash n) p" by (simp add: tracked_def)
qed

lemma payment_initiated_committed:
  assumes d: "consistent d" "db_nextval d = n" "0 < sint n"
    and c: "create_payment_row (e_repos env) (db_es d) x = Inr (p, s')" and "np_max_fee_msat x \<noteq> ZERO"
    and ev: "no_domain_event ev = LightningPaymentInitiated" "no_reference_id ev = hash_to_hex (e_hex env) (np_payment_hash x)"
      "no_amount_sat ev = whole_sat (np_amount_msat x)"
  shows "consistent (d\<lparr>db_es := s', db_outbox := db_outbox d @ [publish_row n ev], db_nextval := n + 1\<rparr>)"
proof -
  from d have ok: "store_ok (db_es d)" "mirrors (e_hex env) (plog (db_es d)) (ilog (db_es d)) (db_outbox d)"
    "table_ok n (db_outbox d)" "vouched_logs (db_es d)" by (simp_all add: books_defs)
  note ins = payment_inserted [OF ok(1) c]
  from ins vouched_initiated [OF ok(4)] hex.mirrors_payment_initiated [OF ok(2) _ assms(5) ev] table_ok_publish [OF ok(3) d(3), of ev]
  show ?thesis by (simp add: books_defs)
qed

lemma keeps_persist_intent:
  assumes "np_max_fee_msat n \<noteq> ZERO" "a = whole_sat (np_amount_msat n)"
  shows "keeps consistent (persist_intent env n a)
    (\<lambda>p. tracked (np_payment_hash n) p \<and> pay_amount_msat p = np_amount_msat n)"
  unfolding persist_intent_def create_payment_in_op_def
  by (rule keeps_tx [OF others_keep], intro body_rules)
    (use assms created_tracked [OF consistent_store] payment_initiated_committed consistent_rollback in
      \<open>auto simp: rollback_def build_initiated_outbox_def outbox_ctors\<close>)

lemma keeps_dispatch:
  assumes "tracked h p" "a = whole_sat (pay_amount_msat p)"
  shows "keeps consistent (send_payment_dispatch env p h a bolt fee now) (\<lambda>_. True)"
  unfolding send_payment_dispatch_def lnd_send_payment_def
  using keeps_fail_inline [OF assms] keeps_settle_inline [OF assms] keeps_transition_to_pending [OF assms(1)] send_paid
  by (intro keeps_match keeps_call) (fastforce split: send_payment_status.split option.split intro: keeps_throw)+

lemma keeps_authorize:
  assumes "tracked h p" "a = whole_sat (pay_amount_msat p)"
  shows "keeps consistent (send_payment_authorize env p h wallet amt fee a bolt now) (\<lambda>_. True)"
  unfolding send_payment_authorize_def symphony_authorize_spend_def
  using keeps_fail_inline [OF assms] keeps_dispatch [OF assms]
  by (intro keeps_match keeps_call) auto

lemma keeps_send_ln:
  "keeps consistent (send_ln_payment env req decoded now) (\<lambda>_. True)"
  unfolding send_ln_payment_def Let_def
proof (intro keeps_bind keeps_lift keeps_draw, goal_cases)
  case (1 amount k n)
  then have amt: "di_amount_msat decoded = Some amount" by (simp add: ok_or_def split: option.splits)
  from 1(2) have n: "new_payment_try_new (e_payment_id env k) decoded (pq_wallet_id req) None (max_for amount) now = Inr n" by simp
  note f = new_payment_fields [OF n]
  have "np_amount_msat n = amount" using f(9) [OF amt refl] .
  then have "keeps consistent (persist_intent env n (whole_sat amount))
      (\<lambda>p. tracked (np_payment_hash n) p \<and> pay_amount_msat p = np_amount_msat n)"
    using f(3,8) by (intro keeps_persist_intent) simp_all
  then show ?case
    by (rule keeps_mono) (use f(1) \<open>np_amount_msat n = amount\<close> in \<open>auto intro!: keeps_authorize\<close>)
qed

text \<open>An intraledger transfer stores the completed payment and the settled invoice of its hash.\<close>

lemma loaded_command:
  assumes "loaded h i"
  shows "mark_held (e_ies env) a t i = (r, i') \<Longrightarrow> invoice_reachable (e_ies env) i'"
    "settle_invoice (e_ies env) t i = (r, i') \<Longrightarrow> invoice_reachable (e_ies env) i'"
    "settle_intraledger (e_ies env) t i = (r, i') \<Longrightarrow> invoice_reachable (e_ies env) i'"
    "cancel_invoice (e_ies env) reason t i = (r, i') \<Longrightarrow> invoice_reachable (e_ies env) i'"
  using invoice_reachable.command [of "e_ies env" i "mark_held (e_ies env) a t" r i']
    invoice_reachable.command [of "e_ies env" i "settle_invoice (e_ies env) t" r i']
    invoice_reachable.command [of "e_ies env" i "settle_intraledger (e_ies env) t" r i']
    invoice_reachable.command [of "e_ies env" i "cancel_invoice (e_ies env) reason t" r i'] assms
  by (simp_all add: loaded_def)

lemma invoice_extended:
  assumes s: "store_ok s" and i: "loaded h i"
    and i': "invoice_reachable (e_ies env) i'" "inv_payment_hash i' = h" "inv_events i' = ee_push (e_ies env) x (inv_events i)"
    and u: "update_invoice_row (e_repos env) s i' = Inr (k, s')"
  shows "store_ok s'" "plog s' = plog s" "ilog s' = (ilog s)(h := ilog s h @ [x])"
  using invoice_appended [OF s i'(1) u] i
  by (simp_all add: i' iunsaved_push es_events.iter_push [OF ies_laws] loaded_def)

lemma transfer_stored:
  assumes s: "store_ok s" and c: "create_payment_row (e_repos env) s x = Inr (p, s1)"
    and p: "settle_payment (e_pes env) pre fees hops now p = (Inr r, p1)"
    and u: "update_payment_row (e_repos env) s1 p1 = Inr (q, s2)"
    and i: "loaded (np_payment_hash x) i" "inv_state i = Open" "settle_intraledger (e_ies env) now i = (Inr r', i1)"
    and v: "update_invoice_row (e_repos env) s2 i1 = Inr (k, s3)"
  shows "store_ok s3" "plog s (np_payment_hash x) = []"
    "plog s3 = (plog s)(np_payment_hash x := [first_payment_event x, EvCompleted now pre fees hops])"
    "ilog s3 = (ilog s)(np_payment_hash x := ilog s (np_payment_hash x) @ [EvSettledIntraledger now])"
proof -
  note ins = payment_inserted [OF s c] and t = created_tracked [OF s c]
  have p1: "p1 = p\<lparr>pay_events := ee_push (e_pes env) (EvCompleted now pre fees hops) (pay_events p), pay_state := Completed,
      pay_fees_paid_msat := Some fees, pay_payment_preimage := Some pre, pay_settled_at := Some now\<rparr>"
    using p created_not_settled [OF c] by (auto simp: settle_payment_def split: if_splits)
  have r1: "payment_reachable (e_pes env) p1" by (rule tracked_command(2) [OF t(1) p])
  have h1: "pay_payment_hash p1 = np_payment_hash x"
    "ee_iter_all (e_pes env) (pay_events p1) = [first_payment_event x, EvCompleted now pre fees hops]"
    using t(3) ins by (simp_all add: p1 es_events.iter_push [OF pes_laws])
  note up = payment_appended [OF conjunct1 [OF ins] r1 u] 
  have log: "inv_log (ee_iter_all (e_ies env) (inv_events i)) Open"
    using invoice_container.reachable_log [OF invoice_container.intro [OF ies_laws], of i] i(1,2) by (simp add: loaded_def)
  have i1: "i1 = i\<lparr>inv_events := ee_push (e_ies env) (EvSettledIntraledger now) (inv_events i), inv_state := Settled\<rparr>"
    using i(2,3) inv_log_shape [OF log] by (auto simp: settle_intraledger_def already_applied_inv split: if_splits)
  have ri: "invoice_reachable (e_ies env) i1" by (rule loaded_command(3) [OF i(1,3)])
  have hi: "inv_payment_hash i1 = np_payment_hash x"
    "inv_events i1 = ee_push (e_ies env) (EvSettledIntraledger now) (inv_events i)"
    using i(1) by (simp_all add: i1 loaded_def)
  note ext = invoice_extended [OF _ i(1) ri hi v]
  show "store_ok s3" "plog s (np_payment_hash x) = []"
    "plog s3 = (plog s)(np_payment_hash x := [first_payment_event x, EvCompleted now pre fees hops])"
    "ilog s3 = (ilog s)(np_payment_hash x := ilog s (np_payment_hash x) @ [EvSettledIntraledger now])"
    using ins up ext h1 by simp_all
qed

lemma transfer_committed:
  assumes d: "consistent d" "db_nextval d = n" "0 < sint n"
    and st: "store_ok s3" "plog (db_es d) h = []"
      "plog s3 = (plog (db_es d))(h := [first_payment_event x, EvCompleted now pre fees hops])"
      "ilog s3 = (ilog (db_es d))(h := ilog (db_es d) h @ [EvSettledIntraledger now])"
    and x: "h = np_payment_hash x" "np_max_fee_msat x = ZERO"
    and ev: "no_domain_event ev = LightningIntraledgerTransferCompleted" "no_reference_id ev = hash_to_hex (e_hex env) h"
      "no_amount_sat ev = whole_sat (np_amount_msat x)"
  shows "consistent (d\<lparr>db_es := s3, db_outbox := db_outbox d @ [publish_row n ev], db_nextval := n + 1\<rparr>)"
proof -
  from d have ok: "mirrors (e_hex env) (plog (db_es d)) (ilog (db_es d)) (db_outbox d)"
    "table_ok n (db_outbox d)" "vouched_logs (db_es d)" by (simp_all add: books_defs)
  from st vouched_transfer [OF ok(3) x(2)] hex.mirrors_transfer [OF ok(1) st(2) x ev] table_ok_publish [OF ok(2) d(3), of ev]
  show ?thesis by (simp add: books_defs)
qed

lemma keeps_intraledger_commit:
  assumes i: "loaded (np_payment_hash n) i" "inv_state i = Open" and z: "np_max_fee_msat n = ZERO"
  shows "keeps consistent (intraledger_commit env n i pre sw rw now) (\<lambda>_. True)"
  unfolding intraledger_commit_def record_transfer_payment_def record_transfer_invoice_def
    create_payment_in_op_def update_payment_in_op_def update_invoice_in_op_def
proof (rule keeps_tx [OF others_keep], intro body_rules, goal_cases)
  case (1 d)
  then show ?case by simp
next
  case (2 d p s1)
  note c = this
  obtain r p1 where p: "settle_payment (e_pes env) pre ZERO [] now p = (r, p1)" by fastforce
  obtain r' i1 where j: "settle_intraledger (e_ies env) now i = (r', i1)" by fastforce
  have commit: "consistent (d\<lparr>db_es := s3, db_outbox := db_outbox d @ [publish_row (db_nextval d) ev],
      db_nextval := db_nextval d + 1\<rparr>)"
    if "r = Inr b" "r' = Inr b'" "update_payment_row (e_repos env) s1 p1 = Inr (q, s2)"
      "update_invoice_row (e_repos env) s2 i1 = Inr (k, s3)" "0 < sint (db_nextval d)"
      "no_domain_event ev = LightningIntraledgerTransferCompleted"
      "no_reference_id ev = hash_to_hex (e_hex env) (np_payment_hash n)" "no_amount_sat ev = whole_sat (np_amount_msat n)"
    for b b' q s2 k s3 ev
    using transfer_stored [OF consistent_store [OF c(1)] c(2) p [unfolded that(1)] that(3) i j [unfolded that(2)] that(4)]
    by (intro transfer_committed [OF c(1) refl that(5) _ _ _ _ refl z that(6-8)])
  show ?case
    using c consistent_rollback [OF c(1) refl] commit
    by (cases r; cases r') (auto simp: p j rollback_def outbox_ctors intro!: body_rules)
qed

lemma intraledger_no_fee: "new_payment_try_new_intraledger i d a w ts = Inr n \<Longrightarrow> np_max_fee_msat n = ZERO"
  by (auto simp: new_payment_try_new_intraledger_def bindR_Inr_iff ok_or_def split: option.splits if_splits)

lemma keeps_intraledger_authorize:
  assumes "loaded (np_payment_hash n) i" "inv_state i = Open" "np_max_fee_msat n = ZERO"
  shows "keeps consistent (intraledger_authorize env n i sw now) (\<lambda>_. True)"
  unfolding intraledger_authorize_def Let_def symphony_authorize_spend_def lnd_cancel_invoice_def
  using keeps_intraledger_commit [OF assms]
  by (auto intro!: keeps_rules)

lemma keeps_check_ownership: "keeps I (check_wallet_ownership env auth wallet) (\<lambda>_. True)"
  unfolding check_wallet_ownership_def by (auto intro!: keeps_rules)

lemma keeps_send_intraledger:
  assumes "loaded (di_payment_hash decoded) i"
  shows "keeps consistent (send_intraledger_payment env req decoded i now) (\<lambda>_. True)"
proof -
  have guard: "recipient_guard H now h i = Inr u \<Longrightarrow> inv_state i = Open" for H h u
    by (auto simp: recipient_guard_def split: invoice_state.splits if_splits)
  show ?thesis
    unfolding send_intraledger_payment_def
    by (rule keeps_bind, rule keeps_mono [OF keeps_check_ownership])
      (use assms guard in \<open>auto simp: map_err_def intra_fields intraledger_no_fee split: sum.splits
        intro!: keeps_rules keeps_intraledger_authorize\<close>)
qed

lemma keeps_route:
  "keeps consistent (route_payment env req now decoded) (\<lambda>_. True)"
  unfolding route_payment_def
  by (rule keeps_bind, rule keeps_mapErr, rule keeps_mono [OF keeps_maybe_find_invoice])
    (auto intro!: keeps_send_ln keeps_send_intraledger split: option.split)

lemma keeps_decode: "keeps I (decode_payment_request env pr) (\<lambda>_. True)"
  unfolding decode_payment_request_def by (auto intro!: keeps_rules)

lemma keeps_send_payment: "keeps consistent (send_payment env req) (\<lambda>_. True)"
  unfolding send_payment_def
  by (auto intro!: keeps_bind keeps_draw keeps_route keeps_mono [OF keeps_check_ownership] keeps_mono [OF keeps_decode])

lemma keeps_fee_probe: "keeps I (fee_probe env req) (\<lambda>_. True)"
  unfolding fee_probe_def lnd_fee_probe_def
  by (auto intro!: keeps_rules keeps_mono [OF keeps_check_ownership] keeps_mono [OF keeps_decode])

lemma keeps_verdict:
  assumes "tracked h p"
  shows "paid h pre \<Longrightarrow> keeps consistent (bindC (commit_completed env p h (whole_sat (pay_amount_msat p)) pre fees hops now) (\<lambda>_. retC x)) (\<lambda>_. True)"
    "keeps consistent (bindC (commit_failed env p h (whole_sat (pay_amount_msat p)) reason now) (\<lambda>_. retC x)) (\<lambda>_. True)"
  by (auto intro!: keeps_bind keeps_ret keeps_mono [OF keeps_commit_completed [OF assms refl]]
      keeps_mono [OF keeps_commit_failed [OF assms refl]])

lemma keeps_apply_payment_update:
  assumes "tracked (pu_payment_hash u) p" "update_vouched paid u"
  shows "keeps consistent (apply_payment_update env u p now) (\<lambda>_. True)"
proof -
  have "pay_payment_hash p = pu_payment_hash u" using assms by (simp add: tracked_def)
  then show ?thesis
    unfolding apply_payment_update_def Let_def
    using keeps_verdict [OF assms(1)] assms(2)
    by (auto simp: update_vouched_def intro!: keeps_ret keeps_throw split: send_payment_status.split option.split)
qed

lemma keeps_payment_update:
  "update_vouched paid u \<Longrightarrow> keeps consistent (handle_payment_update env u) (\<lambda>_. True)"
  unfolding handle_payment_update_def
  by (rule keeps_match, rule keeps_mono [OF keeps_find_payment])
    (auto intro!: keeps_rules keeps_apply_payment_update)

lemma keeps_lookup_payment: "keeps I (lnd_lookup_payment env h) (\<lambda>r. \<exists>n. r = e_lnd_lookup_payment env n h)"
  by (auto simp: keeps_def lnd_lookup_payment_def Let_def)

lemma keeps_orphan_hold: "keeps consistent (reconcile_orphan_hold env h) (\<lambda>_. True)"
proof -
  have "keeps consistent (apply_orphan_lookup env p h now (e_lnd_lookup_payment env n h)) (\<lambda>_. True)" if "tracked h p" for p now n
    unfolding apply_orphan_lookup_def Let_def
    by (auto intro!: keeps_ret keeps_throw keeps_verdict [OF that] intro: lookup_paid
        split: send_payment_status.split option.split sum.split)
  then show ?thesis
    unfolding reconcile_orphan_hold_def
    by (intro keeps_bind keeps_mapErr keeps_mono [OF keeps_find_payment])
      (auto intro!: keeps_rules keeps_mono [OF keeps_lookup_payment])
qed

lemma keeps_orphan_holds: "keeps consistent (reconcile_orphan_holds env hs) (\<lambda>_. True)"
proof (induction hs)
  case (Cons h hs)
  then show ?case
    unfolding reconcile_orphan_holds.simps
    by (intro keeps_match keeps_mono [OF keeps_orphan_hold] keeps_bind)
      (auto intro: keeps_mono intro!: keeps_ret)
qed (simp add: keeps_def)

lemma keeps_sweep: "keeps consistent (sweep_orphan_holds env idle limit) (\<lambda>_. True)"
  unfolding sweep_orphan_holds_def
  by (auto intro!: keeps_rules others_keep keeps_orphan_holds)

section \<open>Invoices\<close>

text \<open>The preimage of a loaded invoice that an update extends opens its hash.\<close>

lemma loaded_opens_hash:
  assumes s: "store_ok s" "vouched_logs s" and i: "loaded h i"
    and i': "invoice_reachable (e_ies env) i'" "inv_payment_hash i' = h" "inv_events i' = ee_push (e_ies env) x (inv_events i)"
    and u: "update_invoice_row (e_repos env) s i' = Inr (k, s')"
  shows "payment_hash_of (e_sha256 env) (inv_payment_preimage i) = h"
proof -
  note c = invoice_container.intro [OF ies_laws]
  have it: "ee_iter_all (e_ies env) (inv_events i) = ilog s h"
    using invoice_appended [OF s(1) i'(1) u] i by (simp add: i' iunsaved_push es_events.iter_push [OF ies_laws] loaded_def)
  from i have r: "invoice_reachable (e_ies env) i" by (simp add: loaded_def)
  from inv_log_run [OF invoice_container.reachable_log [OF c r]] obtain h0 p w a e b y t rest where
    first: "ee_iter_all (e_ies env) (inv_events i) = EvCreated h0 p w a e b y t # rest"
      "inv_run Open rest = Some (inv_state i)" by blast
  have "inv_payment_preimage i = p"
    using invoice_log_fields(2) [OF invoice_container.reachable_hydrates [OF c r] first(1)] first(2) by simp
  moreover have "list_all (settlement_vouched received (e_sha256 env) h) (ilog s h)"
    using s(2) by (simp add: vouched_def)
  ultimately show ?thesis using first(1) it by simp
qed

lemma invoice_committed:
  assumes d: "consistent d" "db_nextval d = n" "0 < sint n" and i: "loaded h i"
    and i': "invoice_reachable (e_ies env) i'" "inv_payment_hash i' = h" "inv_events i' = ee_push (e_ies env) x (inv_events i)"
    and u: "update_invoice_row (e_repos env) (db_es d) i' = Inr (k, s')"
    and ev: "invoice_report x = Some (no_domain_event ev)" "no_reference_id ev = hash_to_hex (e_hex env) h"
    and v: "payment_hash_of (e_sha256 env) (inv_payment_preimage i) = h \<Longrightarrow> settlement_vouched received (e_sha256 env) h x"
  shows "consistent (d\<lparr>db_es := s', db_outbox := db_outbox d @ [publish_row n ev], db_nextval := n + 1\<rparr>)"
proof -
  from d have ok: "store_ok (db_es d)" "mirrors (e_hex env) (plog (db_es d)) (ilog (db_es d)) (db_outbox d)"
    "table_ok n (db_outbox d)" "vouched_logs (db_es d)" by (simp_all add: books_defs)
  note e = invoice_extended [OF ok(1) i i' u]
  have "settlement_vouched received (e_sha256 env) h x"
    using v loaded_opens_hash [OF ok(1,4) i i' u] by blast
  with e vouched_invoice [OF ok(4)] hex.mirrors_invoice [OF ok(2) ev] table_ok_publish [OF ok(3) d(3), of ev]
  show ?thesis by (simp add: books_defs)
qed

lemma keeps_invoice_tx:
  assumes i: "loaded h i"
    and i': "invoice_reachable (e_ies env) i'" "inv_payment_hash i' = h" "inv_events i' = ee_push (e_ies env) x (inv_events i)"
    and ev: "\<And>ts. invoice_report x = Some (no_domain_event (ev ts)) \<and> no_reference_id (ev ts) = hash_to_hex (e_hex env) h"
    and v: "payment_hash_of (e_sha256 env) (inv_payment_preimage i) = h \<Longrightarrow> settlement_vouched received (e_sha256 env) h x"
  shows "keeps consistent (in_tx env AppDb (
      bindC (mapErrC g (update_invoice_in_op env i')) (\<lambda>_.
      bindC (draw (e_now env)) (\<lambda>ts. bindC (mapErrC AppOutbox (publish_in_tx env (ev ts))) (\<lambda>_. retC ()))))) (\<lambda>_. True)"
  unfolding update_invoice_in_op_def
  by (rule keeps_tx [OF others_keep], intro body_rules)
    (use invoice_committed [OF _ _ _ i i'] consistent_rollback ev v in \<open>auto simp: rollback_def\<close>)

lemma keeps_commit_settle:
  assumes i: "loaded h i" and v: "payment_hash_of (e_sha256 env) (inv_payment_preimage i) = h \<Longrightarrow> received h"
  shows "keeps consistent (commit_settle env i h amt) (\<lambda>_. True)"
  unfolding commit_settle_def
proof (intro keeps_bind keeps_draw, goal_cases)
  case (1 k)
  obtain r i' where Pair: "settle_invoice (e_ies env) (e_now env k) i = (r, i')" by fastforce
  show ?case
  proof (cases "r = Inr Executed")
    case True
    note x = invoice_command_simps(2) [OF Pair True] and re = loaded_command(2) [OF i Pair]
    show ?thesis
      unfolding Pair True prod.case sum.case idempotent.case
      using x re i v by (auto simp: outbox_ctors loaded_def split: option.split
          intro!: keeps_throw keeps_invoice_tx [OF i, where x = "EvSettled (e_now env k)"])
  qed (auto simp: Pair split: sum.split idempotent.split intro!: keeps_ret keeps_throw)
qed

lemma keeps_commit_cancel:
  assumes i: "loaded h i"
  shows "keeps consistent (commit_cancel env i h reason amt) (\<lambda>_. True)"
  unfolding commit_cancel_def
proof (intro keeps_bind keeps_draw, goal_cases)
  case (1 k)
  obtain r i' where Pair: "cancel_invoice (e_ies env) reason (e_now env k) i = (r, i')" by fastforce
  show ?case
  proof (cases "r = Inr Executed")
    case True
    note x = invoice_command_simps(4) [OF Pair True] and re = loaded_command(4) [OF i Pair]
    show ?thesis
      unfolding Pair True prod.case sum.case idempotent.case
      using x re i by (auto simp: outbox_ctors loaded_def
          intro!: keeps_invoice_tx [OF i, where x = "EvCanceled (e_now env k) reason"])
  qed (auto simp: Pair split: sum.split idempotent.split intro!: keeps_ret keeps_throw)
qed

lemma keeps_transition_to_held:
  assumes i: "loaded h i"
  shows "keeps consistent (transition_to_held env i h amt now) (\<lambda>_. True)"
proof (cases "mark_held (e_ies env) amt now i")
  case (Pair r i')
  show ?thesis
  proof (cases "r = Inr Executed")
    case True
    note x = invoice_command_simps(1) [OF Pair True] and re = loaded_command(1) [OF i Pair]
    show ?thesis
      unfolding transition_to_held_def Pair True prod.case sum.case idempotent.case
      using x re i by (auto simp: outbox_ctors loaded_def
          intro!: keeps_invoice_tx [OF i, where x = "EvHtlcHeld now amt"])
  qed (auto simp: transition_to_held_def Pair split: sum.split idempotent.split intro!: keeps_ret keeps_throw)
qed

lemma keeps_settle_hold: "keeps consistent (settle_hold_invoice env h) (\<lambda>_. True)"
proof -
  have "keeps consistent (settle_on_lnd_state env i h u) (\<lambda>_. True)"
    if "loaded h i" "iu_state u = LndSettled \<Longrightarrow> received h" for i u
    unfolding settle_on_lnd_state_def lnd_settle_invoice_def
    using that(2) settle_received [of _ "inv_payment_preimage i"]
    by (auto intro!: keeps_rules keeps_commit_settle [OF that(1)] keeps_commit_cancel [OF that(1)]
        split: lnd_invoice_state.split)
  then show ?thesis
    unfolding settle_hold_invoice_def lnd_lookup_invoice_def using lookup_received
    by (intro keeps_match keeps_mono [OF keeps_find_invoice]) (auto intro!: keeps_rules)
qed

lemma keeps_invoice_update: "keeps consistent (handle_invoice_update env u) (\<lambda>_. True)"
proof -
  have "keeps consistent (apply_invoice_update env u i now) (\<lambda>_. True)" if "loaded h i" for h i now
  proof -
    have i: "loaded (inv_payment_hash i) i" using that by (simp add: loaded_def)
    show ?thesis
      unfolding apply_invoice_update_def Let_def
      by (auto intro!: keeps_ret keeps_bind keeps_match keeps_mono [OF keeps_transition_to_held [OF i]]
          keeps_mono [OF keeps_settle_hold] keeps_commit_cancel [OF i] split: lnd_invoice_state.split)
  qed
  then show ?thesis
    unfolding handle_invoice_update_def
    by (intro keeps_match keeps_mono [OF keeps_find_invoice]) (auto intro!: keeps_rules)
qed

lemma keeps_spawn: "keeps I (spawn_listener h) (\<lambda>_. True)"
  by (simp add: keeps_def spawn_listener_def)

text \<open>A new invoice is stored without a report.\<close>

lemma keeps_create_invoice_op:
  assumes "ni_payment_hash n = payment_hash_of (e_sha256 env) (ni_payment_preimage n)"
  shows "keeps consistent (create_invoice_op env n) (\<lambda>_. True)"
  unfolding create_invoice_op_def create_invoice_in_op_def
proof (rule keeps_tx [OF others_keep], intro body_rules, goal_cases)
  case (2 d i s)
  then have "store_ok s" "mirrors (e_hex env) (plog s) (ilog s) (db_outbox d)" "vouched_logs s"
    using invoice_inserted [of "db_es d" n i s] vouched_created [OF _ assms] hex.mirrors_created [of "plog (db_es d)" "ilog (db_es d)" "db_outbox d" n]
    by (simp_all add: books_defs)
  with 2 show ?case by (simp add: rollback_same) (simp add: books_defs)
qed simp

lemma keeps_create_invoice: "keeps consistent (create_invoice env req) (\<lambda>_. True)"
proof -
  have n: "ni_payment_hash n = h \<and> ni_payment_preimage n = pre"
    if "new_invoice_try_new i h pre w a ex bolt ext now = Inr n" for i h pre w a ex bolt ext now n
    using that by (auto simp: new_invoice_try_new_def Let_def split: if_splits)
  show ?thesis
    unfolding create_invoice_def persist_invoice_def Let_def lnd_add_hold_invoice_def
    by (auto simp: map_err_def dest!: n split: sum.splits intro!: keeps_rules keeps_mono [OF keeps_check_ownership]
        keeps_mono [OF keeps_create_invoice_op] keeps_mono [OF keeps_spawn])
qed

section \<open>Jobs\<close>

lemma keeps_reconcile_each: "keeps consistent (reconcile_each env hs) (\<lambda>_. True)"
proof (induction hs)
  case (Cons h hs)
  then show ?case
    unfolding reconcile_each.simps reconcile_is_settle
    by (intro keeps_match keeps_mono [OF keeps_settle_hold]) simp_all
qed (simp add: keeps_def)

lemma keeps_load_each: "keeps consistent (load_each env is) (\<lambda>_. True)"
proof (induction "is")
  case (Cons i "is")
  then show ?case
    unfolding load_each.simps
    by (auto intro!: keeps_match keeps_query [OF others_keep] keeps_bind keeps_ret elim: keeps_mono)
qed (simp add: keeps_def)

lemma keeps_spawn_each: "keeps I (spawn_each hs) (\<lambda>_. True)"
proof (induction hs)
  case (Cons h hs)
  then show ?case
    unfolding spawn_each.simps by (intro keeps_bind keeps_mono [OF keeps_spawn])
qed (simp add: keeps_def)

lemma keeps_jobs:
  "keeps consistent (invoice_reconciliation_sweep env) (\<lambda>_. True)"
  "keeps consistent (invoice_subscription_recovery_sweep env) (\<lambda>_. True)"
  "keeps consistent (orphan_hold_sweep env) (\<lambda>_. True)"
  unfolding invoice_reconciliation_sweep_def invoice_subscription_recovery_sweep_def list_open_invoices_def
    run_invoice_subscription_recovery_sweep_def orphan_hold_sweep_def
  by (auto intro!: keeps_bind keeps_ret keeps_mapErr keeps_query [OF others_keep] keeps_mono [OF keeps_reconcile_each]
      keeps_mono [OF keeps_load_each] keeps_mono [OF keeps_spawn_each] keeps_mono [OF keeps_sweep])

section \<open>Any sequence of operations\<close>

lemma consistent_run_op: "op_vouched paid op \<Longrightarrow> consistent (w_db w) \<Longrightarrow> consistent (w_db (run_op env op w))"
  by (cases op) (simp_all add: keepsD [OF keeps_send_payment] keepsD [OF keeps_fee_probe] keepsD [OF keeps_create_invoice]
      keepsD [OF keeps_payment_update] keepsD [OF keeps_invoice_update] keepsD [OF keeps_settle_hold] reconcile_is_settle
      keepsD [OF keeps_jobs(1)] keepsD [OF keeps_jobs(2)] keepsD [OF keeps_jobs(3)])

lemma consistent_run_ops:
  "list_all (op_vouched paid) ops \<Longrightarrow> consistent (w_db w) \<Longrightarrow> consistent (w_db (run_ops env ops w))"
  by (induction ops arbitrary: w) (simp_all add: run_ops_def consistent_run_op)

text \<open>The assumption on other tasks is met by other instances of the gateway.\<close>

lemma peer_stable: "(\<And>n. list_all (op_vouched paid) (sched n)) \<Longrightarrow> stable consistent (beside env sched env')"
  by (auto simp: stable_def beside_def on_db_def intro!: consistent_run_ops)

end

lemma beside_fields [simp]:
  "e_ies (beside peer sched env) = e_ies env" "e_pes (beside peer sched env) = e_pes env"
  "e_repos (beside peer sched env) = e_repos env" "e_hex (beside peer sched env) = e_hex env"
  "e_sha256 (beside peer sched env) = e_sha256 env" "e_lnd_send (beside peer sched env) = e_lnd_send env"
  "e_lnd_lookup_payment (beside peer sched env) = e_lnd_lookup_payment env"
  "e_lnd_lookup_invoice (beside peer sched env) = e_lnd_lookup_invoice env"
  "e_lnd_settle (beside peer sched env) = e_lnd_settle env"
  by (simp_all add: beside_def)

lemma beside_gateway_env:
  assumes "gateway_env env store_ok plog ilog punsaved iunsaved paid received"
    and "\<And>n. list_all (op_vouched paid) (sched n)"
  shows "gateway_env (beside env sched env) store_ok plog ilog punsaved iunsaved paid received"
  using gateway_env.peer_stable [OF assms(1), of sched env] assms
  by (simp add: gateway_env_def gateway_env_axioms_def)

interpretation ref_gateway_env: gateway_env ref_env ref_store_ok ref_plog ref_ilog new_events new_events
  "\<lambda>_ _. True" "\<lambda>_. True"
proof -
  have "stable P ref_env" for P
    by (simp add: stable_def ref_env_def)
  then show "gateway_env ref_env ref_store_ok ref_plog ref_ilog new_events new_events (\<lambda>_ _. True) (\<lambda>_. True)"
    using ref_entity_store.entity_store_axioms ref_hex.hex_crate_axioms
    by (simp add: gateway_env_def gateway_env_axioms_def ref_env_def)
qed

section \<open>Properties\<close>

text \<open>C7. The books stay in order: from a database whose books are, after any sequence of API calls, updates
  LND vouches for and jobs, whatever LND, Symphony and the database answer or fail and whatever other tasks do
  that keep them so, the outbox reports for every payment hash exactly the events of the stored payment and
  invoice, in their order and with the amount of the payment; a transfer within the gateway is complete and its
  invoice settled; the sequence numbers are positive, unique and below the counter; a completed payment was
  paid by LND with the recorded preimage, a settled invoice settled at LND, and every invoice's preimage opens
  its hash.\<close>

theorem books_stay_in_order:
  assumes "gateway_env env store_ok plog ilog punsaved iunsaved paid received"
    and "list_all (op_vouched paid) ops"
    and "books_ok paid received (e_sha256 env) (e_hex env) store_ok plog ilog (w_db w)"
  shows "books_ok paid received (e_sha256 env) (e_hex env) store_ok plog ilog (w_db (run_ops env ops w))"
  by (rule gateway_env.consistent_run_ops [OF assms])

text \<open>Two instances race: while one waits for LND, the other commits LND's failure of the same payment.\<close>

definition racing_env :: "(ref_ie, ref_pe, ref_store) env" where
  "racing_env = beside ref_env (\<lambda>n. if n = 12 then [OpPaymentUpdate sample_update] else []) ref_env"

definition racing_run :: "ref_store db" where
  "racing_run = w_db (run_ops racing_env [OpSendPayment sample_request] ref_world)"

lemma racing_gateway_env:
  "gateway_env racing_env ref_store_ok ref_plog ref_ilog new_events new_events (\<lambda>_ _. True) (\<lambda>_. True)"
  unfolding racing_env_def
  by (rule beside_gateway_env [OF ref_gateway_env.gateway_env_axioms]) (simp add: update_vouched_def split: option.split)

lemma empty_books_ok: "books_ok paid received sha H ref_store_ok ref_plog ref_ilog (w_db ref_world)"
  by (simp add: books_defs ref_world_def ref_store_ok_def logs_ok_def mirrors_def table_ok_def of_reference_def vouched_def
      payment_history_def invoice_history_def ref_plog_def ref_ilog_def log_at_def invoice_reports_def List.map_filter_simps)

lemma racing_fields: "e_hex racing_env = ref_hex" "e_sha256 racing_env = e_sha256 ref_env"
  unfolding racing_env_def beside_fields by (simp_all add: ref_env_def)

lemma racing_outbox:
  "payment_history ref_hex (db_outbox racing_run) (PaymentHash (replicate 32 7)) =
     [(LightningPaymentInitiated, 25), (LightningPaymentFailed, 25)]"
  by code_simp

theorem books_stay_in_order_witness:
  "books_ok (\<lambda>_ _. True) (\<lambda>_. True) (e_sha256 ref_env) ref_hex ref_store_ok ref_plog ref_ilog racing_run \<and>
   payment_history ref_hex (db_outbox racing_run) (PaymentHash (replicate 32 7)) =
     [(LightningPaymentInitiated, 25), (LightningPaymentFailed, 25)]"
  using books_stay_in_order [OF racing_gateway_env _ empty_books_ok, of "[OpSendPayment sample_request]"] racing_outbox
  by (simp add: racing_fields flip: racing_run_def)

end
