(* ===== verification/Outbox_Listen.thy ===== *)
theory Outbox_Listen
  imports Outbox
begin

text \<open>
  The \<open>LISTEN\<close> side of the outbox: the reconnecting connection task of
  \<open>src/outbox/listen_connection.rs\<close> and the in-process fan-out of \<open>src/outbox/fanout.rs\<close>. Each loop is
  a state machine driven by what it observes; a run is a finite sequence of observations.
\<close>

section \<open>Parsing a notification\<close>

text \<open>\<open>str::parse::<i64>\<close>: an optional sign, at least one decimal digit, no overflow.\<close>

definition is_digit :: "char \<Rightarrow> bool" where
  "is_digit c \<longleftrightarrow> 48 \<le> (of_char c :: nat) \<and> (of_char c :: nat) \<le> 57"

definition digit_value :: "char \<Rightarrow> int" where
  "digit_value c = of_char c - 48"

definition parse_digits :: "string \<Rightarrow> int option" where
  "parse_digits ds =
     (if ds = [] \<or> \<not> list_all is_digit ds then None
      else Some (foldl (\<lambda>acc c. 10 * acc + digit_value c) 0 ds))"

fun parse_signed :: "string \<Rightarrow> int option" where
  "parse_signed (c # cs) =
     (if c = CHR ''-'' then map_option uminus (parse_digits cs)
      else if c = CHR ''+'' then parse_digits cs
      else parse_digits (c # cs))"
| "parse_signed [] = None"

definition parse_i64 :: "string \<Rightarrow> i64 option" where
  "parse_i64 s =
     (case parse_signed s of
        None \<Rightarrow> None
      | Some v \<Rightarrow> if - (2 ^ 63) \<le> v \<and> v < 2 ^ 63 then Some (word_of_int v) else None)"

text \<open>\<open>NEW.sequence::text\<close> of the trigger: the decimal form.\<close>

fun decimal :: "nat \<Rightarrow> string" where
  "decimal n = (if n < 10 then [char_of (48 + n)] else decimal (n div 10) @ [char_of (48 + n mod 10)])"

declare decimal.simps [simp del]

section \<open>The connection loop (listen_connection.rs)\<close>

definition BASE_BACKOFF_MS :: u64 where
  "BASE_BACKOFF_MS = 1000"

definition MAX_BACKOFF_MS :: u64 where
  "MAX_BACKOFF_MS = 30000"

definition listen_validate :: "string \<Rightarrow> outbox_error + unit" where
  "listen_validate pg_config =
     (if pg_config = []
      then Inl (Configuration ''pg_config is empty - LISTEN connection requires valid PostgreSQL connection string'')
      else Inr ())"

text \<open>What the task observes. A send to a dropped receiver is \<open>ObsReceiverGone\<close> in place of the
  observation that leads to the send.\<close>

datatype listen_obs =
    ObsCancelled
  | ObsConnectFailed
  | ObsConnected
  | ObsListenFailed
  | ObsListening
  | ObsNotification string
  | ObsChannelClosed
  | ObsReceiverGone

datatype listen_phase = LTop | LConnected | LListening | LStopped

record listen_state =
  ls_phase :: listen_phase
  ls_backoff_ms :: u64
  ls_out :: "(outbox_error + i64) list"
  ls_slept :: "u64 list"

definition listen_start :: listen_state where
  "listen_start = \<lparr>ls_phase = LTop, ls_backoff_ms = BASE_BACKOFF_MS, ls_out = [], ls_slept = []\<rparr>"

definition next_backoff :: "u64 \<Rightarrow> u64" where
  "next_backoff b = min (b * 2) MAX_BACKOFF_MS"

text \<open>Report the loss, sleep for the current backoff, double it, and go round the loop.\<close>

definition report_and_sleep :: "listen_state \<Rightarrow> listen_state" where
  "report_and_sleep s =
     s\<lparr>ls_phase := LTop, ls_out := ls_out s @ [Inl ListenDisconnected],
       ls_slept := ls_slept s @ [ls_backoff_ms s], ls_backoff_ms := next_backoff (ls_backoff_ms s)\<rparr>"

definition listen_step :: "listen_obs \<Rightarrow> listen_state \<Rightarrow> listen_state" where
  "listen_step ob s =
     (case ls_phase s of
        LStopped \<Rightarrow> s
      | LTop \<Rightarrow>
          (case ob of
             ObsCancelled \<Rightarrow> s\<lparr>ls_phase := LStopped\<rparr>
           | ObsReceiverGone \<Rightarrow> s\<lparr>ls_phase := LStopped\<rparr>
           | ObsConnectFailed \<Rightarrow> report_and_sleep s
           | ObsConnected \<Rightarrow> s\<lparr>ls_phase := LConnected, ls_backoff_ms := BASE_BACKOFF_MS\<rparr>
           | _ \<Rightarrow> s)
      | LConnected \<Rightarrow>
          (case ob of
             ObsReceiverGone \<Rightarrow> s\<lparr>ls_phase := LStopped\<rparr>
           | ObsListenFailed \<Rightarrow> report_and_sleep s
           | ObsListening \<Rightarrow> s\<lparr>ls_phase := LListening\<rparr>
           | _ \<Rightarrow> s)
      | LListening \<Rightarrow>
          (case ob of
             ObsCancelled \<Rightarrow> s\<lparr>ls_phase := LStopped\<rparr>
           | ObsReceiverGone \<Rightarrow> s\<lparr>ls_phase := LStopped\<rparr>
           | ObsNotification payload \<Rightarrow>
               (case parse_i64 payload of
                  Some sequence \<Rightarrow> s\<lparr>ls_out := ls_out s @ [Inr sequence]\<rparr>
                | None \<Rightarrow> s)
           | ObsChannelClosed \<Rightarrow> report_and_sleep s
           | _ \<Rightarrow> s))"

definition connection_loop :: "listen_obs list \<Rightarrow> listen_state" where
  "connection_loop obs = fold listen_step obs listen_start"

section \<open>The ingest loop of the fan-out (fanout.rs)\<close>

text \<open>A notification comes with what the row query sees (\<open>Inl\<close>: the query failed).\<close>

datatype ingest_obs =
    InCancelled
  | InSequence i64 "outbox_error + outbox_row list"
  | InError outbox_error
  | InEnded

record ingest_state =
  ig_running :: bool
  ig_broadcast :: "outbox_event list"

definition ingest_step :: "ingest_obs \<Rightarrow> ingest_state \<Rightarrow> ingest_state" where
  "ingest_step ob s =
     (if \<not> ig_running s then s
      else case ob of
        InCancelled \<Rightarrow> s\<lparr>ig_running := False\<rparr>
      | InEnded \<Rightarrow> s\<lparr>ig_running := False\<rparr>
      | InError _ \<Rightarrow> s
      | InSequence sequence db \<Rightarrow>
          (case bindR db (\<lambda>rows. find_by_sequence rows sequence) of
             Inr (Some ev) \<Rightarrow> s\<lparr>ig_broadcast := ig_broadcast s @ [ev]\<rparr>
           | Inr None \<Rightarrow> s
           | Inl _ \<Rightarrow> s))"

definition ingest_loop :: "ingest_obs list \<Rightarrow> ingest_state" where
  "ingest_loop obs = fold ingest_step obs \<lparr>ig_running = True, ig_broadcast = []\<rparr>"

text \<open>\<open>OutboxFanout::start\<close> validates the connection string before it spawns the loop.\<close>

definition fanout_start :: "string \<Rightarrow> outbox_error + unit" where
  "fanout_start pg_config = listen_validate pg_config"

section \<open>Facts\<close>

lemma decimal_digits: "list_all is_digit (decimal n) \<and> decimal n \<noteq> []"
proof (induction n rule: decimal.induct)
  case (1 n)
  have "is_digit (char_of (48 + d))" if "d < 10" for d :: nat
    using that by (simp add: is_digit_def)
  with 1 show ?case by (subst (1 2) decimal.simps) simp
qed

lemma foldl_decimal: "foldl (\<lambda>acc c. 10 * acc + digit_value c) 0 (decimal n) = int n"
proof (induction n rule: decimal.induct)
  case (1 n)
  have d: "digit_value (char_of (48 + d)) = int d" if "d < 10" for d :: nat
  proof -
    have "(of_char (char_of (48 + d) :: char) :: nat) = 48 + d" using that by simp
    then have "(of_char (char_of (48 + d) :: char) :: int) = 48 + int d"
      by (metis of_nat_add of_nat_numeral of_nat_of_char)
    then show ?thesis by (simp add: digit_value_def)
  qed
  show ?case
  proof (cases "n < 10")
    case True
    then show ?thesis by (subst decimal.simps) (simp add: d)
  next
    case False
    then have "foldl (\<lambda>acc c. 10 * acc + digit_value c) 0 (decimal n) = 10 * int (n div 10) + int (n mod 10)"
      using 1 by (subst decimal.simps) (simp add: d)
    also have "\<dots> = int n" by (simp add: zdiv_int zmod_int)
    finally show ?thesis .
  qed
qed

lemma parse_decimal: "parse_signed (decimal n) = Some (int n)"
proof -
  obtain c cs where c: "decimal n = c # cs" using decimal_digits [of n] by (cases "decimal n") auto
  then have "is_digit c" using decimal_digits [of n] by simp
  then have "c \<noteq> CHR ''-''" "c \<noteq> CHR ''+''" by (auto simp: is_digit_def)
  then show ?thesis
    using c decimal_digits [of n] foldl_decimal [of n] by (simp add: parse_digits_def)
qed

lemma next_backoff_bounds:
  assumes "1000 \<le> unat b" "unat b \<le> 30000"
  shows "1000 \<le> unat (next_backoff b) \<and> unat (next_backoff b) \<le> 30000"
proof -
  have "unat (b * 2) = unat b * 2" using assms(2) by (simp add: unat_word_ariths)
  then show ?thesis
    using assms by (auto simp: next_backoff_def MAX_BACKOFF_MS_def min_def word_le_nat_alt)
qed

definition listen_inv :: "listen_state \<Rightarrow> bool" where
  "listen_inv s \<longleftrightarrow> 1000 \<le> unat (ls_backoff_ms s) \<and> unat (ls_backoff_ms s) \<le> 30000 \<and>
     list_all (\<lambda>b. 1000 \<le> unat b \<and> unat b \<le> 30000) (ls_slept s) \<and>
     length (ls_slept s) = countP (\<lambda>x. x = Inl ListenDisconnected) (ls_out s)"

lemma listen_inv_start: "listen_inv listen_start"
  by (simp add: listen_inv_def listen_start_def BASE_BACKOFF_MS_def countP_def)

lemma listen_inv_report: "listen_inv s \<Longrightarrow> listen_inv (report_and_sleep s)"
  using next_backoff_bounds [of "ls_backoff_ms s"]
  by (auto simp: listen_inv_def report_and_sleep_def countP_def)

lemma listen_inv_step: "listen_inv s \<Longrightarrow> listen_inv (listen_step ob s)"
  using listen_inv_report [of s]
  by (auto simp: listen_step_def listen_inv_def BASE_BACKOFF_MS_def countP_def
      split: listen_phase.split listen_obs.split option.split)

lemma listen_inv_loop: "listen_inv s \<Longrightarrow> listen_inv (fold listen_step obs s)"
  by (induction obs arbitrary: s) (simp_all add: listen_inv_step)

text \<open>The rows a run of the ingest loop reads, as a function of its observations.\<close>

fun ingested :: "ingest_obs list \<Rightarrow> outbox_event list" where
  "ingested [] = []"
| "ingested (InCancelled # _) = []"
| "ingested (InEnded # _) = []"
| "ingested (InError _ # obs) = ingested obs"
| "ingested (InSequence n db # obs) =
     (case bindR db (\<lambda>rows. find_by_sequence rows n) of Inr (Some ev) \<Rightarrow> [ev] | _ \<Rightarrow> []) @ ingested obs"

lemma ingest_steps:
  "\<not> ig_running s \<Longrightarrow> ingest_step ob s = s"
  "ig_running s \<Longrightarrow> \<not> ig_running (ingest_step InCancelled s) \<and> ig_broadcast (ingest_step InCancelled s) = ig_broadcast s"
  "ig_running s \<Longrightarrow> \<not> ig_running (ingest_step InEnded s) \<and> ig_broadcast (ingest_step InEnded s) = ig_broadcast s"
  "ingest_step (InError e) s = s"
  "ig_running (ingest_step (InSequence n db) s) = ig_running s"
  "ig_running s \<Longrightarrow> ig_broadcast (ingest_step (InSequence n db) s) = ig_broadcast s @ ingested [InSequence n db]"
  by (auto simp: ingest_step_def split: sum.split option.split)

lemma ingest_stopped: "\<not> ig_running s \<Longrightarrow> fold ingest_step obs s = s"
  by (induction obs) (simp_all add: ingest_steps(1))

lemma ingest_fold: "ig_running s \<Longrightarrow> ig_broadcast (fold ingest_step obs s) = ig_broadcast s @ ingested obs"
proof (induction obs arbitrary: s)
  case (Cons ob obs)
  then show ?case
    by (cases ob) (simp_all add: ingest_steps ingest_stopped)
qed simp

section \<open>Properties\<close>

text \<open>The payload of a notification survives the trip: the decimal form the trigger prints of any
  sequence number the column can hold parses back to that number.\<close>

lemma notification_payload_roundtrip:
  assumes "n < 2 ^ 63"
  shows "\<exists>v. parse_i64 (decimal n) = Some v \<and> sint v = int n"
proof -
  have "int n < 2 ^ 63" using assms by (metis of_nat_less_iff of_nat_numeral of_nat_power)
  moreover from this have "sint (word_of_int (int n) :: i64) = int n"
    unfolding sint_sbintrunc' by (intro signed_take_bit_int_eq_self) simp_all
  ultimately show ?thesis by (simp add: parse_i64_def parse_decimal)
qed

text \<open>Reconnecting: over every sequence of observations the backoff stays between one and thirty
  seconds, every loss is reported exactly once and followed by one sleep, and each sleep lies within
  the same bounds.\<close>

lemma listen_backoff_bounded:
  "1000 \<le> unat (ls_backoff_ms (connection_loop obs)) \<and> unat (ls_backoff_ms (connection_loop obs)) \<le> 30000 \<and>
   list_all (\<lambda>b. 1000 \<le> unat b \<and> unat b \<le> 30000) (ls_slept (connection_loop obs)) \<and>
   length (ls_slept (connection_loop obs)) =
     countP (\<lambda>x. x = Inl ListenDisconnected) (ls_out (connection_loop obs))"
  using listen_inv_loop [OF listen_inv_start, of obs] by (simp add: listen_inv_def connection_loop_def)

text \<open>The fan-out broadcasts exactly the rows its notifications name, in the order of the
  notifications, each read once; a failed read or a missing row broadcasts nothing, and a lost
  \<open>LISTEN\<close> connection changes nothing.\<close>

lemma ingest_broadcasts_rows:
  "ig_broadcast (ingest_loop obs) = ingested obs"
  by (simp add: ingest_loop_def ingest_fold)

end
