(* ===== verification/Grpc_Service.thy ===== *)
theory Grpc_Service
  imports Outbox_Listen App_World
begin

text \<open>
  The event stream of \<open>src/api/grpc/\<close>: the mapping of errors to statuses (\<open>error.rs\<close>) and the
  subscription of \<open>service.rs\<close>. A subscription is a state machine: its loop iterations are the
  steps, and what an iteration meets (the table its query sees, the outcome of a send, a
  notification, a loss of the \<open>LISTEN\<close> connection, cancellation) is the step's input.
\<close>

section \<open>Statuses (error.rs)\<close>

definition outbox_status :: "(outbox_error \<Rightarrow> string) \<Rightarrow> outbox_error \<Rightarrow> grpc_status" where
  "outbox_status show_err err =
     (case err of
        Configuration msg \<Rightarrow> Status Code_FailedPrecondition (''outbox listener misconfigured: '' @ msg)
      | ListenDisconnected \<Rightarrow> Status Code_Unavailable ''outbox LISTEN connection lost''
      | _ \<Rightarrow> Status Code_Unavailable (''outbox subsystem unavailable: '' @ show_err err))"

definition invoice_infra :: "invoice_error \<Rightarrow> bool" where
  "invoice_infra e \<longleftrightarrow>
     (case e of InvoiceCreate _ \<Rightarrow> True | InvoiceModify _ \<Rightarrow> True | InvoiceFind _ \<Rightarrow> True
      | InvoiceQuery _ \<Rightarrow> True | InvSqlx _ \<Rightarrow> True | _ \<Rightarrow> False)"

definition payment_infra :: "payment_error \<Rightarrow> bool" where
  "payment_infra e \<longleftrightarrow>
     (case e of PaymentCreate _ \<Rightarrow> True | PaymentModify _ \<Rightarrow> True | PaymentFind _ \<Rightarrow> True
      | PaymentQuery _ \<Rightarrow> True | PaySqlx _ \<Rightarrow> True | _ \<Rightarrow> False)"

text \<open>The \<open>Display\<close> of the errors is a parameter. A panic is no \<open>AppError\<close> and has no status.\<close>

record error_display =
  show_invoice :: "invoice_error \<Rightarrow> string"
  show_payment :: "payment_error \<Rightarrow> string"
  show_lnd :: "lnd_error \<Rightarrow> string"
  show_symphony :: "symphony_error \<Rightarrow> string"
  show_outbox :: "outbox_error \<Rightarrow> string"

definition app_status :: "error_display \<Rightarrow> app_error \<Rightarrow> grpc_status option" where
  "app_status D err =
     (case err of
        AppWalletOwnership msg \<Rightarrow> Some (Status Code_PermissionDenied msg)
      | AppInvoice e \<Rightarrow>
          Some (Status (if invoice_infra e then Code_Unavailable else Code_InvalidArgument) (show_invoice D e))
      | AppPayment e \<Rightarrow>
          Some (Status (if payment_infra e then Code_Unavailable else Code_InvalidArgument) (show_payment D e))
      | AppInvalidBoltInvoice msg \<Rightarrow> Some (Status Code_InvalidArgument (''invalid bolt invoice: '' @ msg))
      | AppLnd e \<Rightarrow> Some (Status Code_Unavailable (show_lnd D e))
      | AppSymphony e \<Rightarrow> Some (Status Code_Unavailable (show_symphony D e))
      | AppOutbox e \<Rightarrow> Some (outbox_status (show_outbox D) e)
      | AppDb e \<Rightarrow> Some (Status Code_Unavailable (''database unavailable: '' @ e))
      | AppPanic _ \<Rightarrow> None)"

section \<open>The subscription (service.rs)\<close>

definition inject_trace_context :: "proto_payment_event \<Rightarrow> proto_payment_event" where
  "inject_trace_context ev = ev"

text \<open>What a query sees: a failure, or the committed rows.\<close>

type_synonym table = "outbox_error + outbox_row list"

datatype send_outcome = Delivered | SubscriberGone | SendTimeout

text \<open>\<open>PBackfill\<close> is the top of one of the two paging loops, \<open>PPage\<close> the inner loop over a page; the
  flag distinguishes the re-backfill.\<close>

datatype sub_phase = PBackfill bool | PPage bool "outbox_event list" | PLive | PClosed

datatype sub_input =
    InFetch bool table
  | InSend send_outcome
  | InCancel
  | InNotify i64 table send_outcome
  | InLost table
  | InNotifyError outbox_error
  | InNotifyEnd

record sub_state =
  sb_phase :: sub_phase
  sb_last :: i64
  sb_out :: "(grpc_status + proto_payment_event) list"

record grpc_params =
  gp_json :: "json \<Rightarrow> string option"
  gp_show :: "outbox_error \<Rightarrow> string"

definition to_wire :: "grpc_params \<Rightarrow> outbox_event \<Rightarrow> proto_payment_event" where
  "to_wire G ev = inject_trace_context (outbox_to_proto (gp_json G) ev)"

definition close_with :: "grpc_status \<Rightarrow> sub_state \<Rightarrow> sub_state" where
  "close_with st s = s\<lparr>sb_phase := PClosed, sb_out := sb_out s @ [Inl st]\<rparr>"

text \<open>The cursor moves before the send; a failed send ends the stream.\<close>

definition deliver :: "grpc_params \<Rightarrow> outbox_event \<Rightarrow> send_outcome \<Rightarrow> sub_phase \<Rightarrow> sub_state \<Rightarrow> sub_state" where
  "deliver G ev out next s =
     (case out of
        Delivered \<Rightarrow> s\<lparr>sb_phase := next, sb_last := ob_sequence ev, sb_out := sb_out s @ [Inr (to_wire G ev)]\<rparr>
      | _ \<Rightarrow> s\<lparr>sb_phase := PClosed, sb_last := ob_sequence ev\<rparr>)"

definition fetch_step :: "grpc_params \<Rightarrow> bool \<Rightarrow> bool \<Rightarrow> table \<Rightarrow> sub_state \<Rightarrow> sub_state" where
  "fetch_step G re cancelled db s =
     (if cancelled then s\<lparr>sb_phase := PClosed\<rparr>
      else case bindR db (\<lambda>rows. fetch_after_batch rows (sb_last s)) of
        Inl e \<Rightarrow> close_with (outbox_status (gp_show G) e) s
      | Inr [] \<Rightarrow> s\<lparr>sb_phase := PLive\<rparr>
      | Inr evs \<Rightarrow> s\<lparr>sb_phase := PPage re evs\<rparr>)"

definition page_step :: "grpc_params \<Rightarrow> bool \<Rightarrow> outbox_event list \<Rightarrow> send_outcome \<Rightarrow> sub_state \<Rightarrow> sub_state" where
  "page_step G re evs out s =
     (case evs of
        [] \<Rightarrow> s\<lparr>sb_phase := PBackfill re\<rparr>
      | [ev] \<Rightarrow> deliver G ev out (PBackfill re) s
      | ev # rest \<Rightarrow> deliver G ev out (PPage re rest) s)"

definition notify_step :: "grpc_params \<Rightarrow> i64 \<Rightarrow> table \<Rightarrow> send_outcome \<Rightarrow> sub_state \<Rightarrow> sub_state" where
  "notify_step G sequence db out s =
     (if sint sequence \<le> sint (sb_last s) then s
      else case bindR db (\<lambda>rows. find_by_sequence rows sequence) of
        Inr (Some ev) \<Rightarrow> (deliver G ev out PLive s)\<lparr>sb_last := sequence\<rparr>
      | Inr None \<Rightarrow> s
      | Inl _ \<Rightarrow> s)"

definition lost_step :: "grpc_params \<Rightarrow> table \<Rightarrow> sub_state \<Rightarrow> sub_state" where
  "lost_step G db s =
     (case db of
        Inl e \<Rightarrow> close_with (outbox_status (gp_show G) e) s
      | Inr rows \<Rightarrow>
          (let count = count_after rows (sb_last s) in
           if count > MAX_BACKFILL_EVENTS
           then close_with (Status Code_ResourceExhausted
                  (''Re-backfill would require '' @ decimal count @ '' events, max is '' @ decimal MAX_BACKFILL_EVENTS)) s
           else s\<lparr>sb_phase := PBackfill True\<rparr>))"

text \<open>An input that the current phase does not wait for leaves the state alone.\<close>

fun subscription_step :: "grpc_params \<Rightarrow> sub_input \<Rightarrow> sub_phase \<Rightarrow> sub_state \<Rightarrow> sub_state" where
  "subscription_step G (InFetch cancelled db) (PBackfill re) s = fetch_step G re cancelled db s"
| "subscription_step G (InSend out) (PPage re evs) s = page_step G re evs out s"
| "subscription_step G InCancel PLive s = s\<lparr>sb_phase := PClosed\<rparr>"
| "subscription_step G (InNotify sequence db out) PLive s = notify_step G sequence db out s"
| "subscription_step G (InLost db) PLive s = lost_step G db s"
| "subscription_step G (InNotifyError e) PLive s = s"
| "subscription_step G InNotifyEnd PLive s = s\<lparr>sb_phase := PClosed\<rparr>"
| "subscription_step G _ _ s = s"

definition subscription_start :: "i64 \<Rightarrow> sub_state" where
  "subscription_start after = \<lparr>sb_phase = PBackfill False, sb_last = after, sb_out = []\<rparr>"

definition subscription_run :: "grpc_params \<Rightarrow> sub_input list \<Rightarrow> sub_state \<Rightarrow> sub_state" where
  "subscription_run G ins s = fold (\<lambda>i s. subscription_step G i (sb_phase s) s) ins s"

text \<open>\<open>subscribe\<close>: the requested cursor is cast to the signed column type, the size of the backfill is
  checked, and the loop starts at the same cursor.\<close>

definition subscribe :: "grpc_params \<Rightarrow> u64 \<Rightarrow> table \<Rightarrow> grpc_status + sub_state" where
  "subscribe G after_sequence db =
     bindR (map_err (outbox_status (gp_show G)) db) (\<lambda>rows.
     let count = count_after rows after_sequence in
     if count > MAX_BACKFILL_EVENTS
     then Inl (Status Code_ResourceExhausted
       (''Backfill would require '' @ decimal count @ '' events, max is '' @ decimal MAX_BACKFILL_EVENTS @
        ''. Consider subscribing from a more recent sequence.''))
     else Inr (subscription_start after_sequence))"

text \<open>The RPC is \<open>subscribe\<close> at the requested cursor; the service is built only over a usable connection string.\<close>

definition subscribe_events :: "grpc_params \<Rightarrow> u64 \<Rightarrow> table \<Rightarrow> grpc_status + sub_state" where
  "subscribe_events G after_sequence db = subscribe G after_sequence db"

definition gateway_service_new :: "string \<Rightarrow> outbox_error + unit" where
  "gateway_service_new pg_url = listen_validate pg_url"

section \<open>Ordering\<close>

text \<open>The sequence numbers that were delivered, and the tables a run may see: the primary key is
  unique and, for the reads, nothing else is assumed.\<close>

definition delivered :: "sub_state \<Rightarrow> int list" where
  "delivered s = map (\<lambda>ev. sint (pe_sequence ev)) (List.map_filter ok (sb_out s))"

fun input_table :: "sub_input \<Rightarrow> outbox_row list" where
  "input_table (InFetch _ (Inr rows)) = rows"
| "input_table (InNotify _ (Inr rows) _) = rows"
| "input_table (InLost (Inr rows)) = rows"
| "input_table _ = []"

definition keyed :: "sub_input \<Rightarrow> bool" where
  "keyed i \<longleftrightarrow> distinct (map row_sequence (input_table i))"

fun page_ok :: "int \<Rightarrow> sub_phase \<Rightarrow> bool" where
  "page_ok cur (PPage re evs) \<longleftrightarrow> sorted_wrt (<) (cur # map (\<lambda>ev. sint (ob_sequence ev)) evs)"
| "page_ok cur _ = True"

text \<open>Between two states of one stream: what was delivered is strictly above the old cursor, in
  increasing order, and not above the new one.\<close>

definition advances :: "sub_state \<Rightarrow> sub_state \<Rightarrow> bool" where
  "advances s s' \<longleftrightarrow>
     (\<exists>ds. delivered s' = delivered s @ ds \<and> sorted_wrt (<) (sint (sb_last s) # ds) \<and>
        sint (sb_last s) \<le> sint (sb_last s') \<and> (\<forall>d \<in> set ds. d \<le> sint (sb_last s')))"

lemma advances_refl: "delivered s' = delivered s \<Longrightarrow> sb_last s' = sb_last s \<Longrightarrow> advances s s'"
  by (simp add: advances_def)

lemma advances_trans:
  assumes "advances s t" and "advances t u"
  shows "advances s u"
proof -
  from assms obtain ds es where
    "delivered t = delivered s @ ds" "sorted_wrt (<) (sint (sb_last s) # ds)"
    "sint (sb_last s) \<le> sint (sb_last t)" "\<forall>d \<in> set ds. d \<le> sint (sb_last t)"
    "delivered u = delivered t @ es" "sorted_wrt (<) (sint (sb_last t) # es)"
    "sint (sb_last t) \<le> sint (sb_last u)" "\<forall>d \<in> set es. d \<le> sint (sb_last u)"
    unfolding advances_def by blast
  then show ?thesis
    unfolding advances_def by (intro exI [of _ "ds @ es"]) (force simp: sorted_wrt_append)
qed

lemma to_wire_sequence: "pe_sequence (to_wire G ev) = ob_sequence ev"
  by (simp add: to_wire_def inject_trace_context_def outbox_to_proto_def)

lemma delivered_simps [simp]:
  "delivered (s\<lparr>sb_phase := p\<rparr>) = delivered s"
  "delivered (s\<lparr>sb_last := n\<rparr>) = delivered s"
  "delivered (s\<lparr>sb_out := xs @ [Inl st]\<rparr>) = delivered (s\<lparr>sb_out := xs\<rparr>)"
  "delivered (s\<lparr>sb_out := xs @ [Inr (to_wire G ev)]\<rparr>) = delivered (s\<lparr>sb_out := xs\<rparr>) @ [sint (ob_sequence ev)]"
  by (simp_all add: delivered_def map_filter_simps to_wire_sequence List.map_filter_def)

lemma deliver_advances:
  "sint (sb_last s) < sint (ob_sequence ev) \<Longrightarrow> advances s (deliver G ev out p s)"
  by (cases out) (auto simp: deliver_def advances_def)

lemma deliver_fields:
  "sb_last (deliver G ev out p s) = ob_sequence ev"
  "sb_phase (deliver G ev out p s) \<in> {p, PClosed}"
  by (cases out; simp add: deliver_def)+

text \<open>A page is sorted and lies above the cursor.\<close>

lemma fetch_after_batch_sorted:
  assumes "distinct (map row_sequence rows)" and "fetch_after_batch rows cur = Inr evs"
  shows "sorted_wrt (<) (sint cur # map (\<lambda>ev. sint (ob_sequence ev)) evs)"
proof -
  let ?rs = "take BACKFILL_BATCH_SIZE (rows_after rows cur)"
  have m: "map parse_row ?rs = map Inr evs"
    using assms(2) by (simp add: fetch_after_batch_def collectR_Inr_iff)
  have "map (\<lambda>ev. sint (ob_sequence ev)) evs = map (\<lambda>r. sint (row_sequence r)) ?rs"
  proof (rule nth_equalityI)
    show "length (map (\<lambda>ev. sint (ob_sequence ev)) evs) = length (map (\<lambda>r. sint (row_sequence r)) ?rs)"
      using m by (metis length_map)
    fix i assume i: "i < length (map (\<lambda>ev. sint (ob_sequence ev)) evs)"
    with m have "parse_row (?rs ! i) = Inr (evs ! i)"
      by (metis length_map nth_map)
    with i m show "map (\<lambda>ev. sint (ob_sequence ev)) evs ! i = map (\<lambda>r. sint (row_sequence r)) ?rs ! i"
      using parse_row_fields by (metis length_map nth_map)
  qed
  moreover have "sorted_wrt (<) (map (\<lambda>r. sint (row_sequence r)) (rows_after rows cur))"
  proof -
    have "distinct (map (\<lambda>r. sint (row_sequence r)) (rows_after rows cur))"
      using distinct_rows_after [OF assms(1), of cur]
      by (auto simp: distinct_map inj_on_def dest: signed_word_eqI)
    with sorted_rows_after [of rows cur] show ?thesis
      by (simp add: strict_sorted_iff)
  qed
  ultimately show ?thesis
    using set_rows_after [of rows cur] by (auto simp: take_map [symmetric] sorted_wrt_take dest: in_set_takeD)
qed

text \<open>Each step keeps the order.\<close>

lemma fetch_step_advances:
  assumes "keyed (InFetch c db)"
  shows "advances s (fetch_step G re c db s) \<and>
    page_ok (sint (sb_last (fetch_step G re c db s))) (sb_phase (fetch_step G re c db s))"
proof (cases "\<exists>rows. db = Inr rows \<and> \<not> c")
  case True
  then obtain rows where db: "db = Inr rows" "\<not> c" by blast
  with assms have d: "distinct (map row_sequence rows)" by (simp add: keyed_def)
  show ?thesis
  proof (cases "fetch_after_batch rows (sb_last s)")
    case (Inr evs)
    with fetch_after_batch_sorted [OF d Inr] db show ?thesis
      by (cases evs) (auto simp: fetch_step_def intro: advances_refl)
  qed (use db in \<open>auto simp: fetch_step_def close_with_def intro: advances_refl\<close>)
qed (cases db; auto simp: fetch_step_def close_with_def intro: advances_refl)

lemma page_step_advances:
  assumes "page_ok (sint (sb_last s)) (PPage re evs)"
  shows "advances s (page_step G re evs out s) \<and>
    page_ok (sint (sb_last (page_step G re evs out s))) (sb_phase (page_step G re evs out s))"
proof (cases evs)
  case Nil
  then show ?thesis by (auto simp: page_step_def intro: advances_refl)
next
  case (Cons ev rest)
  define p where "p = (if rest = [] then PBackfill re else PPage re rest)"
  have step: "page_step G re evs out s = deliver G ev out p s"
    using Cons by (cases rest) (simp_all add: page_step_def p_def)
  have "page_ok (sint (ob_sequence ev)) p" using assms Cons by (simp add: p_def)
  then have "page_ok (sint (ob_sequence ev)) (sb_phase (deliver G ev out p s))"
    using deliver_fields(2) [of G ev out p s] by auto
  moreover have "sint (sb_last s) < sint (ob_sequence ev)" using assms Cons by simp
  ultimately show ?thesis by (simp add: step deliver_fields(1) deliver_advances)
qed

lemma find_by_sequence_key:
  "find_by_sequence rows n = Inr (Some ev) \<Longrightarrow> ob_sequence ev = n \<and> (\<exists>r \<in> set rows. parse_row r = Inr ev)"
  by (auto simp: find_by_sequence_def bindR_Inr_iff find_Some_iff parse_row_fields split: option.splits)

lemma notify_step_cases:
  obtains (same) "notify_step G n db out s = s"
  | (sent) ev rows where "db = Inr rows" "find_by_sequence rows n = Inr (Some ev)" "sint (sb_last s) < sint n"
      "notify_step G n db out s = deliver G ev out PLive s"
proof (cases "sint n \<le> sint (sb_last s) \<or> (\<forall>ev. bindR db (\<lambda>rows. find_by_sequence rows n) \<noteq> Inr (Some ev))")
  case True
  then have "notify_step G n db out s = s"
    by (auto simp: notify_step_def split: sum.split option.split)
  then show ?thesis by (rule same)
next
  case False
  then obtain ev rows where f: "db = Inr rows" "find_by_sequence rows n = Inr (Some ev)" "sint (sb_last s) < sint n"
    by (auto simp: bindR_Inr_iff)
  then have "notify_step G n db out s = (deliver G ev out PLive s)\<lparr>sb_last := n\<rparr>"
    by (simp add: notify_step_def)
  also have "\<dots> = deliver G ev out PLive s"
    using find_by_sequence_key [OF f(2)] deliver_fields(1) [of G ev out PLive s] by simp
  finally show ?thesis using f by (intro sent)
qed

lemma notify_step_advances:
  assumes "sb_phase s = PLive"
  shows "advances s (notify_step G n db out s) \<and>
    page_ok (sint (sb_last (notify_step G n db out s))) (sb_phase (notify_step G n db out s))"
proof (cases rule: notify_step_cases [of G n db out s])
  case same
  with assms show ?thesis by (simp add: advances_refl)
next
  case (sent ev rows)
  with find_by_sequence_key [OF sent(2)] have "advances s (deliver G ev out PLive s)"
    by (intro deliver_advances) simp
  with sent(4) deliver_fields(2) [of G ev out PLive s] show ?thesis by auto
qed

lemma lost_step_advances:
  "advances s (lost_step G db s) \<and> page_ok (sint (sb_last (lost_step G db s))) (sb_phase (lost_step G db s))"
  by (cases db) (auto simp: lost_step_def close_with_def Let_def intro: advances_refl)

lemma step_advances:
  assumes "page_ok (sint (sb_last s)) (sb_phase s)" and "keyed i"
  shows "advances s (subscription_step G i (sb_phase s) s) \<and>
    page_ok (sint (sb_last (subscription_step G i (sb_phase s) s))) (sb_phase (subscription_step G i (sb_phase s) s))"
proof (cases i)
  case (InFetch c db)
  with assms show ?thesis
    by (cases "sb_phase s") (simp_all add: fetch_step_advances advances_refl)
next
  case (InSend out)
  with assms show ?thesis
    by (cases "sb_phase s") (simp_all add: page_step_advances advances_refl)
next
  case (InNotify n db out)
  with assms show ?thesis
    by (cases "sb_phase s") (simp_all add: notify_step_advances advances_refl)
next
  case (InLost db)
  with assms show ?thesis
    by (cases "sb_phase s") (simp_all add: lost_step_advances advances_refl)
qed (use assms in \<open>cases "sb_phase s"; simp add: advances_refl\<close>)+

lemma run_advances:
  assumes "page_ok (sint (sb_last s)) (sb_phase s)" and "\<forall>i \<in> set ins. keyed i"
  shows "advances s (subscription_run G ins s) \<and>
    page_ok (sint (sb_last (subscription_run G ins s))) (sb_phase (subscription_run G ins s))"
  using assms
proof (induction ins arbitrary: s)
  case Nil
  then show ?case by (simp add: subscription_run_def advances_refl)
next
  case (Cons i ins)
  let ?t = "subscription_step G i (sb_phase s) s"
  from Cons.prems step_advances [of s i G] have t: "advances s ?t" "page_ok (sint (sb_last ?t)) (sb_phase ?t)"
    by simp_all
  from Cons.IH [OF t(2)] Cons.prems show ?case
    by (auto simp: subscription_run_def intro: advances_trans [OF t(1)])
qed

text \<open>An event that the cursor has passed is lost: no continuation of the stream delivers it. The cursor
  passes an event whose row could not be read when its notification arrived, and one whose transaction
  commits after that of a higher number.\<close>

lemma passed_lost:
  assumes "\<forall>i \<in> set before. keyed i" and "\<forall>i \<in> set later. keyed i"
    and "s = subscription_run G before (subscription_start after)"
    and "n \<le> sint (sb_last s)" and "n \<notin> set (delivered s)"
  shows "n \<notin> set (delivered (subscription_run G later s))"
proof -
  have "page_ok (sint (sb_last s)) (sb_phase s)"
    using assms(1,3) run_advances [of "subscription_start after" before G] by (simp add: subscription_start_def)
  then have "advances s (subscription_run G later s)"
    using assms(2) run_advances [of s later G] by simp
  with assms(4,5) show ?thesis unfolding advances_def by fastforce
qed

section \<open>Where the events come from\<close>

definition row_event :: "outbox_row set \<Rightarrow> outbox_event \<Rightarrow> bool" where
  "row_event rows ev \<longleftrightarrow> (\<exists>r \<in> rows. parse_row r = Inr ev)"

fun page_events :: "sub_phase \<Rightarrow> outbox_event list" where
  "page_events (PPage re evs) = evs"
| "page_events _ = []"

definition sourced :: "grpc_params \<Rightarrow> outbox_row set \<Rightarrow> sub_state \<Rightarrow> bool" where
  "sourced G rows s \<longleftrightarrow>
     (\<forall>ev \<in> set (page_events (sb_phase s)). row_event rows ev) \<and>
     (\<forall>pe. Inr pe \<in> set (sb_out s) \<longrightarrow> (\<exists>ev. row_event rows ev \<and> pe = to_wire G ev))"

lemma row_event_mono: "row_event R ev \<Longrightarrow> R \<subseteq> R' \<Longrightarrow> row_event R' ev"
  by (auto simp: row_event_def)

lemma sourced_mono: "sourced G R s \<Longrightarrow> R \<subseteq> R' \<Longrightarrow> sourced G R' s"
  unfolding sourced_def using row_event_mono by blast

lemma sourced_close: "sourced G R s \<Longrightarrow> sourced G R (close_with st s)"
  by (auto simp: sourced_def close_with_def)

lemma sourced_deliver:
  assumes "sourced G R s" "row_event R ev" "\<forall>e \<in> set (page_events p). row_event R e"
  shows "sourced G R (deliver G ev out p s)"
  using assms by (cases out) (auto simp: sourced_def deliver_def)

lemma fetch_after_batch_rows:
  assumes "fetch_after_batch rows cur = Inr evs" and "ev \<in> set evs"
  shows "row_event (set rows) ev"
proof -
  have "map parse_row (take BACKFILL_BATCH_SIZE (rows_after rows cur)) = map Inr evs"
    using assms(1) by (simp add: fetch_after_batch_def collectR_Inr_iff)
  then have "Inr ev \<in> set (map parse_row (take BACKFILL_BATCH_SIZE (rows_after rows cur)))"
    using assms(2) by simp
  then show ?thesis
    using set_rows_after [of rows cur] by (force simp: row_event_def dest: in_set_takeD)
qed

lemma sourced_phase: "sourced G R s \<Longrightarrow> page_events p = [] \<Longrightarrow> sourced G R (s\<lparr>sb_phase := p\<rparr>)"
  by (simp add: sourced_def)

lemma sourced_fetch:
  "sourced G R s \<Longrightarrow> sourced G (R \<union> set (input_table (InFetch c db))) (fetch_step G re c db s)"
proof (cases db)
  case (Inr rows)
  assume "sourced G R s"
  then have s: "sourced G (R \<union> set rows) s" by (rule sourced_mono) simp
  show ?thesis
  proof (cases "fetch_after_batch rows (sb_last s)")
    case e: (Inr evs)
    then have "\<forall>ev \<in> set evs. row_event (R \<union> set rows) ev"
      using fetch_after_batch_rows row_event_mono by blast
    with s e Inr show ?thesis
      by (cases evs) (auto simp: fetch_step_def sourced_def)
  qed (use s Inr in \<open>auto simp: fetch_step_def sourced_phase sourced_close\<close>)
qed (auto simp: fetch_step_def sourced_phase sourced_close)

lemma sourced_page:
  assumes "sourced G R s" "sb_phase s = PPage re evs"
  shows "sourced G R (page_step G re evs out s)"
proof (cases evs)
  case Nil
  with assms show ?thesis by (auto simp: page_step_def sourced_def)
next
  case (Cons ev rest)
  with assms have "\<forall>e \<in> set (ev # rest). row_event R e" by (auto simp: sourced_def)
  with assms(1) Cons show ?thesis
    by (cases rest) (simp_all add: page_step_def sourced_deliver)
qed

lemma sourced_notify:
  assumes "sourced G R s"
  shows "sourced G (R \<union> set (input_table (InNotify n db out))) (notify_step G n db out s)"
proof (cases rule: notify_step_cases [of G n db out s])
  case same
  with assms show ?thesis by (auto intro: sourced_mono)
next
  case (sent ev rows)
  then have "row_event (R \<union> set rows) ev"
    using find_by_sequence_key [OF sent(2)] by (auto simp: row_event_def)
  with assms sent show ?thesis by (auto intro!: sourced_deliver intro: sourced_mono)
qed

lemma sourced_step:
  assumes "sourced G R s"
  shows "sourced G (R \<union> set (input_table i)) (subscription_step G i (sb_phase s) s)"
proof -
  have s: "sourced G (R \<union> set (input_table i)) s" using assms by (rule sourced_mono) simp
  show ?thesis
  proof (cases i)
    case (InFetch c db)
    with s sourced_fetch [OF assms, of c db] show ?thesis by (cases "sb_phase s") simp_all
  next
    case (InSend out)
    with s sourced_page [OF s] show ?thesis by (cases "sb_phase s") simp_all
  next
    case (InNotify n db out)
    with s sourced_notify [OF assms, of n db out] show ?thesis by (cases "sb_phase s") simp_all
  next
    case (InLost db)
    with s show ?thesis
      by (cases "sb_phase s"; cases db) (auto simp: lost_step_def Let_def sourced_close sourced_phase)
  qed (use s in \<open>cases "sb_phase s"; simp add: sourced_phase\<close>)+
qed

lemma sourced_run:
  "sourced G R s \<Longrightarrow> sourced G (R \<union> (\<Union>i \<in> set ins. set (input_table i))) (subscription_run G ins s)"
proof (induction ins arbitrary: R s)
  case Nil
  then show ?case by (simp add: subscription_run_def)
next
  case (Cons i ins)
  from Cons.IH [OF sourced_step [OF Cons.prems, of i]]
  show ?case by (simp add: subscription_run_def Un_assoc)
qed

text \<open>A concrete stream: the row of event 1 cannot be read when its notification arrives, event 2 is
  then delivered, and the cursor stands above event 1.\<close>

definition demo_event :: new_outbox_event where
  "demo_event = for_lightning_htlc_held ''c1'' ''hash'' 5 (Timestamp 0) JNull"

definition demo_before :: "sub_input list" where
  "demo_before =
     [InFetch False (Inr []),
      InNotify 1 (Inl (Db ''pool timed out'')) Delivered,
      InNotify 2 (Inr [publish_row 1 demo_event, publish_row 2 demo_event]) Delivered]"

definition demo_params :: grpc_params where
  "demo_params = \<lparr>gp_json = (\<lambda>_. Some ''{}''), gp_show = (\<lambda>_. ''error'')\<rparr>"

lemma payment_refusals:
  "new_payment_try_new pid decoded wallet requested fee t = Inl e \<Longrightarrow> \<not> payment_infra e"
  "new_payment_try_new_intraledger pid decoded requested wallet t = Inl e \<Longrightarrow> \<not> payment_infra e"
  "fst (mark_pending E t p) = Inl e \<Longrightarrow> \<not> payment_infra e"
  "fst (settle_payment E pre fee hops t p) = Inl e \<Longrightarrow> \<not> payment_infra e"
  "fst (fail_payment E reason t p) = Inl e \<Longrightarrow> \<not> payment_infra e"
  "fst (reverse_payment E text t p) = Inl e \<Longrightarrow> \<not> payment_infra e"
proof -
  show "new_payment_try_new pid decoded wallet requested fee t = Inl e \<Longrightarrow> \<not> payment_infra e"
    by (auto simp: new_payment_try_new_def bindR_def payment_infra_def split: if_splits option.splits sum.splits)
  show "new_payment_try_new_intraledger pid decoded requested wallet t = Inl e \<Longrightarrow> \<not> payment_infra e"
    by (auto simp: new_payment_try_new_intraledger_def bindR_def ok_or_def payment_infra_def
        split: if_splits option.splits sum.splits)
  show "fst (mark_pending E t p) = Inl e \<Longrightarrow> \<not> payment_infra e"
    by (auto simp: mark_pending_def payment_infra_def Let_def split: if_splits payment_state.splits)
qed (auto simp: settle_payment_def fail_payment_def reverse_payment_def payment_infra_def split: if_splits)

section \<open>Properties\<close>

text \<open>C18. Order and origin of the stream: whatever the queries return (each table has unique sequence
  numbers), however notifications, losses of the connection and re-backfills interleave, the sequence
  numbers sent to a subscriber strictly increase and lie above the cursor it asked for, so no event is
  sent twice; and every event sent is the wire form of a row of a table that a query saw.\<close>

theorem stream_ordered:
  assumes "\<forall>i \<in> set ins. keyed i"
  shows "sorted_wrt (<) (sint after # delivered (subscription_run G ins (subscription_start after))) \<and>
    (\<forall>pe. Inr pe \<in> set (sb_out (subscription_run G ins (subscription_start after))) \<longrightarrow>
       (\<exists>i r ev. i \<in> set ins \<and> r \<in> set (input_table i) \<and> parse_row r = Inr ev \<and> pe = to_wire G ev))"
proof -
  let ?s = "subscription_start after"
  have "advances ?s (subscription_run G ins ?s)"
    using assms run_advances [of ?s ins G] by (simp add: subscription_start_def)
  moreover have "sourced G (\<Union>i \<in> set ins. set (input_table i)) (subscription_run G ins ?s)"
    using sourced_run [of G "{}" ?s ins] by (simp add: sourced_def subscription_start_def)
  moreover have "delivered ?s = []" "sb_last ?s = after"
    by (simp_all add: delivered_def subscription_start_def List.map_filter_def)
  ultimately show ?thesis
    unfolding advances_def sourced_def row_event_def by fastforce
qed

theorem stream_ordered_witness:
  "sorted_wrt (<) (0 # delivered (subscription_run demo_params demo_before (subscription_start 0))) \<and>
   delivered (subscription_run demo_params demo_before (subscription_start 0)) = [2]"
proof -
  have "\<forall>i \<in> set demo_before. keyed i" by (simp add: demo_before_def keyed_def publish_row_def)
  from stream_ordered [OF this, of 0 demo_params]
  have "sorted_wrt (<) (sint (0 :: i64) # delivered (subscription_run demo_params demo_before (subscription_start 0)))"
    by (rule conjunct1)
  moreover have "delivered (subscription_run demo_params demo_before (subscription_start 0)) = [2]" by code_simp
  ultimately show ?thesis by simp
qed

text \<open>No error of the domain rules is reported as transient: whatever a validating constructor or
  a command of either aggregate refuses with is mapped to \<open>InvalidArgument\<close>, never to a status that
  asks the caller to retry.\<close>

lemma domain_refusals_not_retryable:
  assumes "new_payment_try_new pid decoded wallet requested fee t = Inl e \<or>
    new_payment_try_new_intraledger pid decoded requested wallet t = Inl e \<or>
    fst (mark_pending E t p) = Inl e \<or> fst (settle_payment E pre fee hops t p) = Inl e \<or>
    fst (fail_payment E reason t p) = Inl e \<or> fst (reverse_payment E text t p) = Inl e"
    and "new_invoice_try_new iid hash pre wallet amount expiry bolt ext t = Inl e' \<or>
    fst (mark_held E' fee t i) = Inl e' \<or> fst (settle_invoice E' t i) = Inl e' \<or>
    fst (settle_intraledger E' t i) = Inl e' \<or> fst (cancel_invoice E' why t i) = Inl e'"
  shows "app_status D (AppPayment e) = Some (Status Code_InvalidArgument (show_payment D e)) \<and>
    app_status D (AppInvoice e') = Some (Status Code_InvalidArgument (show_invoice D e'))"
proof
  have "\<not> payment_infra e"
    using assms(1) by (elim disjE) (erule payment_refusals)+
  then show "app_status D (AppPayment e) = Some (Status Code_InvalidArgument (show_payment D e))"
    by (simp add: app_status_def)
  have "\<not> invoice_infra e'"
    using assms(2)
    by (auto simp: new_invoice_try_new_def mark_held_def settle_invoice_def settle_intraledger_def
        cancel_invoice_def invoice_infra_def Let_def split: if_splits option.splits)
  then show "app_status D (AppInvoice e') = Some (Status Code_InvalidArgument (show_invoice D e'))"
    by (simp add: app_status_def)
qed

end
