(* ===== verification/Grpc_Stream.thy ===== *)
theory Grpc_Stream
  imports Grpc_Service
begin

text \<open>
  The event stream of \<open>src/api/grpc/service.rs\<close> as a whole: the paging loop ends over a table that
  does not change, and the stream, run beside committing transactions and a \<open>LISTEN\<close> connection that
  stays up, refines a follower of the log. The gap that a reconnect opens is shown by a run.
\<close>

section \<open>Rows and their events\<close>

definition parsed :: "outbox_row list \<Rightarrow> outbox_event list" where
  "parsed rows = List.map_filter (\<lambda>r. ok (parse_row r)) rows"

definition wire_log :: "grpc_params \<Rightarrow> outbox_row list \<Rightarrow> i64 \<Rightarrow> proto_payment_event list" where
  "wire_log G rows after = map (to_wire G) (parsed (rows_after rows after))"

lemma parsed_simps [simp]:
  "parsed [] = []"
  "parse_row r = Inr ev \<Longrightarrow> parsed (r # rs) = ev # parsed rs"
  "parsed (xs @ ys) = parsed xs @ parsed ys"
  by (simp_all add: parsed_def List.map_filter_def)

lemma parsed_wf: "list_all wf_row rows \<Longrightarrow> map parse_row rows = map Inr (parsed rows)"
  by (induction rows) (auto simp: wf_row_def)

lemma parsed_length: "list_all wf_row rows \<Longrightarrow> length (parsed rows) = length rows"
  by (metis length_map parsed_wf)

lemma parsed_sequences:
  "list_all wf_row rows \<Longrightarrow> map ob_sequence (parsed rows) = map row_sequence rows"
  by (induction rows) (auto simp: wf_row_def parse_row_fields)

lemma fetch_after_batch_wf:
  assumes "list_all wf_row (rows_after rows cur)"
  shows "fetch_after_batch rows cur = Inr (parsed (take BACKFILL_BATCH_SIZE (rows_after rows cur)))"
proof -
  have "list_all wf_row (take BACKFILL_BATCH_SIZE (rows_after rows cur))"
    using assms by (auto simp: list_all_iff dest: in_set_takeD)
  then show ?thesis by (simp add: fetch_after_batch_def parsed_wf collectR_Inr_iff)
qed

section \<open>The paging loop ends\<close>

text \<open>The input the loop waits for when the table is \<open>rows\<close> and every send succeeds; in the other
  phases an input that changes nothing.\<close>

fun awaited :: "outbox_row list \<Rightarrow> sub_phase \<Rightarrow> sub_input" where
  "awaited rows (PBackfill re) = InFetch False (Inr rows)"
| "awaited rows _ = InSend Delivered"

definition drive_step :: "grpc_params \<Rightarrow> outbox_row list \<Rightarrow> sub_state \<Rightarrow> sub_state" where
  "drive_step G rows s = subscription_step G (awaited rows (sb_phase s)) (sb_phase s) s"

definition backfill_drive :: "grpc_params \<Rightarrow> outbox_row list \<Rightarrow> nat \<Rightarrow> sub_state \<Rightarrow> sub_state" where
  "backfill_drive G rows k s = (drive_step G rows ^^ k) s"

lemma backfill_drive_add: "backfill_drive G rows (j + k) s = backfill_drive G rows k (backfill_drive G rows j s)"
  by (simp add: backfill_drive_def add.commute [of j] funpow_add)

lemma backfill_drive_Suc: "backfill_drive G rows (Suc k) s = backfill_drive G rows k (drive_step G rows s)"
  by (simp add: backfill_drive_def funpow_swap1)

lemma drive_live: "sb_phase s = PLive \<Longrightarrow> backfill_drive G rows k s = s"
  by (induction k) (simp_all add: backfill_drive_def drive_step_def)

text \<open>One page: every event of it is sent, in order.\<close>

lemma drive_page:
  "evs \<noteq> [] \<Longrightarrow> sb_phase s = PPage re evs \<Longrightarrow>
   backfill_drive G rows (length evs) s =
     s\<lparr>sb_phase := PBackfill re, sb_last := ob_sequence (last evs), sb_out := sb_out s @ map (\<lambda>ev. Inr (to_wire G ev)) evs\<rparr>"
proof (induction evs arbitrary: s)
  case (Cons ev evs)
  show ?case
  proof (cases evs)
    case Nil
    with Cons.prems show ?thesis
      by (simp add: backfill_drive_def drive_step_def page_step_def deliver_def)
  next
    case (Cons e es)
    let ?t = "deliver G ev Delivered (PPage re evs) s"
    have "drive_step G rows s = ?t"
      using Cons.prems Cons by (simp add: drive_step_def page_step_def)
    moreover have "sb_phase ?t = PPage re evs" by (simp add: deliver_def)
    ultimately show ?thesis
      using Cons.IH [of ?t] Cons by (simp add: backfill_drive_Suc) (simp add: deliver_def)
  qed
qed simp

definition pages :: "nat \<Rightarrow> nat" where
  "pages n = (n + 999) div 1000"

lemma pages_step:
  assumes "l = p + r" "0 < p" "p = min 1000 l"
  shows "pages l = Suc (pages r)"
proof -
  have "p = 1000 \<or> 0 < p \<and> p \<le> 1000 \<and> r = 0" using assms by (auto simp: min_def split: if_splits)
  then show ?thesis
  proof
    assume "p = 1000"
    then show ?thesis using assms(1) by (simp add: pages_def)
  next
    assume "0 < p \<and> p \<le> 1000 \<and> r = 0"
    then have "pages l = 1" "pages r = 0" using assms(1) by (auto simp: pages_def intro!: div_nat_eqI)
    then show ?thesis by simp
  qed
qed

lemma drive_to_live:
  assumes "distinct (map row_sequence rows)" and "sb_phase s = PBackfill re"
    and "list_all wf_row (rows_after rows (sb_last s))"
  shows "let later = rows_after rows (sb_last s); n = length later in
    backfill_drive G rows (n + pages n + 1) s =
      s\<lparr>sb_phase := PLive, sb_last := (if later = [] then sb_last s else row_sequence (last later)),
        sb_out := sb_out s @ map (\<lambda>ev. Inr (to_wire G ev)) (parsed later)\<rparr>"
  using assms(2,3)
proof (induction "length (rows_after rows (sb_last s))" arbitrary: s rule: less_induct)
  case less
  define later where "later = rows_after rows (sb_last s)"
  show ?case
  proof (cases "later = []")
    case True
    then have "drive_step G rows s = s\<lparr>sb_phase := PLive\<rparr>"
      using less.prems later_def
      by (simp add: drive_step_def fetch_step_def fetch_after_batch_def)
    with True show ?thesis
      by (simp add: backfill_drive_Suc pages_def later_def [symmetric] backfill_drive_def)
  next
    case False
    define page where "page = take BACKFILL_BATCH_SIZE later"
    define rest where "rest = drop BACKFILL_BATCH_SIZE later"
    have lp: "later = page @ rest" and page: "page \<noteq> []" "length page = min 1000 (length later)"
      using False by (auto simp: page_def rest_def BACKFILL_BATCH_SIZE_def)
    have wf: "list_all wf_row page" "list_all wf_row rest"
      using less.prems(2) lp by (simp_all add: later_def)
    have evs: "parsed page \<noteq> []" "length (parsed page) = length page"
      using parsed_length [OF wf(1)] page(1) by auto
    have "ob_sequence (last (parsed page)) = row_sequence (last page)"
      using parsed_sequences [OF wf(1)] evs(1) page(1) by (metis last_map)
    let ?t = "s\<lparr>sb_phase := PBackfill re, sb_last := row_sequence (last page),
      sb_out := sb_out s @ map (\<lambda>ev. Inr (to_wire G ev)) (parsed page)\<rparr>"
    have "drive_step G rows s = s\<lparr>sb_phase := PPage re (parsed page)\<rparr>"
      using less.prems evs(1) fetch_after_batch_wf [of rows "sb_last s"]
      by (simp add: drive_step_def fetch_step_def later_def page_def split: list.split)
    then have d1: "backfill_drive G rows (Suc (length page)) s = ?t"
      using drive_page [OF evs(1), of "s\<lparr>sb_phase := PPage re (parsed page)\<rparr>" re G rows] evs(2) \<open>ob_sequence _ = _\<close>
      by (simp add: backfill_drive_Suc)
    have "rows_after rows (sb_last s) = butlast page @ last page # rest"
      using lp page(1) by (simp add: later_def)
    then have rest: "rows_after rows (row_sequence (last page)) = rest"
      by (rule rows_after_step [OF assms(1)])
    have d2: "backfill_drive G rows (length rest + pages (length rest) + 1) ?t =
        ?t\<lparr>sb_phase := PLive, sb_last := (if rest = [] then sb_last ?t else row_sequence (last rest)),
          sb_out := sb_out ?t @ map (\<lambda>ev. Inr (to_wire G ev)) (parsed rest)\<rparr>"
      using less.hyps [of ?t] lp page(1) wf(2) rest by (simp add: later_def [symmetric] Let_def)
    have steps: "length later + pages (length later) + 1 =
        Suc (length page) + (length rest + pages (length rest) + 1)"
    proof -
      have l: "length later = length page + length rest" using arg_cong [OF lp, of length] by simp
      have "pages (length later) = Suc (pages (length rest))"
        using l page False by (intro pages_step [of _ "length page"]) simp_all
      with l show ?thesis by linarith
    qed
    have "backfill_drive G rows (length later + pages (length later) + 1) s =
        ?t\<lparr>sb_phase := PLive, sb_last := (if rest = [] then sb_last ?t else row_sequence (last rest)),
          sb_out := sb_out ?t @ map (\<lambda>ev. Inr (to_wire G ev)) (parsed rest)\<rparr>"
      unfolding steps backfill_drive_add [of G rows "Suc (length page)"] d1 by (rule d2)
    moreover have "row_sequence (last later) = (if rest = [] then row_sequence (last page) else row_sequence (last rest))"
      and "parsed later = parsed page @ parsed rest"
      using lp by simp_all
    ultimately show ?thesis
      using False by (simp add: later_def [symmetric] Let_def)
  qed
qed

section \<open>The stream beside committing transactions\<close>

text \<open>The table, the notifications that are queued for the subscriber, and the subscriber. A commit
  draws a sequence number above all committed ones, and its trigger notifies; the connection stays up
  and every send succeeds.\<close>

record stream_sys =
  sy_table :: "outbox_row list"
  sy_queue :: "i64 list"
  sy_sub :: sub_state

fun paging :: "sub_phase \<Rightarrow> bool" where
  "paging (PBackfill re) \<longleftrightarrow> True"
| "paging (PPage re evs) \<longleftrightarrow> True"
| "paging _ \<longleftrightarrow> False"

inductive stream_step :: "grpc_params \<Rightarrow> stream_sys \<Rightarrow> stream_sys \<Rightarrow> bool" for G where
  commit: "\<forall>r \<in> set (sy_table Y). sint (row_sequence r) < sint n \<Longrightarrow>
    stream_step G Y (Y\<lparr>sy_table := sy_table Y @ [publish_row n ev], sy_queue := sy_queue Y @ [n]\<rparr>)"
| page: "paging (sb_phase (sy_sub Y)) \<Longrightarrow>
    stream_step G Y (Y\<lparr>sy_sub := drive_step G (sy_table Y) (sy_sub Y)\<rparr>)"
| notify: "sb_phase (sy_sub Y) = PLive \<Longrightarrow> sy_queue Y = n # q \<Longrightarrow>
    stream_step G Y (Y\<lparr>sy_queue := q,
      sy_sub := subscription_step G (InNotify n (Inr (sy_table Y)) Delivered) PLive (sy_sub Y)\<rparr>)"

inductive_cases stream_stepE: "stream_step G Y Y'"

inductive stream_reach :: "grpc_params \<Rightarrow> outbox_row list \<Rightarrow> i64 \<Rightarrow> stream_sys \<Rightarrow> bool" for G rows after where
  start: "stream_reach G rows after \<lparr>sy_table = rows, sy_queue = [], sy_sub = subscription_start after\<rparr>"
| step: "stream_reach G rows after Y \<Longrightarrow> stream_step G Y Y' \<Longrightarrow> stream_reach G rows after Y'"

text \<open>The specification: a log that grows at its end, and a reader that takes its next entry.\<close>

record 'e follower =
  fo_log :: "'e list"
  fo_pos :: nat

inductive follow_step :: "'e follower \<Rightarrow> 'e follower \<Rightarrow> bool" where
  append: "follow_step F (F\<lparr>fo_log := fo_log F @ [x]\<rparr>)"
| read: "fo_pos F < length (fo_log F) \<Longrightarrow> follow_step F (F\<lparr>fo_pos := Suc (fo_pos F)\<rparr>)"

definition follower_of :: "grpc_params \<Rightarrow> i64 \<Rightarrow> stream_sys \<Rightarrow> proto_payment_event follower" where
  "follower_of G after Y = \<lparr>fo_log = wire_log G (sy_table Y) after, fo_pos = length (sb_out (sy_sub Y))\<rparr>"

definition rows_ok :: "outbox_row list \<Rightarrow> bool" where
  "rows_ok rows \<longleftrightarrow> distinct (map row_sequence rows) \<and> list_all wf_row rows"

text \<open>The invariant: the later rows are those delivered followed by those above the cursor; a page is a
  prefix of the rows above the cursor; in the live phase the queued notifications above the cursor are
  exactly those of the rows above it.\<close>

fun phase_inv :: "outbox_row list \<Rightarrow> i64 list \<Rightarrow> i64 \<Rightarrow> sub_phase \<Rightarrow> bool" where
  "phase_inv rows q cur (PPage re evs) \<longleftrightarrow> evs \<noteq> [] \<and> (\<exists>rest. parsed (rows_after rows cur) = evs @ rest)"
| "phase_inv rows q cur PLive \<longleftrightarrow>
     filter (\<lambda>n. sint cur < sint n) q = map row_sequence (rows_after rows cur)"
| "phase_inv rows q cur (PBackfill re) \<longleftrightarrow> True"
| "phase_inv rows q cur PClosed \<longleftrightarrow> False"

definition read_inv :: "grpc_params \<Rightarrow> i64 \<Rightarrow> outbox_row list \<Rightarrow> sub_state \<Rightarrow> bool" where
  "read_inv G after rows s \<longleftrightarrow>
     (sb_last s = after \<or> sb_last s \<in> set (map row_sequence rows) \<and> sint after < sint (sb_last s)) \<and>
     (\<exists>front. rows_after rows after = front @ rows_after rows (sb_last s) \<and>
        sb_out s = map (\<lambda>ev. Inr (to_wire G ev)) (parsed front))"

definition stream_inv :: "grpc_params \<Rightarrow> i64 \<Rightarrow> stream_sys \<Rightarrow> bool" where
  "stream_inv G after Y \<longleftrightarrow>
     rows_ok (sy_table Y) \<and> set (sy_queue Y) \<subseteq> set (map row_sequence (sy_table Y)) \<and>
     read_inv G after (sy_table Y) (sy_sub Y) \<and>
     phase_inv (sy_table Y) (sy_queue Y) (sb_last (sy_sub Y)) (sb_phase (sy_sub Y))"

lemma rows_after_commit:
  assumes "\<forall>r \<in> set T. sint (row_sequence r) < sint (row_sequence x)"
  shows "rows_after (T @ [x]) cur = rows_after T cur @ (if sint cur < sint (row_sequence x) then [x] else [])"
proof -
  let ?f = "\<lambda>r. sint (row_sequence r)"
  have "sort_key ?f (xs @ [x]) = sort_key ?f xs @ [x]" if "\<forall>r \<in> set xs. ?f r < ?f x" for xs
    using that
  proof (induction xs)
    case (Cons y ys)
    have "insort_key ?f y (zs @ [x]) = insort_key ?f y zs @ [x]" for zs
      using Cons.prems by (induction zs) auto
    with Cons show ?case by simp
  qed simp
  with assms show ?thesis by (simp add: rows_after_def)
qed

lemma rows_ok_after: "rows_ok T \<Longrightarrow> list_all wf_row (rows_after T cur)"
  by (simp add: rows_ok_def list_all_iff set_rows_after)

lemma read_inv_commit:
  assumes "read_inv G after T s" and new: "\<forall>r \<in> set T. sint (row_sequence r) < sint (row_sequence x)"
  shows "read_inv G after (T @ [x]) s"
proof -
  from assms(1) obtain front where f: "rows_after T after = front @ rows_after T (sb_last s)"
    "sb_out s = map (\<lambda>ev. Inr (to_wire G ev)) (parsed front)" by (auto simp: read_inv_def)
  have "sint after < sint (row_sequence x) \<longleftrightarrow> sint (sb_last s) < sint (row_sequence x)"
    using assms by (force simp: read_inv_def)
  with f have "rows_after (T @ [x]) after = front @ rows_after (T @ [x]) (sb_last s)"
    by (simp add: rows_after_commit [OF new])
  with f(2) assms(1) show ?thesis by (auto simp: read_inv_def)
qed

lemma stream_inv_commit:
  assumes inv: "stream_inv G after Y" and new: "\<forall>r \<in> set (sy_table Y). sint (row_sequence r) < sint n"
  shows "stream_inv G after (Y\<lparr>sy_table := sy_table Y @ [publish_row n ev], sy_queue := sy_queue Y @ [n]\<rparr>)"
proof -
  let ?T = "sy_table Y" and ?x = "publish_row n ev" and ?cur = "sb_last (sy_sub Y)"
  have x [simp]: "row_sequence ?x = n" by (simp add: publish_row_def)
  have wx: "wf_row ?x" by (simp add: wf_row_def parse_publish_row)
  have new': "\<forall>r \<in> set ?T. sint (row_sequence r) < sint (row_sequence ?x)" using new by simp
  have "rows_ok (?T @ [?x])"
    using inv new wx by (auto simp: rows_ok_def stream_inv_def)
  moreover have "read_inv G after (?T @ [?x]) (sy_sub Y)"
    using inv new' by (simp add: stream_inv_def read_inv_commit)
  moreover have "phase_inv (?T @ [?x]) (sy_queue Y @ [n]) ?cur (sb_phase (sy_sub Y))"
    using inv by (cases "sb_phase (sy_sub Y)") (auto simp: rows_after_commit [OF new'] stream_inv_def)
  ultimately show ?thesis
    using inv by (auto simp: stream_inv_def)
qed

lemma read_inv_deliver:
  assumes "read_inv G after T s" and "rows_ok T"
    and head: "rows_after T (sb_last s) = r # ys" and ev: "parse_row r = Inr ev"
  shows "read_inv G after T (deliver G ev Delivered p s) \<and> rows_after T (ob_sequence ev) = ys"
proof -
  from assms(1) obtain front where f: "rows_after T after = front @ r # ys"
    "sb_out s = map (\<lambda>ev. Inr (to_wire G ev)) (parsed front)"
    using head by (auto simp: read_inv_def)
  have seq: "ob_sequence ev = row_sequence r" using ev by (rule parse_row_fields)
  have ys: "rows_after T (ob_sequence ev) = ys"
    using rows_after_step [of T after front r ys] f(1) assms(2) seq by (simp add: rows_ok_def)
  have "r \<in> set (rows_after T after)" using f(1) by simp
  then have "row_sequence r \<in> set (map row_sequence T)" "sint after < sint (row_sequence r)"
    by (auto simp: set_rows_after)
  with f ys seq ev show ?thesis
    by (auto simp: read_inv_def deliver_def intro!: exI [of _ "front @ [r]"])
qed

lemma stream_inv_fetch:
  assumes inv: "stream_inv G after Y" and ph: "sb_phase (sy_sub Y) = PBackfill re"
  shows "stream_inv G after (Y\<lparr>sy_sub := drive_step G (sy_table Y) (sy_sub Y)\<rparr>)"
proof -
  let ?T = "sy_table Y" and ?s = "sy_sub Y"
  have wf: "list_all wf_row (rows_after ?T (sb_last ?s))"
    using inv by (simp add: stream_inv_def rows_ok_after)
  have page: "fetch_after_batch ?T (sb_last ?s) = Inr (parsed (take BACKFILL_BATCH_SIZE (rows_after ?T (sb_last ?s))))"
    using wf by (rule fetch_after_batch_wf)
  show ?thesis
  proof (cases "rows_after ?T (sb_last ?s)")
    case Nil
    then have "filter (\<lambda>n. sint (sb_last ?s) < sint n) (sy_queue Y) = []"
      using inv set_rows_after [of ?T "sb_last ?s"] by (fastforce simp: stream_inv_def filter_empty_conv)
    with inv ph page Nil show ?thesis
      by (simp add: drive_step_def fetch_step_def stream_inv_def read_inv_def)
  next
    case (Cons r ys)
    define evs where "evs = parsed (take BACKFILL_BATCH_SIZE (rows_after ?T (sb_last ?s)))"
    from wf Cons have "evs \<noteq> []"
      by (auto simp: evs_def BACKFILL_BATCH_SIZE_def wf_row_def take_Cons')
    moreover have "parsed (rows_after ?T (sb_last ?s)) =
        evs @ parsed (drop BACKFILL_BATCH_SIZE (rows_after ?T (sb_last ?s)))"
      by (metis evs_def append_take_drop_id parsed_simps(3))
    ultimately show ?thesis
      using inv ph page by (auto simp: drive_step_def fetch_step_def stream_inv_def read_inv_def evs_def [symmetric]
          split: list.split)
  qed
qed

lemma stream_inv_send:
  assumes inv: "stream_inv G after Y" and ph: "sb_phase (sy_sub Y) = PPage re evs"
  shows "stream_inv G after (Y\<lparr>sy_sub := drive_step G (sy_table Y) (sy_sub Y)\<rparr>)"
proof -
  let ?T = "sy_table Y" and ?s = "sy_sub Y"
  from inv ph obtain ev es rest where evs: "evs = ev # es" "parsed (rows_after ?T (sb_last ?s)) = ev # es @ rest"
    by (cases evs) (auto simp: stream_inv_def)
  have ok: "rows_ok ?T" using inv by (simp add: stream_inv_def)
  from rows_ok_after [OF ok, of "sb_last ?s"] evs(2) obtain r ys where
    r: "rows_after ?T (sb_last ?s) = r # ys" "parse_row r = Inr ev" "parsed ys = es @ rest"
    by (cases "rows_after ?T (sb_last ?s)") (auto simp: wf_row_def)
  define p where "p = (if es = [] then PBackfill re else PPage re es)"
  have "drive_step G ?T ?s = deliver G ev Delivered p ?s"
    using ph evs(1) by (cases es) (simp_all add: drive_step_def page_step_def p_def)
  moreover have "phase_inv ?T (sy_queue Y) (ob_sequence ev) p"
    using read_inv_deliver [of G after ?T ?s r ys ev p] inv ok r by (auto simp: p_def stream_inv_def)
  ultimately show ?thesis
    using read_inv_deliver [of G after ?T ?s r ys ev p] inv ok r
    by (simp add: stream_inv_def deliver_fields(1)) (simp add: deliver_def)
qed

lemma find_by_sequence_unique:
  assumes "distinct (map row_sequence T)" and "r \<in> set T" and "parse_row r = Inr ev"
  shows "find_by_sequence T (row_sequence r) = Inr (Some ev)"
proof -
  have "find (\<lambda>x. row_sequence x = row_sequence r) T = Some r"
    using assms(1,2) by (induction T) auto
  with assms(3) show ?thesis by (simp add: find_by_sequence_def)
qed

lemma stream_inv_notify:
  assumes inv: "stream_inv G after Y" and ph: "sb_phase (sy_sub Y) = PLive" and q: "sy_queue Y = n # q"
  shows "stream_inv G after (Y\<lparr>sy_queue := q, sy_sub := notify_step G n (Inr (sy_table Y)) Delivered (sy_sub Y)\<rparr>)"
proof (cases "sint n \<le> sint (sb_last (sy_sub Y))")
  case True
  with inv ph q show ?thesis by (auto simp: stream_inv_def notify_step_def)
next
  case False
  let ?T = "sy_table Y" and ?s = "sy_sub Y"
  have ok: "rows_ok ?T" using inv by (simp add: stream_inv_def)
  from inv ph q False obtain r ys where r: "rows_after ?T (sb_last ?s) = r # ys" "row_sequence r = n"
    and qs: "filter (\<lambda>m. sint (sb_last ?s) < sint m) q = map row_sequence ys"
    by (cases "rows_after ?T (sb_last ?s)") (auto simp: stream_inv_def)
  from rows_ok_after [OF ok, of "sb_last ?s"] r obtain ev where ev: "parse_row r = Inr ev"
    by (auto simp: wf_row_def)
  have "r \<in> set ?T" using r(1) set_rows_after [of ?T "sb_last ?s"] by auto
  then have "find_by_sequence ?T n = Inr (Some ev)"
    using find_by_sequence_unique [of ?T r ev] ok ev r(2) by (simp add: rows_ok_def)
  moreover have seq: "ob_sequence ev = n" using parse_row_fields(1) [OF ev] r(2) by simp
  ultimately have step: "notify_step G n (Inr ?T) Delivered ?s = deliver G ev Delivered PLive ?s"
    using False by (simp add: notify_step_def deliver_def)
  have del: "read_inv G after ?T (deliver G ev Delivered PLive ?s)" "rows_after ?T n = ys"
    using read_inv_deliver [of G after ?T ?s r ys ev PLive] inv ok r ev seq by (simp_all add: stream_inv_def)
  have "filter (\<lambda>m. sint n < sint m) q = filter (\<lambda>m. sint n < sint m) (filter (\<lambda>m. sint (sb_last ?s) < sint m) q)"
    using False by (auto intro!: filter_cong)
  also have "\<dots> = map row_sequence ys"
    unfolding qs using set_rows_after [of ?T n] del(2) by (auto simp: filter_id_conv)
  finally have "phase_inv ?T q n PLive" using del(2) by simp
  with del(1) inv q show ?thesis
    by (simp add: stream_inv_def step deliver_fields(1) seq) (simp add: deliver_def)
qed

lemma stream_inv_paging:
  "stream_inv G after Y \<Longrightarrow> paging (sb_phase (sy_sub Y)) \<Longrightarrow>
   stream_inv G after (Y\<lparr>sy_sub := drive_step G (sy_table Y) (sy_sub Y)\<rparr>)"
  using stream_inv_fetch stream_inv_send by (cases "sb_phase (sy_sub Y)") simp_all

lemma stream_inv_step: "stream_inv G after Y \<Longrightarrow> stream_step G Y Y' \<Longrightarrow> stream_inv G after Y'"
  by (erule stream_stepE) (auto simp: stream_inv_commit stream_inv_paging stream_inv_notify)

lemma stream_inv_reach: "rows_ok rows \<Longrightarrow> stream_reach G rows after Y \<Longrightarrow> stream_inv G after Y"
proof (rotate_tac 1, induction rule: stream_reach.induct)
  case start
  then show ?case by (simp add: stream_inv_def read_inv_def subscription_start_def)
qed (simp add: stream_inv_step)

text \<open>Under the invariant the subscriber has what the follower has read, and a step of the system is a
  step of the follower or invisible to it.\<close>

lemma follower_prefix:
  assumes "stream_inv G after Y"
  shows "sb_out (sy_sub Y) = map Inr (take (fo_pos (follower_of G after Y)) (fo_log (follower_of G after Y)))"
    and "fo_log (follower_of G after Y) =
      take (fo_pos (follower_of G after Y)) (fo_log (follower_of G after Y)) @
      wire_log G (sy_table Y) (sb_last (sy_sub Y))"
proof -
  from assms obtain front where "rows_after (sy_table Y) after = front @ rows_after (sy_table Y) (sb_last (sy_sub Y))"
    "sb_out (sy_sub Y) = map (\<lambda>ev. Inr (to_wire G ev)) (parsed front)"
    by (auto simp: stream_inv_def read_inv_def)
  then show "sb_out (sy_sub Y) = map Inr (take (fo_pos (follower_of G after Y)) (fo_log (follower_of G after Y)))"
    and "fo_log (follower_of G after Y) =
      take (fo_pos (follower_of G after Y)) (fo_log (follower_of G after Y)) @
      wire_log G (sy_table Y) (sb_last (sy_sub Y))"
    by (simp_all add: follower_of_def wire_log_def)
qed

lemma follower_pos_le: "stream_inv G after Y \<Longrightarrow> fo_pos (follower_of G after Y) \<le> length (fo_log (follower_of G after Y))"
  using follower_prefix(1) [of G after Y] by (metis follower.select_convs(2) follower_of_def length_map length_take min.cobounded1)

lemma follow_read:
  assumes "stream_inv G after Y" "stream_inv G after Y'" "sy_table Y' = sy_table Y"
    and "length (sb_out (sy_sub Y')) \<in> {length (sb_out (sy_sub Y)), Suc (length (sb_out (sy_sub Y)))}"
  shows "follow_step (follower_of G after Y) (follower_of G after Y') \<or> follower_of G after Y' = follower_of G after Y"
proof (cases "length (sb_out (sy_sub Y')) = length (sb_out (sy_sub Y))")
  case False
  with assms(4) have pos: "fo_pos (follower_of G after Y') = Suc (fo_pos (follower_of G after Y))"
    by (simp add: follower_of_def)
  then have "fo_pos (follower_of G after Y) < length (fo_log (follower_of G after Y))"
    using follower_pos_le [OF assms(2)] assms(3) by (simp add: follower_of_def)
  moreover have "follower_of G after Y' = (follower_of G after Y)\<lparr>fo_pos := Suc (fo_pos (follower_of G after Y))\<rparr>"
    using pos assms(3) by (simp add: follower_of_def)
  ultimately show ?thesis using follow_step.read by metis
qed (use assms(3) in \<open>simp add: follower_of_def\<close>)

lemma stream_step_refines:
  assumes inv: "stream_inv G after Y" and step: "stream_step G Y Y'"
  shows "follow_step (follower_of G after Y) (follower_of G after Y') \<or> follower_of G after Y' = follower_of G after Y"
  using step
proof cases
  case (commit n ev)
  have ra: "rows_after (sy_table Y @ [publish_row n ev]) after =
      rows_after (sy_table Y) after @ (if sint after < sint n then [publish_row n ev] else [])"
    using rows_after_commit [of "sy_table Y" "publish_row n ev" after] commit(2) by (simp add: publish_row_def)
  show ?thesis
  proof (cases "sint after < sint n")
    case True
    obtain e where "parse_row (publish_row n ev) = Inr e" by (auto simp: parse_publish_row)
    with True commit ra have "follower_of G after Y' =
        (follower_of G after Y)\<lparr>fo_log := fo_log (follower_of G after Y) @ [to_wire G e]\<rparr>"
      by (simp add: follower_of_def wire_log_def)
    then show ?thesis using follow_step.append by metis
  next
    case False
    with commit ra show ?thesis by (simp add: follower_of_def wire_log_def)
  qed
next
  case page
  have "length (sb_out (drive_step G (sy_table Y) (sy_sub Y))) \<in>
      {length (sb_out (sy_sub Y)), Suc (length (sb_out (sy_sub Y)))}"
    using inv page(2) rows_ok_after [of "sy_table Y" "sb_last (sy_sub Y)"]
    by (cases "sb_phase (sy_sub Y)")
      (auto simp: drive_step_def fetch_step_def page_step_def stream_inv_def fetch_after_batch_wf deliver_def
        split: list.split)
  with page inv stream_inv_step [OF inv step] show ?thesis by (intro follow_read) simp_all
next
  case (notify n q)
  have "length (sb_out (notify_step G n (Inr (sy_table Y)) Delivered (sy_sub Y))) \<in>
      {length (sb_out (sy_sub Y)), Suc (length (sb_out (sy_sub Y)))}"
    by (cases rule: notify_step_cases [of G n "Inr (sy_table Y)" Delivered "sy_sub Y"]) (simp_all add: deliver_def)
  with notify inv stream_inv_step [OF inv step] show ?thesis by (intro follow_read) simp_all
qed

text \<open>A run: one row is backfilled, the stream goes live, a second row commits and is notified.\<close>

definition demo_rows :: "outbox_row list" where
  "demo_rows = [publish_row 1 demo_event]"

definition demo_drive :: "stream_sys \<Rightarrow> stream_sys" where
  "demo_drive Y = Y\<lparr>sy_sub := drive_step demo_params (sy_table Y) (sy_sub Y)\<rparr>"

definition demo_backfilled :: stream_sys where
  "demo_backfilled = demo_drive (demo_drive (demo_drive
     \<lparr>sy_table = demo_rows, sy_queue = [], sy_sub = subscription_start 0\<rparr>))"

definition demo_committed :: stream_sys where
  "demo_committed = demo_backfilled\<lparr>sy_table := sy_table demo_backfilled @ [publish_row 2 demo_event],
     sy_queue := sy_queue demo_backfilled @ [2]\<rparr>"

definition demo_live :: stream_sys where
  "demo_live = demo_committed\<lparr>sy_queue := [],
     sy_sub := subscription_step demo_params (InNotify 2 (Inr (sy_table demo_committed)) Delivered) PLive
       (sy_sub demo_committed)\<rparr>"

lemma demo_rows_ok: "rows_ok demo_rows"
  by (simp add: rows_ok_def demo_rows_def wf_row_def parse_publish_row)

lemma demo_reach: "stream_reach demo_params demo_rows 0 demo_live"
proof -
  let ?R = "stream_reach demo_params demo_rows 0"
  let ?Y = "\<lparr>sy_table = demo_rows, sy_queue = [], sy_sub = subscription_start 0\<rparr>"
  have drive: "?R Y \<Longrightarrow> paging (sb_phase (sy_sub Y)) \<Longrightarrow> ?R (demo_drive Y)" for Y
    unfolding demo_drive_def by (erule stream_reach.step) (rule stream_step.page)
  have "paging (sb_phase (sy_sub ?Y))" "paging (sb_phase (sy_sub (demo_drive ?Y)))"
    "paging (sb_phase (sy_sub (demo_drive (demo_drive ?Y))))"
    by code_simp+
  then have bf: "?R demo_backfilled"
    unfolding demo_backfilled_def by (intro drive stream_reach.start)
  have above: "\<forall>r \<in> set (sy_table demo_backfilled). sint (row_sequence r) < sint (2 :: i64)"
    by code_simp
  have com: "?R demo_committed"
    unfolding demo_committed_def by (rule stream_reach.step [OF bf stream_step.commit [OF above]])
  have live: "sb_phase (sy_sub demo_committed) = PLive" "sy_queue demo_committed = [2]" by code_simp+
  show ?thesis
    unfolding demo_live_def by (rule stream_reach.step [OF com stream_step.notify [OF live]])
qed

text \<open>What the connection task sends, as the subscription receives it.\<close>

fun received :: "table \<Rightarrow> outbox_error + i64 \<Rightarrow> sub_input" where
  "received db (Inr n) = InNotify n db Delivered"
| "received db (Inl ListenDisconnected) = InLost db"
| "received db (Inl e) = InNotifyError e"

text \<open>A reconnect: the loss is reported, the subscription re-reads the table, the task sleeps and listens
  again. Event 1 commits after the re-read and before the new \<open>LISTEN\<close>; event 2 commits after it.\<close>

definition gap_listen :: "listen_obs list" where
  "gap_listen = [ObsConnected, ObsListening, ObsChannelClosed, ObsConnected, ObsListening, ObsNotification ''2'']"

definition gap_rows :: "outbox_row list" where
  "gap_rows = [publish_row 1 demo_event, publish_row 2 demo_event]"

definition gap_inputs :: "(outbox_error + i64) list \<Rightarrow> sub_input list" where
  "gap_inputs out =
     [InFetch False (Inr []), received (Inr []) (out ! 0), InFetch False (Inr []), received (Inr gap_rows) (out ! 1)]"

text \<open>A cursor of \<open>2^63\<close> or more is negative as the column's type, so the whole table is replayed (or, when it
  is too large, the subscription is refused).\<close>

lemma oversized_cursor_replays:
  assumes "2 ^ 63 \<le> unat after" and "\<forall>r \<in> set rows. 0 \<le> sint (row_sequence r)"
  shows "count_after rows after = length rows \<and>
    (subscribe G after (Inr rows) = Inr (subscription_start after) \<longleftrightarrow> length rows \<le> MAX_BACKFILL_EVENTS)"
proof -
  have "sint after < 0" using assms(1) by (simp add: sint_neg_iff)
  with assms(2) have "count_after rows after = length rows"
    by (force simp: count_after_def intro!: arg_cong [of _ _ length] filter_True)
  then show ?thesis by (auto simp: subscribe_def Let_def)
qed

text \<open>A backfill run to its end.\<close>

lemma backfill_live:
  assumes "rows_ok rows" and "count_after rows after + pages (count_after rows after) + 1 \<le> k"
  shows "sb_phase (backfill_drive G rows k (subscription_start after)) = PLive \<and>
    sb_out (backfill_drive G rows k (subscription_start after)) = map Inr (wire_log G rows after) \<and>
    rows_after rows (sb_last (backfill_drive G rows k (subscription_start after))) = []"
proof -
  let ?s = "subscription_start after" and ?n = "count_after rows after"
  let ?t = "backfill_drive G rows (?n + pages ?n + 1) ?s"
  have "list_all wf_row (rows_after rows after)" using assms(1) by (rule rows_ok_after)
  then have t: "?t = ?s\<lparr>sb_phase := PLive,
      sb_last := (if rows_after rows after = [] then after else row_sequence (last (rows_after rows after))),
      sb_out := map (\<lambda>ev. Inr (to_wire G ev)) (parsed (rows_after rows after))\<rparr>"
    using drive_to_live [of rows ?s False G] assms(1)
    by (simp add: rows_ok_def subscription_start_def count_after_length Let_def)
  have "backfill_drive G rows k ?s = backfill_drive G rows (k - (?n + pages ?n + 1)) ?t"
    using assms(2) backfill_drive_add [of G rows "?n + pages ?n + 1" "k - (?n + pages ?n + 1)" ?s] by simp
  also have "\<dots> = ?t" by (rule drive_live) (unfold t, simp)
  finally have k: "backfill_drive G rows k ?s = ?t" .
  have "rows_after rows (row_sequence (last (rows_after rows after))) = []" if "rows_after rows after \<noteq> []"
    using that rows_after_step [of rows after "butlast (rows_after rows after)" _ "[]"] assms(1)
    by (simp add: rows_ok_def)
  then show ?thesis unfolding k t by (simp add: wire_log_def)
qed

section \<open>Properties\<close>

text \<open>C19. The backfill ends: over a table that does not change (unique sequence numbers, parseable
  rows), with \<open>n\<close> rows above the cursor, the paging loop reaches the live phase within \<open>n\<close> sends and
  \<open>\<lceil>n / 1000\<rceil> + 1\<close> queries, having sent exactly those rows in order, with the cursor at the last of
  them.\<close>

theorem backfill_terminates:
  assumes "rows_ok rows" and "count_after rows after + pages (count_after rows after) + 1 \<le> k"
  shows "sb_phase (backfill_drive G rows k (subscription_start after)) = PLive \<and>
    sb_out (backfill_drive G rows k (subscription_start after)) = map Inr (wire_log G rows after) \<and>
    rows_after rows (sb_last (backfill_drive G rows k (subscription_start after))) = []"
  by (rule backfill_live [OF assms])

theorem backfill_terminates_witness:
  "sb_phase (backfill_drive demo_params demo_rows 3 (subscription_start 0)) = PLive \<and>
   sb_out (backfill_drive demo_params demo_rows 3 (subscription_start 0)) = map Inr (wire_log demo_params demo_rows 0)"
proof -
  have "count_after demo_rows 0 + pages (count_after demo_rows 0) + 1 \<le> 3" by code_simp
  from backfill_terminates [OF demo_rows_ok this, of demo_params] show ?thesis by blast
qed

text \<open>C6. The stream refines a follower of the log: run beside transactions that commit in the order of
  their sequence numbers, with the \<open>LISTEN\<close> connection up and sends succeeding, every step of the system
  is a step of the follower of the rows above the requested cursor (append, or read the next) or
  invisible to it; the subscriber has received exactly the prefix the follower has read; and when
  the stream is live with no notification pending, it has received everything.\<close>

theorem stream_refines_log:
  assumes "rows_ok rows" and "stream_reach G rows after Y"
  shows "sb_out (sy_sub Y) = map Inr (take (fo_pos (follower_of G after Y)) (fo_log (follower_of G after Y))) \<and>
    (\<forall>Y'. stream_step G Y Y' \<longrightarrow>
       follow_step (follower_of G after Y) (follower_of G after Y') \<or> follower_of G after Y' = follower_of G after Y) \<and>
    (sb_phase (sy_sub Y) = PLive \<and> sy_queue Y = [] \<longrightarrow>
       sb_out (sy_sub Y) = map Inr (wire_log G (sy_table Y) after))"
proof (intro conjI allI impI)
  have inv: "stream_inv G after Y" using assms by (rule stream_inv_reach)
  show "sb_out (sy_sub Y) = map Inr (take (fo_pos (follower_of G after Y)) (fo_log (follower_of G after Y)))"
    using inv by (rule follower_prefix)
  show "follow_step (follower_of G after Y) (follower_of G after Y') \<or> follower_of G after Y' = follower_of G after Y"
    if "stream_step G Y Y'" for Y'
    using inv that by (rule stream_step_refines)
  assume "sb_phase (sy_sub Y) = PLive \<and> sy_queue Y = []"
  then have "wire_log G (sy_table Y) (sb_last (sy_sub Y)) = []"
    using inv by (simp add: stream_inv_def wire_log_def)
  then show "sb_out (sy_sub Y) = map Inr (wire_log G (sy_table Y) after)"
    using follower_prefix [OF inv] by (simp add: follower_of_def)
qed

theorem stream_refines_log_witness:
  "sb_out (sy_sub demo_live) = map Inr (wire_log demo_params (sy_table demo_live) 0) \<and>
   length (sb_out (sy_sub demo_live)) = 2"
proof -
  have "sb_phase (sy_sub demo_live) = PLive \<and> sy_queue demo_live = []" by code_simp
  with stream_refines_log [OF demo_rows_ok demo_reach]
  have "sb_out (sy_sub demo_live) = map Inr (wire_log demo_params (sy_table demo_live) 0)" by blast
  moreover have "length (sb_out (sy_sub demo_live)) = 2" by code_simp
  ultimately show ?thesis ..
qed

text \<open>C20. A reconnect can lose an event: the connection task reports the loss before it listens again and
  reports nothing afterwards, so the subscription re-reads the table too early. In the run above the
  stream delivers event 2 and not event 1, which is committed, and no continuation delivers it.\<close>

theorem reconnect_gap_loses_event:
  assumes "\<forall>i \<in> set later. keyed i"
  shows "let out = ls_out (connection_loop gap_listen);
      s = subscription_run G (gap_inputs out) (subscription_start 0) in
    out = [Inl ListenDisconnected, Inr 2] \<and> delivered s = [2] \<and> sb_phase s = PLive \<and>
    1 \<notin> set (delivered (subscription_run G later s))"
proof -
  let ?s = "subscription_run G (gap_inputs [Inl ListenDisconnected, Inr 2]) (subscription_start 0)"
  have out: "ls_out (connection_loop gap_listen) = [Inl ListenDisconnected, Inr 2]" by code_simp
  have keyed: "\<forall>i \<in> set (gap_inputs [Inl ListenDisconnected, Inr 2]). keyed i" by code_simp
  have f: "find_by_sequence gap_rows 2 = Inr (Some ev) \<longleftrightarrow> parse_row (publish_row 2 demo_event) = Inr ev" for ev
    by (auto simp: find_by_sequence_def gap_rows_def publish_row_def bindR_Inr_iff)
  then obtain ev where ev: "find_by_sequence gap_rows 2 = Inr (Some ev)" by (auto simp: parse_publish_row)
  have "?s = \<lparr>sb_phase = PLive, sb_last = 2, sb_out = [Inr (to_wire G ev)]\<rparr>"
    using ev find_by_sequence_key [OF ev]
    by (simp add: gap_inputs_def subscription_run_def subscription_start_def fetch_step_def
        fetch_after_batch_def rows_after_def lost_step_def count_after_def notify_step_def deliver_def MAX_BACKFILL_EVENTS_def)
  then have s: "delivered ?s = [2]" "sb_phase ?s = PLive" "sb_last ?s = 2"
    using find_by_sequence_key [OF ev]
    by (simp_all add: delivered_def List.map_filter_def to_wire_sequence)
  with passed_lost [OF keyed assms refl, of 1 G 0] show ?thesis
    by (simp add: out)
qed

theorem reconnect_gap_loses_event_witness:
  "(1 :: int) \<notin> set (delivered (subscription_run demo_params [InLost (Inr gap_rows), InFetch False (Inr gap_rows)]
     (subscription_run demo_params (gap_inputs (ls_out (connection_loop gap_listen))) (subscription_start 0))))"
proof -
  have "\<forall>i \<in> set [InLost (Inr gap_rows), InFetch False (Inr gap_rows)]. keyed i" by code_simp
  from reconnect_gap_loses_event [OF this, of demo_params] show ?thesis unfolding Let_def by blast
qed

end
