(* ===== verification/End_To_End.thy ===== *)
theory End_To_End
  imports Gateway_System Grpc_Stream
begin

text \<open>
  From the store to the subscriber: the invariant of \<open>Gateway_System\<close> composed with the event stream of
  \<open>Grpc_Stream\<close>. What a subscriber receives for a payment hash is what the stored logs of that hash say.
\<close>

section \<open>What a subscriber receives for a reference\<close>

definition received_for :: "string \<Rightarrow> (grpc_status + proto_payment_event) list \<Rightarrow> (i32 \<times> u64 option) list" where
  "received_for ref out =
     List.map_filter (\<lambda>x. case x of
        Inl _ \<Rightarrow> None
      | Inr e \<Rightarrow> if pe_reference_id e = ref then Some (pe_event_type e, pe_amount_sats e) else None) out"

definition outgoing_type :: "i32 \<Rightarrow> bool" where
  "outgoing_type t \<longleftrightarrow> t \<in> {1, 2, 3, 4}"

text \<open>An entry of the outbox on the wire: the number of its standardized type and its amount.\<close>

definition event_number :: "gateway_domain_event \<Rightarrow> i32" where
  "event_number e = event_type_to_proto (to_standardized e)"

definition wire_entry :: "gateway_domain_event \<times> i64 \<Rightarrow> i32 \<times> u64 option" where
  "wire_entry x = (event_number (fst x), Some (if 0 \<le> sint (snd x) then snd x else 0))"

lemma outgoing_event_number [simp]: "outgoing_type (event_number e) \<longleftrightarrow> is_payment_event e"
  by (cases e) (simp_all add: outgoing_type_def event_number_def)

section \<open>Typed rows on the wire\<close>

lemma typed_row:
  assumes "row_typed r"
  obtains ev where "parse_row r = Inr ev" "ob_event_type ev = to_standardized (ob_domain_event ev)"
    "domain_event_from_str (row_domain_event_type r) = Inr (ob_domain_event ev)"
    "ob_reference_id ev = row_reference_id r" "ob_amount_sat ev = row_amount_sat r"
proof -
  from assms obtain e where e: "row_domain_event_type r = domain_event_str e"
    "row_event_type r = event_type_str (to_standardized e)" by (auto simp: row_typed_def)
  define ev where "ev = \<lparr>ob_sequence = row_sequence r, ob_correlation_id = row_correlation_id r, ob_domain_event = e,
    ob_event_type = to_standardized e, ob_reference_id = row_reference_id r, ob_amount_sat = row_amount_sat r,
    ob_timestamp = row_timestamp r, ob_gateway_metadata = row_gateway_metadata r\<rparr>"
  show ?thesis
    by (rule that [of ev]) (simp_all add: ev_def parse_row_def e domain_event.from_as event_type.from_as)
qed

lemma typed_rows_wf: "table_ok n rows \<Longrightarrow> rows_ok rows"
  by (auto simp: table_ok_def rows_ok_def list_all_iff wf_row_def elim!: typed_row)

lemma received_typed:
  "list_all row_typed rows \<Longrightarrow>
     received_for (hash_to_hex H h) (map Inr (map (to_wire G) (parsed rows))) =
     map wire_entry (List.map_filter (row_entry H h) rows)"
proof (induction rows)
  case (Cons r rows)
  then have "row_typed r" by simp
  then obtain ev where "parse_row r = Inr ev" "ob_event_type ev = to_standardized (ob_domain_event ev)"
    "domain_event_from_str (row_domain_event_type r) = Inr (ob_domain_event ev)"
    "ob_reference_id ev = row_reference_id r" "ob_amount_sat ev = row_amount_sat r" by (rule typed_row)
  with Cons show ?case
    by (simp add: received_for_def List.map_filter_simps to_wire_def inject_trace_context_def outbox_to_proto_def
        row_entry_def wire_entry_def event_number_def ok_def Let_def)
qed (simp add: received_for_def List.map_filter_simps)

section \<open>The order of the stream\<close>

text \<open>The rows of one reference come in the order of the table.\<close>

lemma of_reference_entries: "List.map_filter (row_entry H h) (of_reference (hash_to_hex H h) rows) = List.map_filter (row_entry H h) rows"
proof (induction rows)
  case (Cons r rows)
  then show ?case
    by (cases "row_reference_id r = hash_to_hex H h")
      (simp_all add: of_reference_def List.map_filter_simps row_entry_def [of H h r] split: option.split)
qed (simp add: of_reference_def)

lemma of_reference_after:
  assumes "table_ok n rows"
  shows "of_reference ref (rows_after rows 0) = of_reference ref rows"
proof -
  have "filter (\<lambda>r. sint 0 < sint (row_sequence r)) rows = rows"
    using assms by (simp add: table_ok_def list_all_iff)
  then have "of_reference ref (rows_after rows 0) = sort_key (\<lambda>r. sint (row_sequence r)) (of_reference ref rows)"
    by (simp add: rows_after_def of_reference_def filter_sort)
  also have "\<dots> = of_reference ref rows"
    using assms by (intro sort_key_id_if_sorted) (simp add: table_ok_def)
  finally show ?thesis .
qed

lemma entries_after:
  "table_ok n rows \<Longrightarrow> List.map_filter (row_entry H h) (rows_after rows 0) = List.map_filter (row_entry H h) rows"
  using of_reference_after [of n rows "hash_to_hex H h"] of_reference_entries by metis

lemma received_history:
  assumes "table_ok n rows"
  shows "received_for (hash_to_hex H h) (map Inr (wire_log G rows 0)) = map wire_entry (List.map_filter (row_entry H h) rows)"
proof -
  have "list_all row_typed (rows_after rows 0)"
    using assms by (auto simp: table_ok_def list_all_iff set_rows_after)
  from received_typed [OF this, of H h G] entries_after [OF assms, of H h] show ?thesis
    by (simp add: wire_log_def)
qed

lemma filter_wire:
  "filter (\<lambda>x. outgoing_type (fst x)) (map wire_entry es) = map wire_entry (filter (\<lambda>x. is_payment_event (fst x)) es)"
  "map fst (filter (\<lambda>x. \<not> outgoing_type (fst x)) (map wire_entry es)) =
     map event_number (map fst (filter (\<lambda>x. \<not> is_payment_event (fst x)) es))"
  by (induction es) (simp_all add: wire_entry_def)

text \<open>A payment amount is a whole number of satoshi below \<open>2^63\<close>, so it is never clamped.\<close>

lemma sint_whole_sat: "0 \<le> sint (whole_sat m)"
proof -
  have "unat (whole_sat m) < 2 ^ 63" using unsigned_less [of "as_u64 m", where 'a = nat] by simp
  then show ?thesis by (simp add: sint_small)
qed

lemma wire_reports:
  "map wire_entry (payment_reports l) = map (\<lambda>(e, a). (event_number e, Some a)) (payment_reports l)"
  by (cases l rule: payment_reports.cases) (simp_all add: wire_entry_def sint_whole_sat)

section \<open>Properties\<close>


definition racing_steps :: nat where
  "racing_steps = (let n = count_after (db_outbox racing_run) 0 in n + pages n + 1)"

definition racing_stream :: sub_state where
  "racing_stream = backfill_drive demo_params (db_outbox racing_run) racing_steps (subscription_start 0)"


end
