(* ===== verification/Lnd_Client.thy ===== *)
theory Lnd_Client
  imports Lnd
begin

text \<open>
  The trait \<open>LndApi\<close> of \<open>lnd/client.rs\<close> as a record of its methods, the client that implements it (connected,
  or the stub the gateway boots with when no node is configured), the opening of its two streams, and the
  stub of \<open>bin/write_sdl.rs\<close>. What the coordinator relies on of any implementation is the locale \<open>lnd_service\<close>.
\<close>

record lnd_api =
  la_add_hold_invoice :: "add_hold_invoice_params \<Rightarrow> lnd_error + bolt_invoice"
  la_settle_invoice :: "preimage \<Rightarrow> lnd_error + unit"
  la_cancel_invoice :: "payment_hash \<Rightarrow> lnd_error + unit"
  la_lookup_invoice :: "payment_hash \<Rightarrow> lnd_error + invoice_update"
  la_lookup_payment :: "payment_hash \<Rightarrow> lnd_error + send_payment_response"
  la_send_payment :: "send_payment_params \<Rightarrow> lnd_error + send_payment_response"
  la_fee_probe :: "bolt_invoice \<Rightarrow> lnd_error + fee_probe_response"

record 'c lnd_client =
  cl_config :: 'c
  cl_inner :: "lnd_node option"

text \<open>\<open>dial\<close> is \<open>tonic_lnd::connect\<close>, with the text of its error.\<close>

definition lnd_connect :: "('c \<Rightarrow> string + lnd_node) \<Rightarrow> 'c \<Rightarrow> lnd_error + 'c lnd_client" where
  "lnd_connect dial config =
     bindR (map_err LndConnect (dial config)) (\<lambda>node. Inr \<lparr>cl_config = config, cl_inner = Some node\<rparr>)"

definition lnd_boot_stub :: "'c \<Rightarrow> 'c lnd_client" where
  "lnd_boot_stub config = \<lparr>cl_config = config, cl_inner = None\<rparr>"

definition is_connected :: "'c lnd_client \<Rightarrow> bool" where
  "is_connected c \<longleftrightarrow> cl_inner c \<noteq> None"

text \<open>Opening a stream: the node answers with a stream or a status.\<close>

definition track_payments_stream :: "(lnd_node \<Rightarrow> grpc_status + 'stream) \<Rightarrow> 'c lnd_client \<Rightarrow> lnd_error + 'stream" where
  "track_payments_stream open_all c =
     bindR (require_inner (cl_inner c)) (\<lambda>node. map_err LndRpc (open_all node))"

definition subscribe_single_invoice_stream ::
  "(lnd_node \<Rightarrow> u8 list \<Rightarrow> grpc_status + 'stream) \<Rightarrow> 'c lnd_client \<Rightarrow> payment_hash \<Rightarrow> lnd_error + 'stream" where
  "subscribe_single_invoice_stream open_one c h =
     bindR (require_inner (cl_inner c)) (\<lambda>node. map_err LndRpc (open_one node (hash_bytes h)))"

definition lnd_client_api :: "hex_codec \<Rightarrow> lnrpc_enums \<Rightarrow> 'c lnd_client \<Rightarrow> lnd_api" where
  "lnd_client_api H L c = \<lparr>
     la_add_hold_invoice = client_add_hold_invoice (cl_inner c),
     la_settle_invoice = client_settle_invoice (cl_inner c),
     la_cancel_invoice = client_cancel_invoice (cl_inner c),
     la_lookup_invoice = client_lookup_invoice L (cl_inner c),
     la_lookup_payment = client_lookup_payment H L (cl_inner c),
     la_send_payment = client_send_payment H L (cl_inner c),
     la_fee_probe = client_fee_probe L (cl_inner c)\<rparr>"

definition stub_lnd :: lnd_api where
  "stub_lnd = \<lparr>la_add_hold_invoice = (\<lambda>_. Inl LndStub), la_settle_invoice = (\<lambda>_. Inl LndStub),
     la_cancel_invoice = (\<lambda>_. Inl LndStub), la_lookup_invoice = (\<lambda>_. Inl LndStub), la_lookup_payment = (\<lambda>_. Inl LndStub),
     la_send_payment = (\<lambda>_. Inl LndStub), la_fee_probe = (\<lambda>_. Inl LndStub)\<rparr>"

section \<open>The contract\<close>

text \<open>A lookup that answers, answers for the hash it was asked.\<close>

locale lnd_service =
  fixes api :: lnd_api
  assumes invoice_hash: "la_lookup_invoice api h = Inr u \<Longrightarrow> iu_payment_hash u = h"
    and payment_hash: "la_lookup_payment api h = Inr r \<Longrightarrow> spr_payment_hash r = h"

text \<open>And what it answers is backed: by \<open>paid\<close> for the hash and the preimage of a succeeded payment, by \<open>received\<close>
  for the hash of a settled invoice.\<close>

locale lnd_backed = lnd_service api
  for api :: lnd_api +
  fixes paid :: "payment_hash \<Rightarrow> preimage \<Rightarrow> bool" and received :: "payment_hash \<Rightarrow> bool" and sha :: "u8 list \<Rightarrow> u8 list"
  assumes sent_backed:
      "la_send_payment api p = Inr r \<Longrightarrow> spr_status r = Succeeded \<Longrightarrow> spr_payment_preimage r = Some pre \<Longrightarrow>
       paid (spr_payment_hash r) pre"
    and payment_backed:
      "la_lookup_payment api h = Inr r \<Longrightarrow> spr_status r = Succeeded \<Longrightarrow> spr_payment_preimage r = Some pre \<Longrightarrow>
       paid (spr_payment_hash r) pre"
    and invoice_backed: "la_lookup_invoice api h = Inr u \<Longrightarrow> iu_state u = LndSettled \<Longrightarrow> received (iu_payment_hash u)"
    and settle_backed: "la_settle_invoice api pre = Inr () \<Longrightarrow> received (payment_hash_of sha pre)"
begin

lemma lookup_paid:
  "la_lookup_payment api h = Inr r \<Longrightarrow> spr_status r = Succeeded \<Longrightarrow> spr_payment_preimage r = Some pre \<Longrightarrow> paid h pre"
  using payment_backed payment_hash by blast

lemma lookup_received: "la_lookup_invoice api h = Inr u \<Longrightarrow> iu_state u = LndSettled \<Longrightarrow> received h"
  using invoice_backed invoice_hash by blast

end

interpretation client: lnd_service "lnd_client_api H L c"
  by unfold_locales (auto simp: lnd_client_api_def dest: client_lookup_answers_hash)

interpretation stub: lnd_backed stub_lnd "\<lambda>_ _. False" "\<lambda>_. False" sha
  by unfold_locales (simp_all add: stub_lnd_def)

text \<open>The stub the gateway boots with is the stub of the schema writer, and opens no stream.\<close>

lemma boot_stub_api: "lnd_client_api H L (lnd_boot_stub config) = stub_lnd"
  by (auto simp: lnd_client_api_def lnd_boot_stub_def stub_lnd_def client_boot_stub)

lemma boot_stub_streams:
  "\<not> is_connected (lnd_boot_stub config)" "track_payments_stream open_all (lnd_boot_stub config) = Inl LndStub"
  "subscribe_single_invoice_stream open_one (lnd_boot_stub config) h = Inl LndStub"
  by (simp_all add: is_connected_def track_payments_stream_def subscribe_single_invoice_stream_def lnd_boot_stub_def
      require_inner_def ok_or_def)

lemma connected_client: "lnd_connect dial config = Inr c \<Longrightarrow> is_connected c \<and> cl_config c = config"
  by (auto simp: lnd_connect_def is_connected_def bindR_Inr_iff)

end
