(* ===== verification/App_Services.thy ===== *)
theory App_Services
  imports App_World Lnd_Client
begin

text \<open>
  The coordinator on its services (\<open>app.rs\<close>): \<open>App::new\<close> puts an implementation of \<open>LndApi\<close>, a Symphony client and an
  ownership checker behind the calls of the use cases, each of which may answer differently at every step.
\<close>

text \<open>\<open>App::new\<close>: the services of a step are those it was given; \<open>deadline\<close> marks the lookups that the sweep gives
  up on.\<close>

definition app_new ::
  "(nat \<Rightarrow> lnd_api) \<Rightarrow> (nat \<Rightarrow> bool) \<Rightarrow>
   (nat \<Rightarrow> symphony_authorize_request \<Rightarrow> symphony_error + symphony_authorize_response) \<Rightarrow>
   (nat \<Rightarrow> caller_auth \<Rightarrow> wallet_id \<Rightarrow> string + unit) \<Rightarrow> ('ie, 'pe, 's) env \<Rightarrow> ('ie, 'pe, 's) env" where
  "app_new lnd deadline symphony ownership env = env\<lparr>
     e_mode := Live, e_ownership := ownership, e_authorize := symphony,
     e_lnd_add_hold := (\<lambda>n. la_add_hold_invoice (lnd n)), e_lnd_settle := (\<lambda>n. la_settle_invoice (lnd n)),
     e_lnd_cancel := (\<lambda>n. la_cancel_invoice (lnd n)), e_lnd_lookup_invoice := (\<lambda>n. la_lookup_invoice (lnd n)),
     e_lnd_lookup_payment := (\<lambda>n h. if deadline n then None else Some (la_lookup_payment (lnd n) h)),
     e_lnd_send := (\<lambda>n. la_send_payment (lnd n)), e_lnd_fee_probe := (\<lambda>n. la_fee_probe (lnd n))\<rparr>"

definition with_mode :: "('ie, 'pe, 's) env \<Rightarrow> app_mode \<Rightarrow> ('ie, 'pe, 's) env" where
  "with_mode app mode = app\<lparr>e_mode := mode\<rparr>"

lemma app_new_fields [simp]:
  "e_ies (app_new lnd deadline symph owner env) = e_ies env" "e_pes (app_new lnd deadline symph owner env) = e_pes env"
  "e_repos (app_new lnd deadline symph owner env) = e_repos env" "e_hex (app_new lnd deadline symph owner env) = e_hex env"
  "e_sha256 (app_new lnd deadline symph owner env) = e_sha256 env" "e_others (app_new lnd deadline symph owner env) = e_others env"
  "e_authorize (app_new lnd deadline symph owner env) = symph" "e_wallet_str (app_new lnd deadline symph owner env) = e_wallet_str env"
  by (simp_all add: app_new_def)

end
