(* ===== verification/Lnd_Evidence.thy ===== *)
theory Lnd_Evidence
  imports Gateway_System App_Services
begin

text \<open>
  The coordinator on top of the LND client: the answers the coordinator acts on are those the client of
  \<open>src/lnd/client.rs\<close> makes of the node's messages, and the payment updates those its stream pump
  forwards. What \<open>Gateway_System\<close> requires to be vouched for is then a message of the node.
\<close>

section \<open>The coordinator on a backed node\<close>

text \<open>On services that are backed the coordinator keeps its books, in either mode.\<close>

lemma app_gateway_env:
  assumes "entity_store (e_ies env) (e_pes env) (e_repos env) store_ok plog ilog punsaved iunsaved" "hex_crate (e_hex env)"
    and api: "\<And>n. lnd_backed (lnd n) paid received (e_sha256 env)"
    and others: "stable (books_ok paid received (e_sha256 env) (e_hex env) store_ok plog ilog) env"
  shows "gateway_env (with_mode (app_new lnd deadline symph owner env) mode) store_ok plog ilog punsaved iunsaved paid received"
proof (intro gateway_env.intro gateway_env_axioms.intro, goal_cases)
  case (3 n p r pre)
  then show ?case using lnd_backed.sent_backed [OF api] by (simp add: with_mode_def app_new_def)
next
  case (4 n h r pre)
  then show ?case using lnd_backed.lookup_paid [OF api] by (auto simp: with_mode_def app_new_def split: if_splits)
next
  case (5 n h u)
  then show ?case using lnd_backed.lookup_received [OF api] by (simp add: with_mode_def app_new_def)
next
  case (6 n pre)
  then show ?case using lnd_backed.settle_backed [OF api] by (simp add: with_mode_def app_new_def)
next
  case 7
  then show ?case using others by (simp add: stable_def with_mode_def app_new_def)
qed (use assms(1,2) in \<open>simp_all add: with_mode_def app_new_def\<close>)

text \<open>The client of a step; its node may answer differently at every step.\<close>

definition lnd_env ::
  "lnrpc_enums \<Rightarrow> (nat \<Rightarrow> 'c lnd_client) \<Rightarrow> (nat \<Rightarrow> bool) \<Rightarrow> ('ie, 'pe, 's) env \<Rightarrow> ('ie, 'pe, 's) env" where
  "lnd_env L client deadline env =
     app_new (\<lambda>n. lnd_client_api (e_hex env) L (client n)) deadline (e_authorize env) (e_ownership env) env"

text \<open>The messages the payment stream has carried, over all attempts to keep it open.\<close>

fun stream_message :: "'m stream_event \<Rightarrow> 'm option" where
  "stream_message (SeMessage m _) = Some m"
| "stream_message _ = None"

definition stream_messages :: "'m attempt list \<Rightarrow> 'm list" where
  "stream_messages as =
     concat (map (\<lambda>a. case at_open a of Inl _ \<Rightarrow> [] | Inr evs \<Rightarrow> List.map_filter stream_message evs) as)"

text \<open>The operations that react to the stream take their updates from the pump.\<close>

fun op_from_stream :: "payment_update list \<Rightarrow> gateway_op \<Rightarrow> bool" where
  "op_from_stream us (OpPaymentUpdate u) \<longleftrightarrow> u \<in> set us"
| "op_from_stream us _ \<longleftrightarrow> True"

section \<open>Evidence\<close>

text \<open>A payment message of the node for \<open>h\<close> with status \<open>SUCCEEDED\<close> and the preimage \<open>pre\<close>.\<close>

definition succeeded_message :: "hex_codec \<Rightarrow> lnrpc_enums \<Rightarrow> payment_hash \<Rightarrow> preimage \<Rightarrow> lnrpc_payment \<Rightarrow> bool" where
  "succeeded_message H L h pre m \<longleftrightarrow>
     hash_from_str H (lp_payment_hash m) = Inr h \<and> payment_status_try_from L (lp_status m) = Some PsSucceeded \<and>
     lnd_parse_preimage H (lp_payment_preimage m) = Some pre"

text \<open>It came on the payment stream, or answered a send or the lookup of \<open>h\<close>.\<close>

definition node_paid ::
  "hex_codec \<Rightarrow> lnrpc_enums \<Rightarrow> (nat \<Rightarrow> 'c lnd_client) \<Rightarrow> lnrpc_payment list \<Rightarrow> payment_hash \<Rightarrow> preimage \<Rightarrow> bool" where
  "node_paid H L client msgs h pre \<longleftrightarrow>
     (\<exists>m. succeeded_message H L h pre m \<and>
        (m \<in> set msgs \<or>
         (\<exists>n nd. cl_inner (client n) = Some nd \<and>
            (node_track_payment nd (hash_bytes h) = Inr (Inr (Some m)) \<or>
             (\<exists>q. node_send_payment nd q = Inr (Inr (Some m)))))))"

text \<open>The node reported the invoice of \<open>h\<close> settled, or accepted a preimage that opens \<open>h\<close>.\<close>

definition node_received ::
  "lnrpc_enums \<Rightarrow> (u8 list \<Rightarrow> u8 list) \<Rightarrow> (nat \<Rightarrow> 'c lnd_client) \<Rightarrow> payment_hash \<Rightarrow> bool" where
  "node_received L sha client h \<longleftrightarrow>
     (\<exists>n nd. cl_inner (client n) = Some nd \<and>
        ((\<exists>i. node_lookup_invoice nd (hash_bytes h) = Inr i \<and> li_r_hash i = hash_bytes h \<and>
            invoice_state_try_from L (li_state i) = Some IsSettled) \<or>
         (\<exists>pre. node_settle_invoice nd (preimage_bytes pre) = Inr () \<and> payment_hash_of sha pre = h)))"

section \<open>The client turns evidence into answers\<close>

lemma map_status_succeeded: "map_payment_status L v = Inr Succeeded \<longleftrightarrow> payment_status_try_from L v = Some PsSucceeded"
  by (auto simp: map_payment_status_def ok_or_def bindR_Inr_iff split: option.splits lnrpc_payment_status.splits)

lemma response_succeeded:
  assumes "lnd_payment_to_send_response H L m = Inr r" "spr_status r = Succeeded" "spr_payment_preimage r = Some pre"
  shows "succeeded_message H L (spr_payment_hash r) pre m"
  using assms map_status_succeeded [of L "lp_status m"]
  by (auto simp: lnd_payment_to_send_response_def parse_hex_payment_hash_def succeeded_message_def bindR_Inr_iff Let_def)

lemma client_send_message:
  "client_send_payment H L inner p = Inr r \<Longrightarrow>
   \<exists>nd m q. inner = Some nd \<and> node_send_payment nd q = Inr (Inr (Some m)) \<and> lnd_payment_to_send_response H L m = Inr r"
  by (auto simp: client_send_payment_def require_inner_def ok_or_def bindR_Inr_iff split: option.splits)

lemma client_lookup_message:
  "client_lookup_payment H L inner h = Inr r \<Longrightarrow>
   \<exists>nd m. inner = Some nd \<and> node_track_payment nd (hash_bytes h) = Inr (Inr (Some m)) \<and>
     lnd_payment_to_send_response H L m = Inr r \<and> spr_payment_hash r = h"
  by (auto simp: client_lookup_payment_def require_inner_def ok_or_def bindR_Inr_iff split: option.splits if_splits)

lemma map_state_settled: "map_invoice_state L v = Inr LndSettled \<longleftrightarrow> invoice_state_try_from L v = Some IsSettled"
  by (auto simp: map_invoice_state_def ok_or_def split: option.split lnrpc_invoice_state.split)

lemma invoice_update_settled:
  assumes "lnd_invoice_to_update L i = Inr u" "iu_state u = LndSettled"
  shows "iu_payment_hash u = PaymentHash (li_r_hash i)" "invoice_state_try_from L (li_state i) = Some IsSettled"
  using assms map_state_settled [of L "li_state i"]
  by (auto simp: lnd_invoice_to_update_def bindR_Inr_iff split: if_splits)

lemma client_lookup_settled:
  assumes "client_lookup_invoice L inner h = Inr u" "iu_state u = LndSettled"
  shows "\<exists>nd i. inner = Some nd \<and> node_lookup_invoice nd (hash_bytes h) = Inr i \<and> li_r_hash i = hash_bytes h \<and>
    invoice_state_try_from L (li_state i) = Some IsSettled"
proof -
  from assms(1) obtain nd i where "inner = Some nd" "node_lookup_invoice nd (hash_bytes h) = Inr i"
    "lnd_invoice_to_update L i = Inr u" "iu_payment_hash u = h"
    by (auto simp: client_lookup_invoice_def require_inner_def ok_or_def bindR_Inr_iff split: option.splits if_splits)
  with invoice_update_settled [OF _ assms(2)] show ?thesis by fastforce
qed

lemma client_settled: "client_settle_invoice inner pre = Inr () \<Longrightarrow> \<exists>nd. inner = Some nd \<and> node_settle_invoice nd (preimage_bytes pre) = Inr ()"
  by (auto simp: client_settle_invoice_def require_inner_def ok_or_def bindR_Inr_iff split: option.splits)

section \<open>The pump forwards messages of the stream\<close>

lemma driven_message:
  "u \<in> set (snd (drive_payment_stream H L evs)) \<Longrightarrow>
   \<exists>m \<in> set (List.map_filter stream_message evs). payment_to_update H L m = Inr u"
  by (induction H L evs rule: drive_payment_stream.induct)
    (auto simp: List.map_filter_simps split: sum.splits forward_outcome.splits prod.splits)

lemma pumped_message:
  "u \<in> set (snd (subscribe_payments_loop H L as)) \<Longrightarrow> \<exists>m \<in> set (stream_messages as). payment_to_update H L m = Inr u"
proof (induction as)
  case (Cons a as)
  show ?case
  proof (cases "\<exists>evs. at_open a = Inr evs \<and> u \<in> set (snd (drive_payment_stream H L evs))")
    case True
    then show ?thesis using driven_message by (fastforce simp: stream_messages_def)
  next
    case False
    then have "u \<in> set (snd (subscribe_payments_loop H L as))"
      using Cons.prems
      by (auto simp: Let_def split: if_splits sum.splits prod.splits option.splits)
    with Cons.IH show ?thesis by (auto simp: stream_messages_def)
  qed
qed simp

lemma subscribed_message:
  "u \<in> set (snd (subscribe_payments H L is_conn cancelled as)) \<Longrightarrow> \<exists>m \<in> set (stream_messages as). payment_to_update H L m = Inr u"
  by (rule pumped_message) (auto simp: subscribe_payments_def split: if_splits prod.splits)

lemma subscribed_vouched:
  assumes "u \<in> set (snd (subscribe_payments H L is_conn cancelled as))"
  shows "update_vouched (node_paid H L client (stream_messages as)) u"
proof -
  from subscribed_message [OF assms] obtain m r where m: "m \<in> set (stream_messages as)"
    "lnd_payment_to_send_response H L m = Inr r" "pu_payment_hash u = spr_payment_hash r" "pu_status u = spr_status r"
    "pu_payment_preimage u = spr_payment_preimage r"
    by (auto simp: payment_to_update_def bindR_Inr_iff)
  then show ?thesis
    using response_succeeded [OF m(2)] by (auto simp: update_vouched_def node_paid_def split: option.split)
qed

section \<open>The client is backed by its node\<close>

lemma client_backed:
  "lnd_backed (lnd_client_api H L (client n)) (node_paid H L client msgs) (node_received L sha client) sha"
proof (unfold_locales, goal_cases)
  case (1 p r pre)
  then obtain nd m q where "cl_inner (client n) = Some nd" "node_send_payment nd q = Inr (Inr (Some m))"
    "lnd_payment_to_send_response H L m = Inr r"
    using client_send_message by (fastforce simp: lnd_client_api_def)
  with 1 response_succeeded show ?case by (fastforce simp: node_paid_def)
next
  case (2 h r pre)
  then obtain nd m where "cl_inner (client n) = Some nd" "node_track_payment nd (hash_bytes h) = Inr (Inr (Some m))"
    "lnd_payment_to_send_response H L m = Inr r" "spr_payment_hash r = h"
    using client_lookup_message by (fastforce simp: lnd_client_api_def)
  with 2 response_succeeded show ?case by (fastforce simp: node_paid_def)
next
  case (3 h u)
  then have c: "client_lookup_invoice L (cl_inner (client n)) h = Inr u" by (simp add: lnd_client_api_def)
  from client_lookup_settled [OF c 3(2)] client_lookup_answers_hash(1) [OF c] show ?case by (auto simp: node_received_def)
next
  case (4 pre)
  then show ?case using client_settled [of "cl_inner (client n)" pre] by (auto simp: node_received_def lnd_client_api_def)
qed

interpretation wire: lnd_backed "lnd_client_api H L (client n)" "node_paid H L client msgs" "node_received L sha client" sha
  by (rule client_backed)

lemma lnd_gateway_env:
  assumes "entity_store (e_ies env) (e_pes env) (e_repos env) store_ok plog ilog punsaved iunsaved" "hex_crate (e_hex env)"
    and "stable (books_ok (node_paid (e_hex env) L client msgs) (node_received L (e_sha256 env) client) (e_sha256 env)
      (e_hex env) store_ok plog ilog) env"
  shows "gateway_env (lnd_env L client deadline env) store_ok plog ilog punsaved iunsaved
    (node_paid (e_hex env) L client msgs) (node_received L (e_sha256 env) client)"
proof -
  have "with_mode (lnd_env L client deadline env) Live = lnd_env L client deadline env"
    by (simp add: with_mode_def lnd_env_def app_new_def)
  then show ?thesis
    using app_gateway_env [where lnd = "\<lambda>n. lnd_client_api (e_hex env) L (client n)" and mode = Live and
        deadline = deadline and symph = "e_authorize env" and owner = "e_ownership env", OF assms(1,2) client_backed assms(3)]
    by (simp add: lnd_env_def)
qed

text \<open>A node that pays at once, and finds every invoice settled.\<close>

definition ref_message :: lnrpc_payment where
  "ref_message = \<lparr>lp_payment_hash = hash_to_hex ref_hex (PaymentHash (replicate 32 7)),
     lp_payment_preimage = preimage_to_hex ref_hex (Preimage (replicate 32 9)), lp_status = 2, lp_fee_msat = 1000,
     lp_htlcs = [], lp_failure_reason = 0\<rparr>"

definition ref_node :: lnd_node where
  "ref_node = \<lparr>node_add_hold_invoice = (\<lambda>_. Inr ''lnbc1''), node_settle_invoice = (\<lambda>_. Inr ()),
     node_cancel_invoice = (\<lambda>_. Inr ()),
     node_lookup_invoice = (\<lambda>h. Inr \<lparr>li_r_hash = h, li_state = 1, li_amt_paid_msat = 25000, li_r_preimage = []\<rparr>),
     node_track_payment = (\<lambda>_. Inr (Inr (Some ref_message))), node_send_payment = (\<lambda>_. Inr (Inr (Some ref_message))),
     node_estimate_route_fee = (\<lambda>_. Inr \<lparr>rfr_routing_fee_msat = 1000, rfr_time_lock_delay = 40, rfr_failure_reason = 0\<rparr>)\<rparr>"

definition ref_client :: "nat \<Rightarrow> unit lnd_client" where
  "ref_client n = \<lparr>cl_config = (), cl_inner = Some ref_node\<rparr>"

lemma ref_env_contract:
  "entity_store (e_ies ref_env) (e_pes ref_env) (e_repos ref_env) ref_store_ok ref_plog ref_ilog new_events new_events"
  "hex_crate (e_hex ref_env)" "stable P ref_env"
  using ref_entity_store.entity_store_axioms ref_hex.hex_crate_axioms by (simp_all add: ref_env_def stable_def)

interpretation wire_gateway: gateway_env "lnd_env ref_lnrpc ref_client deadline ref_env" ref_store_ok ref_plog ref_ilog
  new_events new_events "node_paid (e_hex ref_env) ref_lnrpc ref_client msgs" "node_received ref_lnrpc (e_sha256 ref_env) ref_client"
  by (rule lnd_gateway_env [OF ref_env_contract])

section \<open>Properties\<close>

text \<open>C8. LND vouches for the books: with the coordinator on the LND client and the payment updates those its
  stream pump forwards, after any sequence of operations every payment stored as completed, if it is not a
  transfer within the gateway, was reported \<open>SUCCEEDED\<close> by a message of the node for exactly its hash and with
  exactly the recorded preimage; every invoice stored as settled over Lightning was reported settled by the
  node or the node accepted a preimage that opens its hash; and the preimage of every stored invoice opens its
  hash.\<close>

theorem lnd_vouches_for_books:
  assumes "entity_store (e_ies env) (e_pes env) (e_repos env) store_ok plog ilog punsaved iunsaved" "hex_crate (e_hex env)"
    and "paid = node_paid (e_hex env) L client (stream_messages as)" "received = node_received L (e_sha256 env) client"
    and "stable (books_ok paid received (e_sha256 env) (e_hex env) store_ok plog ilog) env"
    and "books_ok paid received (e_sha256 env) (e_hex env) store_ok plog ilog (w_db w)"
    and "list_all (op_from_stream (snd (subscribe_payments (e_hex env) L is_conn cancelled as))) ops"
    and "d = w_db (run_ops (lnd_env L client deadline env) ops w)"
  shows "(EvCompleted t pre fees hops \<in> set (plog (db_es d) h) \<and> \<not> transfer_log (plog (db_es d) h) \<longrightarrow>
      node_paid (e_hex env) L client (stream_messages as) h pre) \<and>
    (EvSettled s \<in> set (ilog (db_es d) h) \<longrightarrow> node_received L (e_sha256 env) client h) \<and>
    (EvCreated k p wallet amount expiry bolt ext at_time \<in> set (ilog (db_es d) h) \<longrightarrow> payment_hash_of (e_sha256 env) p = h)"
proof -
  note G = lnd_gateway_env [OF assms(1,2) assms(5) [unfolded assms(3,4)], of deadline]
  have ops: "list_all (op_vouched (node_paid (e_hex env) L client (stream_messages as))) ops"
    using assms(7) subscribed_vouched by (induction ops) (fastforce elim: op_from_stream.elims)+
  have "books_ok paid received (e_sha256 env) (e_hex env) store_ok plog ilog d"
    using gateway_env.consistent_run_ops [OF G ops, of w] assms(3,4,6,8) by (simp add: lnd_env_def)
  then have "vouched paid received (e_sha256 env) (plog (db_es d)) (ilog (db_es d))" by (simp add: books_ok_def)
  then show ?thesis using assms(3,4) by (force simp: vouched_def list_all_iff)
qed

text \<open>A run with this node, in which the lookups of the sweep always time out.\<close>

definition wire_run :: "ref_store db" where
  "wire_run = w_db (run_ops (lnd_env ref_lnrpc ref_client (\<lambda>_. True) ref_env) [OpSendPayment sample_request] ref_world)"

fun completed_with :: "preimage \<Rightarrow> payment_event \<Rightarrow> bool" where
  "completed_with pre (EvCompleted _ p _ _) \<longleftrightarrow> p = pre"
| "completed_with pre _ \<longleftrightarrow> False"

text \<open>The client's answer to a send, without decoding the message again.\<close>

definition ref_answer :: "send_payment_params \<Rightarrow> lnd_error + send_payment_response" where
  "ref_answer p =
     bindR (ok_or (u64_to_i64 (as_u64 (spp_max_fee_msat p))) (LndInvalidResponse MaxFeeMsatExceedsI64Max)) (\<lambda>_.
     Inr \<lparr>spr_payment_hash = PaymentHash (replicate 32 7), spr_payment_preimage = Some (Preimage (replicate 32 9)),
          spr_status = Succeeded, spr_fees_paid_msat = MilliSatoshi 1000, spr_route_hops = [], spr_failure_reason = None\<rparr>)"

lemma preimage_hex_length: "length (preimage_to_hex ref_hex (Preimage (replicate 32 9))) = 64"
  by (simp add: preimage_to_hex_def ref_hex.encode_length)

lemma ref_answer_eq: "client_send_payment ref_hex ref_lnrpc (Some ref_node) p = ref_answer p"
proof -
  have "round_up_to_sat (msat_or_zero 1000) = MilliSatoshi 1000" by code_simp
  moreover have "parse_hex_payment_hash ref_hex (lp_payment_hash ref_message) = Inr (PaymentHash (replicate 32 7))"
    by (simp add: parse_hex_payment_hash_def ref_message_def ref_hex.hash_roundtrip wf_hash_def map_err_def)
  moreover have "lnd_parse_preimage ref_hex (lp_payment_preimage ref_message) = Some (Preimage (replicate 32 9))"
    using preimage_hex_length
    by (auto simp: lnd_parse_preimage_def ref_message_def ref_hex.preimage_roundtrip wf_preimage_def ok_def)
  ultimately have "lnd_payment_to_send_response ref_hex ref_lnrpc ref_message = Inr \<lparr>spr_payment_hash = PaymentHash (replicate 32 7),
      spr_payment_preimage = Some (Preimage (replicate 32 9)), spr_status = Succeeded, spr_fees_paid_msat = MilliSatoshi 1000,
      spr_route_hops = [], spr_failure_reason = None\<rparr>"
    by (simp add: lnd_payment_to_send_response_def) (simp add: ref_message_def ref_lnrpc_def map_payment_status_def first_route_hops_def ok_or_def)
  then show ?thesis
    by (simp add: client_send_payment_def ref_answer_def require_inner_def ref_node_def ok_or_def map_err_def)
qed

definition paid_log :: "preimage \<Rightarrow> payment_event list \<Rightarrow> bool" where
  "paid_log pre l \<longleftrightarrow> \<not> transfer_log l \<and> list_ex (completed_with pre) l"

text \<open>A comparison on integers, which computes on binary numerals. The other calls play no part in the run.\<close>

lemma u64_to_i64_code [code]: "u64_to_i64 v = (if uint v < 9223372036854775808 then Some v else None)"
proof -
  have "unat v < 2 ^ 63 \<longleftrightarrow> uint v < 9223372036854775808"
    unfolding uint_nat by (subst of_nat_less_iff [symmetric, where 'a = int]) simp
  then show ?thesis by (simp add: u64_to_i64_def)
qed

lemma run_completes:
  "paid_log (Preimage (replicate 32 9)) (ref_plog (db_es (w_db (run_ops (ref_env\<lparr>e_mode := Live, e_ownership := e_ownership ref_env,
      e_authorize := e_authorize ref_env, e_lnd_add_hold := add, e_lnd_settle := settle,
      e_lnd_cancel := cancel, e_lnd_lookup_invoice := li, e_lnd_lookup_payment := lp, e_lnd_send := (\<lambda>_. ref_answer),
      e_lnd_fee_probe := probe\<rparr>) [OpSendPayment sample_request] ref_world))) (PaymentHash (replicate 32 7)))"
  by code_simp

lemma wire_run_completes: "paid_log (Preimage (replicate 32 9)) (ref_plog (db_es wire_run) (PaymentHash (replicate 32 7)))"
proof -
  have "client_send_payment (e_hex ref_env) ref_lnrpc (Some ref_node) = ref_answer"
    by (rule ext) (simp add: ref_env_def ref_answer_eq)
  then have "la_send_payment (lnd_client_api (e_hex ref_env) ref_lnrpc (ref_client n)) = ref_answer" for n
    by (simp add: lnd_client_api_def ref_client_def)
  then show ?thesis unfolding wire_run_def lnd_env_def app_new_def by (simp only: run_completes)
qed

theorem lnd_vouches_for_books_witness:
  "\<exists>t fees hops. EvCompleted t (Preimage (replicate 32 9)) fees hops \<in> set (ref_plog (db_es wire_run) (PaymentHash (replicate 32 7))) \<and>
     node_paid (e_hex ref_env) ref_lnrpc ref_client (stream_messages []) (PaymentHash (replicate 32 7)) (Preimage (replicate 32 9))"
proof -
  have ops: "list_all (op_from_stream (snd (subscribe_payments (e_hex ref_env) ref_lnrpc True False []))) [OpSendPayment sample_request]"
    by simp
  obtain t fees hops where
    "EvCompleted t (Preimage (replicate 32 9)) fees hops \<in> set (ref_plog (db_es wire_run) (PaymentHash (replicate 32 7)))"
    using wire_run_completes unfolding paid_log_def by (auto simp: list_ex_iff elim!: completed_with.elims)
  with wire_run_completes [unfolded paid_log_def] lnd_vouches_for_books [OF ref_env_contract(1,2) refl refl ref_env_contract(3) empty_books_ok ops wire_run_def,
      of t "Preimage (replicate 32 9)" fees hops "PaymentHash (replicate 32 7)"]
  show ?thesis by blast
qed

end
