(* ===== verification/Op_Effects.thy ===== *)
theory Op_Effects
  imports Gateway_System
begin

text \<open>
  The effects of whole operations: which of them can spend. Only a send asks Symphony for a spend, LND for a payment
  or stores a new payment; no other operation of the gateway does.
\<close>

fun spends :: "effect \<Rightarrow> bool" where
  "spends (EAuthorize _ _) \<longleftrightarrow> True"
| "spends (ELndSend _) \<longleftrightarrow> True"
| "spends (ECommit (WCreatePayment _ # _)) \<longleftrightarrow> True"
| "spends _ \<longleftrightarrow> False"

abbreviation idle_trace :: "effect list \<Rightarrow> bool" where
  "idle_trace t \<equiv> list_all (\<lambda>e. \<not> spends e) t"

named_theorems idle_traces "the traces of operations that do not spend"

lemma idle_invoice_commit [idle_traces]: "invoice_commit env st d i h amt t \<Longrightarrow> idle_trace t"
  by (auto simp: invoice_commit_def)

lemma idle_after_lookup [idle_traces]: "after_lookup env x h lk t \<Longrightarrow> idle_trace t"
  by (auto simp: after_lookup_def dest: idle_invoice_commit split: sum.splits lnd_invoice_state.splits)

lemma idle_hold_trace [idle_traces]: "hold_trace env h t \<Longrightarrow> idle_trace t"
  by (auto simp: hold_trace_def dest: idle_after_lookup)

lemma idle_update_trace [idle_traces]: "update_trace env u t \<Longrightarrow> idle_trace t"
  by (auto simp: update_trace_def dest: idle_invoice_commit idle_hold_trace split: lnd_invoice_state.splits)

lemma idle_create_trace [idle_traces]: "create_trace env req t \<Longrightarrow> idle_trace t"
  by (auto simp: create_trace_def)

lemma idle_verdict [idle_traces]: "verdict_tail env st h t \<Longrightarrow> idle_trace t"
  by (auto simp: verdict_tail_def completed_tail_def failed_tail_def)

lemma idle_sweep_trace [idle_traces]: "sweep_trace env prev t \<Longrightarrow> idle_trace t"
  by (induction t arbitrary: prev) (auto dest!: idle_verdict split: effect.splits option.splits prod.splits)

lemma idle_concat: "list_all2 (hold_trace env) hs ts \<Longrightarrow> idle_trace (concat ts)"
  by (induction rule: list_all2_induct) (auto dest: idle_hold_trace)

section \<open>Operations that do not spend\<close>

fun is_send :: "gateway_op \<Rightarrow> bool" where
  "is_send (OpSendPayment _) \<longleftrightarrow> True"
| "is_send _ \<longleftrightarrow> False"

lemma idle_load_each: "emits_all (\<lambda>e. \<not> spends e) (load_each env is)"
  by (induction "is") (simp_all only: load_each.simps, (intro all_rules; assumption?)+)

lemma idle_spawn: "emits_all (\<lambda>e. \<not> spends e) (spawn_listener h)"
  unfolding emits_all_def by (rule emits_spawn) simp

lemma idle_spawn_each: "emits_all (\<lambda>e. \<not> spends e) (spawn_each hs)"
  by (induction hs) (simp_all only: spawn_each.simps, (intro all_rules idle_spawn; assumption?)+)

lemma idle_jobs:
  "emits_all (\<lambda>e. \<not> spends e) (invoice_reconciliation_sweep env)"
  "emits_all (\<lambda>e. \<not> spends e) (invoice_subscription_recovery_sweep env)"
  "emits_all (\<lambda>e. \<not> spends e) (orphan_hold_sweep env)"
proof -
  have "emits_all (\<lambda>e. \<not> spends e) (reconcile_each env hs)" for hs
    unfolding emits_all_def by (rule emits_mono [OF reconcile_each_emits]) (auto dest: idle_concat)
  then show "emits_all (\<lambda>e. \<not> spends e) (invoice_reconciliation_sweep env)"
    unfolding invoice_reconciliation_sweep_def by (auto intro!: all_rules)
  show "emits_all (\<lambda>e. \<not> spends e) (invoice_subscription_recovery_sweep env)"
    unfolding invoice_subscription_recovery_sweep_def run_invoice_subscription_recovery_sweep_def list_open_invoices_def
    by (intro all_rules idle_load_each idle_spawn_each)
  have "emits_all (\<lambda>e. \<not> spends e) (sweep_orphan_holds env i l)" for i l
    unfolding emits_all_def by (rule emits_mono [OF sweep_orphan_holds_emits]) (rule idle_sweep_trace)
  then show "emits_all (\<lambda>e. \<not> spends e) (orphan_hold_sweep env)"
    unfolding orphan_hold_sweep_def by (auto intro!: all_rules)
qed

lemma idle_fee_probe: "emits_all (\<lambda>e. \<not> spends e) (fee_probe env req)"
  unfolding fee_probe_def decode_payment_request_def call_defs by (auto intro!: all_rules)

lemma emits_idle: "emits m (\<lambda>_ t. Q t) \<Longrightarrow> (\<And>t. Q t \<Longrightarrow> idle_trace t) \<Longrightarrow> emits_all (\<lambda>e. \<not> spends e) m"
  unfolding emits_all_def by (rule emits_mono)

lemma emits_all_snd: "emits_all p m \<Longrightarrow> \<exists>t. w_trace (snd (m w)) = w_trace w @ t \<and> list_all p t"
  using emits_allD [of p m w "fst (m w)" "snd (m w)"] by simp

lemma idle_op:
  assumes "gateway_repos (e_ies env) (e_pes env) (e_repos env)" "\<not> is_send op"
  shows "\<exists>t. w_trace (run_op env op w) = w_trace w @ t \<and> idle_trace t"
  using assms(2)
    emits_all_snd [OF emits_idle [OF create_invoice_emits [OF assms(1)] idle_create_trace]]
    emits_all_snd [OF emits_idle [OF handle_payment_update_emits [OF assms(1)] idle_verdict]]
    emits_all_snd [OF emits_idle [OF handle_invoice_update_emits [OF assms(1)] idle_update_trace]]
    emits_all_snd [OF emits_idle [OF settle_hold_invoice_emits idle_hold_trace]]
    emits_all_snd [OF idle_fee_probe] emits_all_snd [OF idle_jobs(1)] emits_all_snd [OF idle_jobs(2)]
    emits_all_snd [OF idle_jobs(3)]
  by (cases op) (simp_all only: run_op.simps is_send.simps reconcile_is_settle simp_thms)

end
