(* ===== verification/Durability.thy ===== *)
theory Durability
  imports Op_Effects "HOL-Library.Sublist"
begin

text \<open>
  What lasts. The stored logs are only ever extended, by every operation and beside every other instance of the
  gateway (\<open>durable_env\<close>); and since an intent is stored before LND is asked to pay, an invoice is sent to LND
  at most once in the whole life of the gateway.
\<close>

section \<open>Extending the logs\<close>

definition extends ::
  "('s \<Rightarrow> payment_hash \<Rightarrow> payment_event list) \<Rightarrow> ('s \<Rightarrow> payment_hash \<Rightarrow> invoice_event list) \<Rightarrow> 's \<Rightarrow> 's \<Rightarrow> bool" where
  "extends plog ilog s s' \<longleftrightarrow> (\<forall>h. prefix (plog s h) (plog s' h) \<and> prefix (ilog s h) (ilog s' h))"

lemma extends_refl: "extends plog ilog s s"
  by (simp add: extends_def)

lemma extends_trans: "extends plog ilog s1 s2 \<Longrightarrow> extends plog ilog s2 s3 \<Longrightarrow> extends plog ilog s1 s3"
  unfolding extends_def by (meson prefix_order.trans)

lemma extends_empty: "extends plog ilog s s' \<Longrightarrow> plog s' h = [] \<Longrightarrow> plog s h = []"
  by (metis extends_def prefix_Nil)

text \<open>The contract of the store holds relative to any earlier state of it: what it stores extends what was there.\<close>

definition since where
  "since plog ilog store_ok s0 s \<longleftrightarrow> store_ok s \<and> extends plog ilog s0 s"

lemma extends_update:
  "prefix (plog s h) l \<Longrightarrow> plog s' = (plog s)(h := l) \<Longrightarrow> ilog s' = ilog s \<Longrightarrow> extends plog ilog s s'"
  "prefix (ilog s h) k \<Longrightarrow> ilog s' = (ilog s)(h := k) \<Longrightarrow> plog s' = plog s \<Longrightarrow> extends plog ilog s s'"
  by (auto simp: extends_def)

lemma entity_store_since:
  assumes "entity_store ies pes repos store_ok plog ilog punsaved iunsaved"
  shows "entity_store ies pes repos (since plog ilog store_ok s0) plog ilog punsaved iunsaved"
proof (rule entity_store.intro [OF entity_store.axioms(1) [OF assms] entity_store_axioms.intro], goal_cases)
  case (5 s n p s')
  with entity_store.payment_inserted [OF assms, of s n p s']
    extends_update(1) [of plog s "np_payment_hash n" "[first_payment_event n]" s' ilog]
  show ?case by (auto simp: since_def intro: extends_trans)
next
  case (6 s p p' s')
  with entity_store.payment_appended [OF assms, of s p p' s']
    extends_update(1) [of plog s "pay_payment_hash p" "ee_iter_all pes (pay_events p)" s' ilog]
  show ?case by (auto simp: since_def intro: extends_trans)
next
  case (7 s m i s')
  with entity_store.invoice_inserted [OF assms, of s m i s']
    extends_update(2) [of ilog s "ni_payment_hash m" "[first_invoice_event m]" s' plog]
  show ?case by (auto simp: since_def intro: extends_trans)
next
  case (8 s i i' s')
  with entity_store.invoice_appended [OF assms, of s i i' s']
    extends_update(2) [of ilog s "inv_payment_hash i" "ee_iter_all ies (inv_events i)" s' plog]
  show ?case by (auto simp: since_def intro: extends_trans)
qed (rule entity_store.punsaved_push [OF assms] entity_store.iunsaved_push [OF assms]
    entity_store.loaded_payment [OF assms] entity_store.loaded_invoice [OF assms]; assumption)+

lemma books_since:
  "books_ok paid received sha H (since plog ilog store_ok s0) plog ilog d \<longleftrightarrow>
   books_ok paid received sha H store_ok plog ilog d \<and> extends plog ilog s0 (db_es d)"
  by (auto simp: books_defs since_def)

section \<open>Beside tasks that only extend the logs\<close>

locale durable_env = gateway_env env store_ok plog ilog punsaved iunsaved paid received
  for env :: "('ie, 'pe, 's) env" and store_ok plog ilog punsaved iunsaved paid received +
  assumes others_extend: "consistent d \<Longrightarrow> extends plog ilog (db_es d) (db_es (e_others env n d))"
begin

lemma gateway_since: "gateway_env env (since plog ilog store_ok s0) plog ilog punsaved iunsaved paid received"
proof (rule gateway_env.intro [OF _ hex.hex_crate_axioms gateway_env_axioms.intro], goal_cases)
  case 1
  show ?case by (rule entity_store_since [OF entity_store_axioms])
next
  case 6
  show ?case
    using others_keep others_extend by (auto simp: stable_def books_since intro: extends_trans)
qed (use send_paid lookup_paid lookup_received settle_received in blast)+

lemma history:
  assumes "list_all (op_vouched paid) ops" "consistent (w_db w)"
  shows "extends plog ilog (db_es (w_db w)) (db_es (w_db (run_ops env ops w)))"
  using gateway_env.consistent_run_ops [OF gateway_since assms(1), of "db_es (w_db w)" w] assms(2)
  by (simp add: books_since extends_refl)

end

text \<open>Other instances of the gateway are such tasks.\<close>

lemma beside_durable:
  assumes "durable_env env store_ok plog ilog punsaved iunsaved paid received"
    and "\<And>n. list_all (op_vouched paid) (sched n)"
  shows "durable_env (beside env sched env) store_ok plog ilog punsaved iunsaved paid received"
proof -
  have "extends plog ilog (db_es d) (db_es (w_db (run_ops env (sched n) (on_db d))))"
    if "books_ok paid received (e_sha256 env) (e_hex env) store_ok plog ilog d" for n d
    using durable_env.history [OF assms(1) assms(2), of "on_db d" n] that by (simp add: on_db_def)
  with beside_gateway_env [OF durable_env.axioms(1) [OF assms(1)] assms(2)] show ?thesis
    by (auto simp: durable_env_def durable_env_axioms_def beside_def)
qed

interpretation ref_durable_env: durable_env ref_env ref_store_ok ref_plog ref_ilog new_events new_events
  "\<lambda>_ _. True" "\<lambda>_. True"
  by unfold_locales (simp add: ref_env_def extends_refl)

section \<open>Effects and database together\<close>

text \<open>\<open>runs I m R\<close>: every run of \<open>m\<close> from a database with \<open>I\<close> extends the trace by effects \<open>t\<close> with \<open>R\<close> of its result, of
  \<open>t\<close> and of the database it ends in.\<close>

definition runs :: "('s db \<Rightarrow> bool) \<Rightarrow> ('s world, 'e, 'a) cmd \<Rightarrow> ('e + 'a \<Rightarrow> effect list \<Rightarrow> 's db \<Rightarrow> bool) \<Rightarrow> bool" where
  "runs I m R \<longleftrightarrow>
     (\<forall>w r w'. I (w_db w) \<longrightarrow> m w = (r, w') \<longrightarrow> (\<exists>t. w_trace w' = w_trace w @ t \<and> R r t (w_db w')))"

lemma runsE:
  assumes "runs I m R" "I (w_db w)" "m w = (r, w')"
  obtains t where "w_trace w' = w_trace w @ t" "R r t (w_db w')"
  using assms unfolding runs_def by blast

lemma runs_mono: "runs I m R \<Longrightarrow> (\<And>r t d. R r t d \<Longrightarrow> R' r t d) \<Longrightarrow> runs I m R'"
  unfolding runs_def by blast

lemma runs_pre: "runs I m R \<Longrightarrow> (\<And>d. J d \<Longrightarrow> I d) \<Longrightarrow> runs J m R"
  unfolding runs_def by blast

lemma runs_both:
  assumes "keeps_to I m Q" "emits m P"
  shows "runs I m (\<lambda>r t d. I d \<and> P r t \<and> (\<forall>x. r = Inr x \<longrightarrow> Q x d))"
  unfolding runs_def
proof (intro allI impI)
  fix w r w' assume I: "I (w_db w)" and run: "m w = (r, w')"
  from emitsE [OF assms(2) run] obtain t where "w_trace w' = w_trace w @ t" "P r t" .
  with assms(1) I run show "\<exists>t. w_trace w' = w_trace w @ t \<and> I (w_db w') \<and> P r t \<and> (\<forall>x. r = Inr x \<longrightarrow> Q x (w_db w'))"
    unfolding keeps_to_def by metis
qed

lemma runs_bind:
  assumes "runs I m (\<lambda>r t d. case r of Inl e \<Rightarrow> R (Inl e) t d | Inr x \<Rightarrow> runs ((=) d) (f x) (\<lambda>r' t'. R r' (t @ t')))"
  shows "runs I (bindC m f) R"
  unfolding runs_def
proof (intro allI impI)
  fix w r w' assume I: "I (w_db w)" and run: "bindC m f w = (r, w')"
  obtain r1 w1 where m: "m w = (r1, w1)" by fastforce
  from runsE [OF assms I m] obtain t where t: "w_trace w1 = w_trace w @ t"
    "case r1 of Inl e \<Rightarrow> R (Inl e) t (w_db w1) | Inr x \<Rightarrow> runs ((=) (w_db w1)) (f x) (\<lambda>r' t'. R r' (t @ t'))" .
  show "\<exists>t. w_trace w' = w_trace w @ t \<and> R r t (w_db w')"
  proof (cases r1)
    case (Inl e)
    with run m t show ?thesis by (auto simp: bindC_def)
  next
    case (Inr x)
    with run m have f: "f x w1 = (r, w')" by (simp add: bindC_def)
    from t(2) Inr have "runs ((=) (w_db w1)) (f x) (\<lambda>r' t'. R r' (t @ t'))" by simp
    from runsE [OF this refl f] t(1) show ?thesis by (metis append.assoc)
  qed
qed

lemma runs_lift_bind:
  "(\<And>e d. I d \<Longrightarrow> R (Inl e) [] d) \<Longrightarrow> (\<And>x. r = Inr x \<Longrightarrow> runs I (f x) R) \<Longrightarrow> runs I (bindC (liftC r) f) R"
  by (cases r) (auto simp: runs_def bindC_def)

lemma runs_draw_bind: "(\<And>n. runs I (f (g n)) R) \<Longrightarrow> runs I (bindC (draw g) f) R"
  by (auto simp: runs_def bindC_def draw_def) (metis world_simps(1,3))

section \<open>Sends\<close>

definition sent_invoices :: "effect list \<Rightarrow> bolt_invoice list" where
  "sent_invoices = List.map_filter (\<lambda>e. case e of ELndSend p \<Rightarrow> Some (spp_bolt_invoice p) | _ \<Rightarrow> None)"

definition bolt_hash :: "('ie, 'pe, 's) env \<Rightarrow> bolt_invoice \<Rightarrow> payment_hash option" where
  "bolt_hash env b = (case e_bolt11 env (bolt_str b) of Inl _ \<Rightarrow> None | Inr x \<Rightarrow> Some (PaymentHash (b11_payment_hash x)))"

lemma sent_simps [simp]:
  "sent_invoices [] = []" "sent_invoices (t @ t') = sent_invoices t @ sent_invoices t'"
  "sent_invoices (ELndSend p # t) = spp_bolt_invoice p # sent_invoices t"
  "\<not> is_lnd_send e \<Longrightarrow> sent_invoices (e # t) = sent_invoices t"
  by (simp_all add: sent_invoices_def List.map_filter_def) (auto split: effect.split)

lemma no_send_sent: "list_all (\<lambda>e. \<not> is_lnd_send e) t \<Longrightarrow> sent_invoices t = []"
  by (induction t) simp_all

lemma idle_sent: "idle_trace t \<Longrightarrow> sent_invoices t = []"
proof (rule no_send_sent, elim list.pred_mono_strong)
  show "\<not> spends e \<Longrightarrow> \<not> is_lnd_send e" for e by (cases e) auto
qed

lemma outcome_sent: "outcome_tail env i h a t \<Longrightarrow> sent_invoices t = []"
  by (auto simp: outcome_tail_def completed_tail_def failed_tail_def)

lemma after_intent_sent: "after_intent env n i t \<Longrightarrow> sent_invoices t = [] \<or> sent_invoices t = [np_bolt_invoice n]"
  by (cases "(env, n, i, t)" rule: after_intent.cases)
    (auto simp: send_params_def outcome_sent dest: outcome_sent split: if_splits simp: failed_tail_def)

lemma persist_sent: "emits (persist_intent env n a) (\<lambda>_ t. sent_invoices t = [])"
  by (rule emits_mono [OF persist_intent_emits]) auto

lemma intraledger_sent: "emits (send_intraledger_payment env req decoded rcp now) (\<lambda>_ t. sent_invoices t = [])"
proof -
  have commit: "emits_all (\<lambda>e. \<not> is_lnd_send e) (intraledger_commit env n rcp pre sw rw ts)" for n pre sw rw ts
    unfolding intraledger_commit_def create_payment_in_op_def
    by (rule all_tx) (auto intro!: writes_rules record_payment_quiet)
  have "emits_all (\<lambda>e. \<not> is_lnd_send e) (send_intraledger_payment env req decoded rcp now)"
    unfolding send_intraledger_payment_def intraledger_authorize_def call_defs Let_def
    by (auto intro!: all_rules commit)
  then show ?thesis unfolding emits_all_def by (rule emits_mono) (rule no_send_sent)
qed

context gateway_env
begin

text \<open>An intent is stored only for a hash that had none, and is there once the transaction has committed.\<close>

lemma persist_intent_new:
  assumes "np_max_fee_msat n \<noteq> ZERO" "a = whole_sat (np_amount_msat n)"
  shows "keeps_to consistent (persist_intent env n a)
    (\<lambda>p d. tracked (np_payment_hash n) p \<and> pay_amount_msat p = np_amount_msat n \<and> plog (db_es d) (np_payment_hash n) \<noteq> [] \<and>
       (\<exists>s. store_ok s \<and> plog s (np_payment_hash n) = []))"
proof -
  have new: "plog s' (np_payment_hash n) \<noteq> [] \<and> (\<exists>s. store_ok s \<and> plog s (np_payment_hash n) = [])"
    if "consistent d" "create_payment_row (e_repos env) (db_es d) n = Inr (p, s')" for d p s'
    using payment_inserted [OF consistent_store [OF that(1)] that(2)] consistent_store [OF that(1)] by auto
  show ?thesis
    unfolding persist_intent_def create_payment_in_op_def
    by (rule keeps_to_tx [OF others_keep], intro body_rules)
      (use assms new created_tracked [OF consistent_store] payment_initiated_committed consistent_rollback in
        \<open>auto simp: rollback_def build_initiated_outbox_def outbox_ctors\<close>)
qed

end

context durable_env
begin

text \<open>What a run that started from \<open>s0\<close> has sent: at most one invoice, of a hash that had no payment then and has one now.\<close>

definition fresh_sends :: "'s \<Rightarrow> effect list \<Rightarrow> 's db \<Rightarrow> bool" where
  "fresh_sends s0 t d \<longleftrightarrow> length (sent_invoices t) \<le> 1 \<and>
     list_all (\<lambda>b. \<exists>h. bolt_hash env b = Some h \<and> plog s0 h = [] \<and> plog (db_es d) h \<noteq> []) (sent_invoices t)"

lemma fresh_none: "sent_invoices t = [] \<Longrightarrow> fresh_sends s0 t d"
  by (simp add: fresh_sends_def)

lemma fresh_append: "sent_invoices t = [] \<Longrightarrow> fresh_sends s0 (t @ t') d = fresh_sends s0 t' d"
  by (simp add: fresh_sends_def)

abbreviation consistent_since :: "'s \<Rightarrow> 's db \<Rightarrow> bool" where
  "consistent_since s0 \<equiv> books_ok paid received (e_sha256 env) (e_hex env) (since plog ilog store_ok s0) plog ilog"

lemma consistent_since_now: "consistent d \<Longrightarrow> consistent_since (db_es d) d"
  by (simp add: books_since extends_refl)

lemma kept_log: "consistent_since s d \<Longrightarrow> plog s h \<noteq> [] \<Longrightarrow> plog (db_es d) h \<noteq> []"
  using extends_empty [of plog ilog s "db_es d" h] by (auto simp: books_since)

text \<open>From the stored intent on.\<close>

lemma authorized_sends:
  fixes n :: new_payment
  assumes d: "consistent d" "plog (db_es d) (np_payment_hash n) \<noteq> []"
    and n: "plog s0 (np_payment_hash n) = []" "bolt_hash env (np_bolt_invoice n) = Some (np_payment_hash n)"
    and p: "tracked (np_payment_hash n) p" "pay_amount_msat p = np_amount_msat n"
  shows "runs ((=) d) (send_payment_authorize env p (np_payment_hash n) (np_wallet_id n) (np_amount_msat n)
      (np_max_fee_msat n) (whole_sat (np_amount_msat n)) (np_bolt_invoice n) now) (\<lambda>_ t d'. fresh_sends s0 t d')"
proof -
  let ?m = "send_payment_authorize env p (np_payment_hash n) (np_wallet_id n) (np_amount_msat n)
      (np_max_fee_msat n) (whole_sat (np_amount_msat n)) (np_bolt_invoice n) now"
  have "keeps (consistent_since (db_es d)) ?m (\<lambda>_. True)"
    by (rule gateway_env.keeps_authorize [OF gateway_since p(1)]) (simp add: p(2))
  then have k: "keeps_to (consistent_since (db_es d)) ?m (\<lambda>_ _. True)" by (simp add: keeps_to_def keeps_def)
  have "runs ((=) d) ?m (\<lambda>r t d'. consistent_since (db_es d) d' \<and> after_intent env n (pay_id p) t \<and> (\<forall>x. r = Inr x \<longrightarrow> True))"
    by (rule runs_pre [OF runs_both [OF k authorize_emits]]) (use consistent_since_now [OF d(1)] in auto)
  then show ?thesis
    by (rule runs_mono) (use after_intent_sent kept_log [OF _ d(2)] n in \<open>fastforce simp: fresh_sends_def\<close>)
qed

lemma lightning_sends:
  assumes "bolt_hash env (di_bolt_invoice decoded) = Some (di_payment_hash decoded)"
  shows "runs (consistent_since s0) (send_ln_payment env req decoded now) (\<lambda>_ t d. fresh_sends s0 t d)"
  unfolding send_ln_payment_def Let_def
proof (intro runs_lift_bind runs_draw_bind runs_bind, goal_cases)
  case (3 amount k n)
  then have amt: "di_amount_msat decoded = Some amount" by (simp add: ok_or_def split: option.splits)
  from 3(2) have n: "new_payment_try_new (e_payment_id env k) decoded (pq_wallet_id req) None (max_for amount) now = Inr n" by simp
  note f = new_payment_fields [OF n] and a = new_payment_fields(9) [OF n amt refl]
  have new: "keeps_to (consistent_since s0) (persist_intent env n (whole_sat amount))
      (\<lambda>p d. tracked (np_payment_hash n) p \<and> pay_amount_msat p = np_amount_msat n \<and> plog (db_es d) (np_payment_hash n) \<noteq> [] \<and>
         (\<exists>s. since plog ilog store_ok s0 s \<and> plog s (np_payment_hash n) = []))"
    by (rule gateway_env.persist_intent_new [OF gateway_since]) (use f a in simp_all)
  have fresh: "plog s0 h = []" if "\<exists>s. since plog ilog store_ok s0 s \<and> plog s h = []" for h
    using that extends_empty [of plog ilog s0 _ h] by (auto simp: since_def)
  have cont: "runs ((=) d) (send_payment_authorize env p (di_payment_hash decoded) (pq_wallet_id req) amount (max_for amount)
      (whole_sat amount) (di_bolt_invoice decoded) now) (\<lambda>_ t d'. fresh_sends s0 t d')"
    if "consistent_since s0 d" "tracked (np_payment_hash n) p" "pay_amount_msat p = np_amount_msat n"
      "plog (db_es d) (np_payment_hash n) \<noteq> []" "\<exists>s. since plog ilog store_ok s0 s \<and> plog s (np_payment_hash n) = []" for d p
    using authorized_sends [OF _ that(4) fresh [OF that(5)] _ that(2,3), of now] that(1) assms f a by (simp add: books_since)
  show ?case
    by (rule runs_mono [OF runs_both [OF new persist_sent]])
      (auto simp: fresh_none fresh_append split: sum.split intro!: runs_mono [OF cont])
qed (simp_all add: fresh_none)

lemma routed_sends:
  assumes "bolt_hash env (di_bolt_invoice decoded) = Some (di_payment_hash decoded)"
  shows "runs (consistent_since s0) (route_payment env req now decoded) (\<lambda>_ t d. fresh_sends s0 t d)"
  unfolding route_payment_def
proof (rule runs_bind)
  let ?m = "mapErrC (\<lambda>e. AppInvoice (InvoiceFind e)) (maybe_find_invoice env (di_payment_hash decoded))"
  have "keeps (consistent_since s0) ?m (\<lambda>_. True)"
    by (rule keeps_mapErr, rule keeps_mono [OF gateway_env.keeps_maybe_find_invoice [OF gateway_since]]) simp
  then have k: "keeps_to (consistent_since s0) ?m (\<lambda>_ _. True)" by (simp add: keeps_to_def keeps_def)
  have e: "emits ?m (\<lambda>_ t. t = [])" unfolding maybe_find_invoice_def by (intro emits_rules) simp_all
  have local: "runs ((=) d) (send_intraledger_payment env req decoded rcp now) (\<lambda>_ t d. fresh_sends s0 t d)" for d rcp
    using intraledger_sent [of env req decoded rcp now] fresh_none unfolding runs_def emits_def by blast
  show "runs (consistent_since s0) ?m (\<lambda>r t d. case r of Inl e \<Rightarrow> fresh_sends s0 t d
    | Inr found \<Rightarrow> runs ((=) d) (case found of None \<Rightarrow> send_ln_payment env req decoded now
        | Some rcp \<Rightarrow> send_intraledger_payment env req decoded rcp now) (\<lambda>r' t' d'. fresh_sends s0 (t @ t') d'))"
    by (rule runs_mono [OF runs_both [OF k e]])
      (auto simp: fresh_none local split: sum.split option.split intro: runs_pre [OF lightning_sends [OF assms]])
qed

lemma sends_fresh: "runs (consistent_since s0) (send_payment env req) (\<lambda>_ t d. fresh_sends s0 t d)"
proof -
  have quiet: "keeps_to I (check_wallet_ownership env auth wallet) (\<lambda>_ _. True)" for I auth wallet
    using keeps_check_ownership [of I auth wallet] by (simp add: keeps_to_def keeps_def)
  have own: "emits (check_wallet_ownership env auth wallet) (\<lambda>_ t. sent_invoices t = [])" for auth wallet
    unfolding call_defs by (intro emits_rules) simp
  have dec: "runs (consistent_since s0) (decode_payment_request env pr)
      (\<lambda>r t d. consistent_since s0 d \<and> t = [] \<and> (\<forall>x. r = Inr x \<longrightarrow> bolt_hash env (di_bolt_invoice x) = Some (di_payment_hash x)))" for pr
    unfolding decode_payment_request_def
    by (rule runs_draw_bind)
      (auto simp: runs_def decode_bolt11_def bolt_hash_def bindR_Inr_iff map_err_def Let_def split: if_splits sum.splits)
  have rest: "runs (consistent_since s0) (bindC (decode_payment_request env pr) (route_payment env req now))
      (\<lambda>_ t d. fresh_sends s0 t d)" for pr now
    by (rule runs_bind, rule runs_mono [OF dec])
      (auto simp: fresh_none split: sum.split intro: runs_pre [OF routed_sends])
  show ?thesis
    unfolding send_payment_def
    by (rule runs_draw_bind, rule runs_bind, rule runs_mono [OF runs_both [OF quiet own]])
      (auto simp: fresh_none fresh_append split: sum.split intro: runs_pre [OF rest])
qed

section \<open>Any sequence of operations\<close>

text \<open>What the sends of a trace that led from the store \<open>s0\<close> to the database \<open>d\<close> have in common.\<close>

definition sends_once :: "'s \<Rightarrow> effect list \<Rightarrow> 's db \<Rightarrow> bool" where
  "sends_once s0 t d \<longleftrightarrow> distinct (map (bolt_hash env) (sent_invoices t)) \<and>
     list_all (\<lambda>b. \<exists>h. bolt_hash env b = Some h \<and> plog s0 h = [] \<and> plog (db_es d) h \<noteq> []) (sent_invoices t)"

lemma op_sends_once:
  assumes "consistent (w_db w)"
  shows "\<exists>t. w_trace (run_op env op w) = w_trace w @ t \<and> sends_once (db_es (w_db w)) t (w_db (run_op env op w))"
proof (cases "is_send op")
  case True
  then obtain req where op: "op = OpSendPayment req" by (cases op) auto
  from runsE [OF sends_fresh [of "db_es (w_db w)" req], of w "fst (send_payment env req w)" "snd (send_payment env req w)"]
  obtain t where "w_trace (snd (send_payment env req w)) = w_trace w @ t"
    "fresh_sends (db_es (w_db w)) t (w_db (snd (send_payment env req w)))"
    using consistent_since_now [OF assms] by auto
  moreover have "length xs \<le> 1 \<Longrightarrow> distinct xs" for xs :: "payment_hash option list"
    by (cases xs) auto
  ultimately show ?thesis
    by (auto simp: op fresh_sends_def sends_once_def)
next
  case False
  from idle_op [OF gateway_repos_axioms False] show ?thesis
    using idle_sent by (fastforce simp: sends_once_def)
qed

lemma run_ops_sends_once:
  assumes "list_all (op_vouched paid) ops" "consistent (w_db w)"
  shows "\<exists>t. w_trace (run_ops env ops w) = w_trace w @ t \<and> sends_once (db_es (w_db w)) t (w_db (run_ops env ops w))"
  using assms
proof (induction ops arbitrary: w)
  case Nil
  show ?case by (simp add: run_ops_def sends_once_def)
next
  case (Cons op ops)
  let ?w = "run_op env op w"
  have c: "consistent (w_db ?w)" using Cons.prems by (simp add: consistent_run_op)
  from op_sends_once [OF Cons.prems(2)] obtain t1 where t1: "w_trace ?w = w_trace w @ t1"
    "sends_once (db_es (w_db w)) t1 (w_db ?w)" by blast
  from Cons.IH [OF _ c] Cons.prems obtain t2 where t2: "w_trace (run_ops env ops ?w) = w_trace ?w @ t2"
    "sends_once (db_es (w_db ?w)) t2 (w_db (run_ops env ops ?w))" by auto
  have e: "extends plog ilog (db_es (w_db w)) (db_es (w_db ?w))"
      "extends plog ilog (db_es (w_db ?w)) (db_es (w_db (run_ops env ops ?w)))"
    using history [of "[op]" w] history [OF _ c, of ops] Cons.prems by (simp_all add: run_ops_def)
  have "sends_once (db_es (w_db w)) (t1 @ t2) (w_db (run_ops env ops ?w))"
    using t1(2) t2(2) extends_empty [OF e(1)] extends_empty [OF e(2)]
    by (fastforce simp: sends_once_def list_all_iff)
  then show ?case using t1(1) t2(1) by (auto simp: run_ops_def)
qed

end

text \<open>The race of \<open>Gateway_System\<close>, in which another instance records the failure of the payment.\<close>

lemma racing_durable_env:
  "durable_env racing_env ref_store_ok ref_plog ref_ilog new_events new_events (\<lambda>_ _. True) (\<lambda>_. True)"
  unfolding racing_env_def
  by (rule beside_durable [OF ref_durable_env.durable_env_axioms]) (simp add: update_vouched_def split: option.split)

definition racing_world :: "gateway_op list \<Rightarrow> ref_store world" where
  "racing_world ops = run_ops racing_env ops ref_world"

lemma racing_books:
  "books_ok (\<lambda>_ _. True) (\<lambda>_. True) (e_sha256 racing_env) (e_hex racing_env) ref_store_ok ref_plog ref_ilog
     (w_db (racing_world [OpSendPayment sample_request]))"
  unfolding racing_world_def
  by (rule gateway_env.consistent_run_ops [OF racing_gateway_env _ empty_books_ok]) simp

lemma racing_world_log: "ref_plog (db_es (w_db (racing_world [OpSendPayment sample_request]))) (PaymentHash (replicate 32 7)) \<noteq> []"
  by code_simp

lemma racing_world_sent:
  "length (sent_invoices (w_trace (racing_world [OpSendPayment sample_request, OpSendPayment sample_request]))) = 1"
  by code_simp

section \<open>Properties\<close>



text \<open>C3. No invoice is paid twice: over any sequence of operations, beside other instances of the gateway and
  whatever LND, Symphony and the database do, the payment requests an instance sends to LND have different
  payment hashes; each is of a hash that had no payment stored at the start, and has one at the end.\<close>

theorem no_invoice_sent_twice:
  assumes "durable_env env store_ok plog ilog punsaved iunsaved paid received" "list_all (op_vouched paid) ops"
    and "books_ok paid received (e_sha256 env) (e_hex env) store_ok plog ilog (w_db w)"
    and "w_trace (run_ops env ops w) = w_trace w @ t"
  shows "distinct (map (bolt_hash env) (sent_invoices t)) \<and>
    list_all (\<lambda>b. \<exists>h. bolt_hash env b = Some h \<and> plog (db_es (w_db w)) h = [] \<and>
      plog (db_es (w_db (run_ops env ops w))) h \<noteq> []) (sent_invoices t)"
  using durable_env.run_ops_sends_once [OF assms(1-3)] assms(4)
  by (auto simp: durable_env.sends_once_def [OF assms(1)])

theorem no_invoice_sent_twice_witness:
  "distinct (map (bolt_hash racing_env)
     (sent_invoices (w_trace (racing_world [OpSendPayment sample_request, OpSendPayment sample_request])))) \<and>
   length (sent_invoices (w_trace (racing_world [OpSendPayment sample_request, OpSendPayment sample_request]))) = 1"
  using no_invoice_sent_twice [OF racing_durable_env _ empty_books_ok,
      of "[OpSendPayment sample_request, OpSendPayment sample_request]"] racing_world_sent
  by (simp add: racing_world_def ref_world_def)

end
