(* ===== verification/Event_Json.thy ===== *)
theory Event_Json
  imports Invoice Payment Outbox_Listen "HOL-Library.Multiset"
begin

text \<open>
  The stored form of the events: the serde representations of \<open>InvoiceEvent\<close> and \<open>PaymentEvent\<close>
  (\<open>invoice/event.rs\<close>, \<open>payment/event.rs\<close>) with those of the primitives they carry, and the \<open>JSONB\<close> column they
  go through. The derives are serde's documented representations: an internally tagged enum is an object
  with a \<open>type\<close> field beside its own, \<open>FailureReason\<close> is adjacently tagged, a transparent newtype is its
  content. The hex, uuid and chrono codecs and the order in which a \<open>JSONB\<close> object keeps its fields are
  parameters of the locale \<open>event_column\<close>.
\<close>

section \<open>Reading an object\<close>

datatype de_error = MissingField string | InvalidType | UnknownVariant string | Custom

definition json_field :: "string \<Rightarrow> json \<Rightarrow> de_error + json" where
  "json_field k j = (case j of JObj kvs \<Rightarrow> ok_or (map_of kvs k) (MissingField k) | _ \<Rightarrow> Inl InvalidType)"

text \<open>A field of type \<open>Option\<close> may be absent or null.\<close>

definition json_option_field :: "string \<Rightarrow> (json \<Rightarrow> de_error + 'a) \<Rightarrow> json \<Rightarrow> de_error + 'a option" where
  "json_option_field k get j =
     (case j of
        JObj kvs \<Rightarrow>
          (case map_of kvs k of None \<Rightarrow> Inr None | Some JNull \<Rightarrow> Inr None | Some v \<Rightarrow> bindR (get v) (\<lambda>x. Inr (Some x)))
      | _ \<Rightarrow> Inl InvalidType)"

definition get_string :: "json \<Rightarrow> de_error + string" where
  "get_string j = (case j of JStr s \<Rightarrow> Inr s | _ \<Rightarrow> Inl InvalidType)"

text \<open>An unsigned integer of the width of the word.\<close>

definition get_unsigned :: "json \<Rightarrow> de_error + 'w::len word" where
  "get_unsigned j =
     (case j of JNum n \<Rightarrow> if 0 \<le> n \<and> n < 2 ^ LENGTH('w) then Inr (word_of_int n) else Inl InvalidType | _ \<Rightarrow> Inl InvalidType)"

section \<open>Primitives\<close>

record serde_codecs =
  sc_hex :: hex_codec
  sc_uuid_show :: "uuid \<Rightarrow> string"
  sc_uuid_parse :: "string \<Rightarrow> uuid option"
  sc_time_show :: "timestamp \<Rightarrow> string"
  sc_time_parse :: "string \<Rightarrow> timestamp option"

definition hash_serialize :: "serde_codecs \<Rightarrow> payment_hash \<Rightarrow> json" where
  "hash_serialize C h = JStr (hash_to_hex (sc_hex C) h)"

definition hash_deserialize :: "serde_codecs \<Rightarrow> json \<Rightarrow> de_error + payment_hash" where
  "hash_deserialize C j = bindR (get_string j) (\<lambda>s. map_err (\<lambda>_. Custom) (hash_from_str (sc_hex C) s))"

definition preimage_serialize :: "serde_codecs \<Rightarrow> preimage \<Rightarrow> json" where
  "preimage_serialize C p = JStr (preimage_to_hex (sc_hex C) p)"

definition preimage_deserialize :: "serde_codecs \<Rightarrow> json \<Rightarrow> de_error + preimage" where
  "preimage_deserialize C j = bindR (get_string j) (\<lambda>s. map_err (\<lambda>_. Custom) (preimage_from_str (sc_hex C) s))"

definition pubkey_serialize :: "serde_codecs \<Rightarrow> pubkey \<Rightarrow> json" where
  "pubkey_serialize C p = JStr (pubkey_to_hex (sc_hex C) p)"

definition pubkey_deserialize :: "serde_codecs \<Rightarrow> json \<Rightarrow> de_error + pubkey" where
  "pubkey_deserialize C j = bindR (get_string j) (\<lambda>s. map_err (\<lambda>_. Custom) (pubkey_from_str (sc_hex C) s))"

definition msat_serialize :: "milli_satoshi \<Rightarrow> json" where
  "msat_serialize m = JNum (uint (as_u64 m))"

definition msat_deserialize :: "json \<Rightarrow> de_error + milli_satoshi" where
  "msat_deserialize j = bindR (get_unsigned j) (\<lambda>v. Inr (MilliSatoshi v))"

definition wallet_serialize :: "serde_codecs \<Rightarrow> wallet_id \<Rightarrow> json" where
  "wallet_serialize C w = JStr (sc_uuid_show C (wallet_uuid w))"

definition wallet_deserialize :: "serde_codecs \<Rightarrow> json \<Rightarrow> de_error + wallet_id" where
  "wallet_deserialize C j = bindR (get_string j) (\<lambda>s. bindR (ok_or (sc_uuid_parse C s) Custom) (\<lambda>u. Inr (WalletId u)))"

definition time_serialize :: "serde_codecs \<Rightarrow> timestamp \<Rightarrow> json" where
  "time_serialize C t = JStr (sc_time_show C t)"

definition time_deserialize :: "serde_codecs \<Rightarrow> json \<Rightarrow> de_error + timestamp" where
  "time_deserialize C j = bindR (get_string j) (\<lambda>s. ok_or (sc_time_parse C s) Custom)"

definition bolt_serialize :: "bolt_invoice \<Rightarrow> json" where
  "bolt_serialize b = JStr (bolt_str b)"

definition bolt_deserialize :: "json \<Rightarrow> de_error + bolt_invoice" where
  "bolt_deserialize j = bindR (get_string j) (\<lambda>s. Inr (BoltInvoice s))"

section \<open>Parts of events\<close>

definition hop_serialize :: "serde_codecs \<Rightarrow> hop \<Rightarrow> json" where
  "hop_serialize C h = JObj
     [(''pub_key'', pubkey_serialize C (hop_pub_key h)), (''channel_id'', JNum (uint (hop_channel_id h))),
      (''fee_msat'', msat_serialize (hop_fee_msat h)), (''amt_msat'', msat_serialize (hop_amt_msat h)),
      (''expiry'', JNum (uint (hop_expiry h)))]"

definition hop_deserialize :: "serde_codecs \<Rightarrow> json \<Rightarrow> de_error + hop" where
  "hop_deserialize C j =
     bindR (bindR (json_field ''pub_key'' j) (pubkey_deserialize C)) (\<lambda>pk.
     bindR (bindR (json_field ''channel_id'' j) get_unsigned) (\<lambda>chan.
     bindR (bindR (json_field ''fee_msat'' j) msat_deserialize) (\<lambda>fee.
     bindR (bindR (json_field ''amt_msat'' j) msat_deserialize) (\<lambda>amt.
     bindR (bindR (json_field ''expiry'' j) get_unsigned) (\<lambda>expiry.
     Inr \<lparr>hop_pub_key = pk, hop_channel_id = chan, hop_fee_msat = fee, hop_amt_msat = amt, hop_expiry = expiry\<rparr>)))))"

definition hops_deserialize :: "serde_codecs \<Rightarrow> json \<Rightarrow> de_error + hop list" where
  "hops_deserialize C j = (case j of JArr xs \<Rightarrow> collectR (map (hop_deserialize C) xs) | _ \<Rightarrow> Inl InvalidType)"

fun failure_reason_serialize :: "failure_reason \<Rightarrow> json" where
  "failure_reason_serialize Timeout = JObj [(''kind'', JStr ''timeout'')]"
| "failure_reason_serialize NoRoute = JObj [(''kind'', JStr ''no_route'')]"
| "failure_reason_serialize InsufficientBalance = JObj [(''kind'', JStr ''insufficient_balance'')]"
| "failure_reason_serialize IncorrectPaymentDetails = JObj [(''kind'', JStr ''incorrect_payment_details'')]"
| "failure_reason_serialize (Other s) = JObj [(''kind'', JStr ''other''), (''detail'', JStr s)]"

definition failure_reason_deserialize :: "json \<Rightarrow> de_error + failure_reason" where
  "failure_reason_deserialize j =
     bindR (bindR (json_field ''kind'' j) get_string) (\<lambda>k.
     if k = ''timeout'' then Inr Timeout
     else if k = ''no_route'' then Inr NoRoute
     else if k = ''insufficient_balance'' then Inr InsufficientBalance
     else if k = ''incorrect_payment_details'' then Inr IncorrectPaymentDetails
     else if k = ''other'' then bindR (bindR (json_field ''detail'' j) get_string) (\<lambda>s. Inr (Other s))
     else Inl (UnknownVariant k))"

fun cancel_reason_serialize :: "cancel_reason \<Rightarrow> json" where
  "cancel_reason_serialize Expired = JObj [(''kind'', JStr ''expired'')]"

definition cancel_reason_deserialize :: "json \<Rightarrow> de_error + cancel_reason" where
  "cancel_reason_deserialize j =
     bindR (bindR (json_field ''kind'' j) get_string) (\<lambda>k.
     if k = ''expired'' then Inr Expired else Inl (UnknownVariant k))"

section \<open>Events\<close>

fun payment_event_serialize :: "serde_codecs \<Rightarrow> payment_event \<Rightarrow> json" where
  "payment_event_serialize C (EvInitiated hash wallet amount max_fee bolt destination initiated_at) = JObj
     [(''type'', JStr ''initiated''), (''payment_hash'', hash_serialize C hash), (''wallet_id'', wallet_serialize C wallet),
      (''amount_msat'', msat_serialize amount), (''max_fee_msat'', msat_serialize max_fee),
      (''bolt_invoice'', bolt_serialize bolt), (''destination'', JStr destination),
      (''initiated_at'', time_serialize C initiated_at)]"
| "payment_event_serialize C (EvPending sent_at) = JObj [(''type'', JStr ''pending''), (''sent_at'', time_serialize C sent_at)]"
| "payment_event_serialize C (EvCompleted settled_at pre fees hops) = JObj
     [(''type'', JStr ''completed''), (''settled_at'', time_serialize C settled_at),
      (''payment_preimage'', preimage_serialize C pre), (''fees_paid_msat'', msat_serialize fees),
      (''route_hops'', JArr (map (hop_serialize C) hops))]"
| "payment_event_serialize C (EvFailed failed_at reason) = JObj
     [(''type'', JStr ''failed''), (''failed_at'', time_serialize C failed_at),
      (''failure_reason'', failure_reason_serialize reason)]"
| "payment_event_serialize C (EvReversed reversed_at reason) = JObj
     [(''type'', JStr ''reversed''), (''reversed_at'', time_serialize C reversed_at), (''reason'', JStr reason)]"

definition payment_event_deserialize :: "serde_codecs \<Rightarrow> json \<Rightarrow> de_error + payment_event" where
  "payment_event_deserialize C j =
     bindR (bindR (json_field ''type'' j) get_string) (\<lambda>t.
     if t = ''initiated'' then
       bindR (bindR (json_field ''payment_hash'' j) (hash_deserialize C)) (\<lambda>hash.
       bindR (bindR (json_field ''wallet_id'' j) (wallet_deserialize C)) (\<lambda>wallet.
       bindR (bindR (json_field ''amount_msat'' j) msat_deserialize) (\<lambda>amount.
       bindR (bindR (json_field ''max_fee_msat'' j) msat_deserialize) (\<lambda>max_fee.
       bindR (bindR (json_field ''bolt_invoice'' j) bolt_deserialize) (\<lambda>bolt.
       bindR (bindR (json_field ''destination'' j) get_string) (\<lambda>destination.
       bindR (bindR (json_field ''initiated_at'' j) (time_deserialize C)) (\<lambda>initiated_at.
       Inr (EvInitiated hash wallet amount max_fee bolt destination initiated_at))))))))
     else if t = ''pending'' then
       bindR (bindR (json_field ''sent_at'' j) (time_deserialize C)) (\<lambda>sent_at. Inr (EvPending sent_at))
     else if t = ''completed'' then
       bindR (bindR (json_field ''settled_at'' j) (time_deserialize C)) (\<lambda>settled_at.
       bindR (bindR (json_field ''payment_preimage'' j) (preimage_deserialize C)) (\<lambda>pre.
       bindR (bindR (json_field ''fees_paid_msat'' j) msat_deserialize) (\<lambda>fees.
       bindR (bindR (json_field ''route_hops'' j) (hops_deserialize C)) (\<lambda>hops.
       Inr (EvCompleted settled_at pre fees hops)))))
     else if t = ''failed'' then
       bindR (bindR (json_field ''failed_at'' j) (time_deserialize C)) (\<lambda>failed_at.
       bindR (bindR (json_field ''failure_reason'' j) failure_reason_deserialize) (\<lambda>reason.
       Inr (EvFailed failed_at reason)))
     else if t = ''reversed'' then
       bindR (bindR (json_field ''reversed_at'' j) (time_deserialize C)) (\<lambda>reversed_at.
       bindR (bindR (json_field ''reason'' j) get_string) (\<lambda>reason. Inr (EvReversed reversed_at reason)))
     else Inl (UnknownVariant t))"

fun invoice_event_serialize :: "serde_codecs \<Rightarrow> invoice_event \<Rightarrow> json" where
  "invoice_event_serialize C (EvCreated hash pre wallet amount expiry_at bolt external_id created_at) = JObj
     [(''type'', JStr ''created''), (''payment_hash'', hash_serialize C hash), (''payment_preimage'', preimage_serialize C pre),
      (''wallet_id'', wallet_serialize C wallet),
      (''amount_msat'', case amount of None \<Rightarrow> JNull | Some a \<Rightarrow> msat_serialize a),
      (''expiry_at'', time_serialize C expiry_at), (''bolt_invoice'', bolt_serialize bolt), (''external_id'', JStr external_id),
      (''created_at'', time_serialize C created_at)]"
| "invoice_event_serialize C (EvHtlcHeld held_at amount) = JObj
     [(''type'', JStr ''htlc_held''), (''held_at'', time_serialize C held_at), (''htlc_amount_msat'', msat_serialize amount)]"
| "invoice_event_serialize C (EvSettled settled_at) = JObj
     [(''type'', JStr ''settled''), (''settled_at'', time_serialize C settled_at)]"
| "invoice_event_serialize C (EvSettledIntraledger settled_at) = JObj
     [(''type'', JStr ''settled_intraledger''), (''settled_at'', time_serialize C settled_at)]"
| "invoice_event_serialize C (EvCanceled canceled_at reason) = JObj
     [(''type'', JStr ''canceled''), (''canceled_at'', time_serialize C canceled_at),
      (''reason'', cancel_reason_serialize reason)]"

definition invoice_event_deserialize :: "serde_codecs \<Rightarrow> json \<Rightarrow> de_error + invoice_event" where
  "invoice_event_deserialize C j =
     bindR (bindR (json_field ''type'' j) get_string) (\<lambda>t.
     if t = ''created'' then
       bindR (bindR (json_field ''payment_hash'' j) (hash_deserialize C)) (\<lambda>hash.
       bindR (bindR (json_field ''payment_preimage'' j) (preimage_deserialize C)) (\<lambda>pre.
       bindR (bindR (json_field ''wallet_id'' j) (wallet_deserialize C)) (\<lambda>wallet.
       bindR (json_option_field ''amount_msat'' msat_deserialize j) (\<lambda>amount.
       bindR (bindR (json_field ''expiry_at'' j) (time_deserialize C)) (\<lambda>expiry_at.
       bindR (bindR (json_field ''bolt_invoice'' j) bolt_deserialize) (\<lambda>bolt.
       bindR (bindR (json_field ''external_id'' j) get_string) (\<lambda>external_id.
       bindR (bindR (json_field ''created_at'' j) (time_deserialize C)) (\<lambda>created_at.
       Inr (EvCreated hash pre wallet amount expiry_at bolt external_id created_at)))))))))
     else if t = ''htlc_held'' then
       bindR (bindR (json_field ''held_at'' j) (time_deserialize C)) (\<lambda>held_at.
       bindR (bindR (json_field ''htlc_amount_msat'' j) msat_deserialize) (\<lambda>amount. Inr (EvHtlcHeld held_at amount)))
     else if t = ''settled'' then
       bindR (bindR (json_field ''settled_at'' j) (time_deserialize C)) (\<lambda>settled_at. Inr (EvSettled settled_at))
     else if t = ''settled_intraledger'' then
       bindR (bindR (json_field ''settled_at'' j) (time_deserialize C)) (\<lambda>settled_at. Inr (EvSettledIntraledger settled_at))
     else if t = ''canceled'' then
       bindR (bindR (json_field ''canceled_at'' j) (time_deserialize C)) (\<lambda>canceled_at.
       bindR (bindR (json_field ''reason'' j) cancel_reason_deserialize) (\<lambda>reason. Inr (EvCanceled canceled_at reason)))
     else Inl (UnknownVariant t))"

section \<open>The JSONB column\<close>

text \<open>A \<open>JSONB\<close> object does not keep the order of its fields; \<open>ord\<close> is the order it stores them in.\<close>

type_synonym field_order = "(string \<times> json) list \<Rightarrow> (string \<times> json) list"

fun jsonb :: "field_order \<Rightarrow> json \<Rightarrow> json" where
  "jsonb ord (JObj kvs) = JObj (ord (map (\<lambda>x. (fst x, jsonb ord (snd x))) kvs))"
| "jsonb ord (JArr xs) = JArr (map (jsonb ord) xs)"
| "jsonb ord j = j"

text \<open>The byte arrays of a value of the source have their length.\<close>

fun wf_payment_event :: "payment_event \<Rightarrow> bool" where
  "wf_payment_event (EvInitiated hash _ _ _ _ _ _) \<longleftrightarrow> wf_hash hash"
| "wf_payment_event (EvCompleted _ pre _ hops) \<longleftrightarrow> wf_preimage pre \<and> list_all (\<lambda>h. wf_pubkey (hop_pub_key h)) hops"
| "wf_payment_event _ \<longleftrightarrow> True"

fun wf_invoice_event :: "invoice_event \<Rightarrow> bool" where
  "wf_invoice_event (EvCreated hash pre _ _ _ _ _ _) \<longleftrightarrow> wf_hash hash \<and> wf_preimage pre"
| "wf_invoice_event _ \<longleftrightarrow> True"

locale event_column =
  fixes C :: serde_codecs and ord :: field_order
  assumes hex: "hex_crate (sc_hex C)"
    and uuid_roundtrip: "sc_uuid_parse C (sc_uuid_show C u) = Some u"
    and time_roundtrip: "sc_time_parse C (sc_time_show C t) = Some t"
    and ord_permutes: "mset (ord kvs) = mset kvs"
begin

lemma map_of_ord:
  assumes "distinct (map fst kvs)"
  shows "map_of (ord kvs) = map_of kvs"
proof
  have "mset (map fst (ord kvs)) = mset (map fst kvs)" by (simp add: ord_permutes)
  with assms have d: "distinct (map fst (ord kvs))" by (metis mset_eq_imp_distinct_iff)
  have "set (ord kvs) = set kvs" by (rule mset_eq_setD [OF ord_permutes])
  then have "map_of (ord kvs) k = Some v \<longleftrightarrow> map_of kvs k = Some v" for k v
    using assms d by simp
  then show "map_of (ord kvs) k = map_of kvs k" for k by (metis option.exhaust)
qed

text \<open>Reading a field of a stored object gives the stored field.\<close>

lemma map_of_stored: "map_of (map (\<lambda>x. (fst x, f (snd x))) kvs) k = map_option f (map_of kvs k)"
  by (induction kvs) auto

lemma field_jsonb:
  assumes "distinct (map fst kvs)"
  shows "json_field k (jsonb ord (JObj kvs)) = ok_or (map_option (jsonb ord) (map_of kvs k)) (MissingField k)"
proof -
  have "map fst (map (\<lambda>x. (fst x, jsonb ord (snd x))) kvs) = map fst kvs" by simp
  with assms have "distinct (map fst (map (\<lambda>x. (fst x, jsonb ord (snd x))) kvs))" by (simp only:)
  then show ?thesis by (simp add: json_field_def map_of_ord map_of_stored)
qed

lemma get_unsigned_uint: "get_unsigned (JNum (uint (v :: 'w::len word))) = Inr v"
  using uint_lt2p [of v] by (simp add: get_unsigned_def)

lemma primitives_roundtrip:
  "wf_hash h \<Longrightarrow> hash_deserialize C (jsonb ord (hash_serialize C h)) = Inr h"
  "wf_preimage p \<Longrightarrow> preimage_deserialize C (jsonb ord (preimage_serialize C p)) = Inr p"
  "wf_pubkey q \<Longrightarrow> pubkey_deserialize C (jsonb ord (pubkey_serialize C q)) = Inr q"
  "msat_deserialize (jsonb ord (msat_serialize m)) = Inr m"
  "wallet_deserialize C (jsonb ord (wallet_serialize C w)) = Inr w"
  "time_deserialize C (jsonb ord (time_serialize C t)) = Inr t"
  "bolt_deserialize (jsonb ord (bolt_serialize b)) = Inr b"
  using hex_crate.hash_roundtrip [OF hex] hex_crate.preimage_roundtrip [OF hex] hex_crate.pubkey_roundtrip [OF hex]
  by (simp_all add: hash_deserialize_def hash_serialize_def preimage_deserialize_def preimage_serialize_def
      pubkey_deserialize_def pubkey_serialize_def msat_deserialize_def msat_serialize_def get_unsigned_uint
      wallet_deserialize_def wallet_serialize_def uuid_roundtrip time_deserialize_def time_serialize_def time_roundtrip
      bolt_deserialize_def bolt_serialize_def get_string_def map_err_def ok_or_def)

lemma option_field_jsonb:
  assumes "distinct (map fst kvs)" "map_of kvs k = Some (case amount of None \<Rightarrow> JNull | Some a \<Rightarrow> msat_serialize a)"
  shows "json_option_field k msat_deserialize (jsonb ord (JObj kvs)) = Inr amount"
proof -
  have "map fst (map (\<lambda>x. (fst x, jsonb ord (snd x))) kvs) = map fst kvs" by simp
  with assms(1) have "distinct (map fst (map (\<lambda>x. (fst x, jsonb ord (snd x))) kvs))" by (simp only:)
  then show ?thesis
    using assms(2) primitives_roundtrip(4)
    by (simp add: json_option_field_def map_of_ord map_of_stored msat_serialize_def split: option.split)
qed

lemma hop_roundtrip: "wf_pubkey (hop_pub_key h) \<Longrightarrow> hop_deserialize C (jsonb ord (hop_serialize C h)) = Inr h"
  by (cases h) (simp add: hop_deserialize_def hop_serialize_def field_jsonb primitives_roundtrip get_unsigned_uint ok_or_def
      del: jsonb.simps(1))

lemma hops_roundtrip:
  "list_all (\<lambda>h. wf_pubkey (hop_pub_key h)) hops \<Longrightarrow>
   hops_deserialize C (jsonb ord (JArr (map (hop_serialize C) hops))) = Inr hops"
  by (induction hops) (simp_all add: hops_deserialize_def hop_roundtrip comp_def)

lemma reasons_roundtrip:
  "failure_reason_deserialize (jsonb ord (failure_reason_serialize r)) = Inr r"
  "cancel_reason_deserialize (jsonb ord (cancel_reason_serialize k)) = Inr k"
  by (cases r; simp add: failure_reason_deserialize_def field_jsonb get_string_def ok_or_def del: jsonb.simps(1))
    (cases k; simp add: cancel_reason_deserialize_def field_jsonb get_string_def ok_or_def del: jsonb.simps(1))

lemma payment_event_roundtrip:
  "wf_payment_event ev \<Longrightarrow> payment_event_deserialize C (jsonb ord (payment_event_serialize C ev)) = Inr ev"
  by (cases ev) (simp_all add: payment_event_deserialize_def field_jsonb primitives_roundtrip hops_roundtrip reasons_roundtrip
      get_string_def ok_or_def del: jsonb.simps(1,2))

lemma invoice_event_roundtrip:
  "wf_invoice_event ev \<Longrightarrow> invoice_event_deserialize C (jsonb ord (invoice_event_serialize C ev)) = Inr ev"
  by (cases ev) (simp_all add: invoice_event_deserialize_def field_jsonb option_field_jsonb primitives_roundtrip reasons_roundtrip
      get_string_def ok_or_def del: jsonb.simps(1))

text \<open>A whole log.\<close>

lemma payment_log_roundtrip:
  "list_all wf_payment_event evs \<Longrightarrow>
     collectR (map (\<lambda>ev. payment_event_deserialize C (jsonb ord (payment_event_serialize C ev))) evs) = Inr evs"
  by (induction evs) (simp_all add: payment_event_roundtrip)

lemma invoice_log_roundtrip:
  "list_all wf_invoice_event evs \<Longrightarrow>
     collectR (map (\<lambda>ev. invoice_event_deserialize C (jsonb ord (invoice_event_serialize C ev))) evs) = Inr evs"
  by (induction evs) (simp_all add: invoice_event_roundtrip)

end

section \<open>A reference column\<close>

text \<open>PostgreSQL keeps the shorter keys first, and keys of one length in byte order: the order of the keys read
  as numbers. Times and uuids are written in decimal here.\<close>

definition key_number :: "string \<Rightarrow> nat" where
  "key_number k = foldl (\<lambda>acc c. 256 * acc + of_char c) 0 k"

definition ref_order :: field_order where
  "ref_order kvs = sort_key (\<lambda>x. key_number (fst x)) kvs"

definition show_int :: "int \<Rightarrow> string" where
  "show_int n = (if n < 0 then CHR ''-'' # decimal (nat (- n)) else decimal (nat n))"

definition ref_codecs :: serde_codecs where
  "ref_codecs = \<lparr>sc_hex = ref_hex, sc_uuid_show = (\<lambda>u. decimal (unat u)),
     sc_uuid_parse = (\<lambda>s. map_option word_of_int (parse_signed s)), sc_time_show = (\<lambda>t. show_int (instant t)),
     sc_time_parse = (\<lambda>s. map_option Timestamp (parse_signed s))\<rparr>"

lemma parse_show_int: "parse_signed (show_int n) = Some n"
  using decimal_digits [of "nat (- n)"] foldl_decimal [of "nat (- n)"] parse_decimal [of "nat n"]
  by (simp add: show_int_def parse_digits_def)

interpretation ref_column: event_column ref_codecs ref_order
proof (rule event_column.intro)
  show "hex_crate (sc_hex ref_codecs)" by (simp add: ref_codecs_def ref_hex.hex_crate_axioms)
  show "sc_uuid_parse ref_codecs (sc_uuid_show ref_codecs u) = Some u" for u :: uuid
    by (simp add: ref_codecs_def parse_decimal)
  show "sc_time_parse ref_codecs (sc_time_show ref_codecs t) = Some t" for t
    by (simp add: ref_codecs_def parse_show_int)
  show "mset (ref_order kvs) = mset kvs" for kvs by (simp add: ref_order_def)
qed

section \<open>Properties\<close>

text \<open>C33. The event logs survive storage: written as JSON, kept in a column that may reorder the fields of
  every object, and read back, each payment and each invoice event is the same, for every log whose hashes,
  preimages and public keys have their length; what hydration folds is what the commands recorded.\<close>

theorem stored_events_roundtrip:
  assumes "event_column C ord" "list_all wf_payment_event pevs" "list_all wf_invoice_event ievs"
  shows "collectR (map (\<lambda>ev. payment_event_deserialize C (jsonb ord (payment_event_serialize C ev))) pevs) = Inr pevs \<and>
    collectR (map (\<lambda>ev. invoice_event_deserialize C (jsonb ord (invoice_event_serialize C ev))) ievs) = Inr ievs"
  using event_column.payment_log_roundtrip [OF assms(1,2)] event_column.invoice_log_roundtrip [OF assms(1,3)] ..

definition sample_stored :: "payment_event list" where
  "sample_stored =
     [EvInitiated (PaymentHash (replicate 32 7)) (WalletId 5) (MilliSatoshi 25000) (MilliSatoshi 10000) (BoltInvoice ''lnbc1'')
        ''02'' (Timestamp (- 4)),
      EvCompleted (Timestamp 4) (Preimage (replicate 32 9)) (MilliSatoshi 1000)
        [\<lparr>hop_pub_key = Pubkey (replicate 33 2), hop_channel_id = 12, hop_fee_msat = MilliSatoshi 1000,
          hop_amt_msat = MilliSatoshi 25000, hop_expiry = 40\<rparr>]]"

theorem stored_events_roundtrip_witness:
  "collectR (map (\<lambda>ev. payment_event_deserialize ref_codecs (jsonb ref_order (payment_event_serialize ref_codecs ev)))
     sample_stored) = Inr sample_stored"
proof -
  have "list_all wf_payment_event sample_stored"
    by (simp add: sample_stored_def wf_hash_def wf_preimage_def wf_pubkey_def)
  moreover have "list_all wf_invoice_event []" by simp
  ultimately show ?thesis
    using stored_events_roundtrip [OF ref_column.event_column_axioms] by blast
qed

end
