(* ===== verification/Graphql_Types.thy ===== *)
theory Graphql_Types
  imports Outbox_Listen App_World
begin

text \<open>
  The GraphQL surface's types (\<open>src/api/graphql/types.rs\<close>): the scalars with their parsers, the inputs
  and the payloads. The \<open>uuid\<close> crate and the display form of a hash error are parameters.
\<close>

section \<open>Values\<close>

datatype gnumber = PosInt u64 | NegInt i64 | Float

datatype gvalue =
    GNull
  | GNumber gnumber
  | GString string
  | GBoolean bool
  | GBinary "u8 list"
  | GEnum string
  | GList "gvalue list"
  | GObject "(string \<times> gvalue) list"

datatype input_value_error = CustomInput string | ExpectedType gvalue

fun number_as_u64 :: "gnumber \<Rightarrow> u64 option" where
  "number_as_u64 (PosInt n) = Some n"
| "number_as_u64 (NegInt n) = None"
| "number_as_u64 Float = None"

text \<open>\<open>str::parse\<close> for an unsigned type whose values are below \<open>bound\<close>.\<close>

datatype parse_int_error = ParseEmpty | InvalidDigit | PosOverflow

fun parse_int_error_str :: "parse_int_error \<Rightarrow> string" where
  "parse_int_error_str ParseEmpty = ''cannot parse integer from empty string''"
| "parse_int_error_str InvalidDigit = ''invalid digit found in string''"
| "parse_int_error_str PosOverflow = ''number too large to fit in target type''"

fun parse_uint_digits :: "int \<Rightarrow> int \<Rightarrow> string \<Rightarrow> parse_int_error + int" where
  "parse_uint_digits bound acc [] = Inr acc"
| "parse_uint_digits bound acc (c # cs) =
     (if \<not> is_digit c then Inl InvalidDigit
      else if bound \<le> 10 * acc + digit_value c then Inl PosOverflow
      else parse_uint_digits bound (10 * acc + digit_value c) cs)"

definition parse_uint :: "int \<Rightarrow> string \<Rightarrow> parse_int_error + int" where
  "parse_uint bound s =
     (case s of
        [] \<Rightarrow> Inl ParseEmpty
      | [c] \<Rightarrow> parse_uint_digits bound 0 [c]
      | c # cs \<Rightarrow> parse_uint_digits bound 0 (if c = CHR ''+'' then cs else c # cs))"

section \<open>Scalars\<close>

datatype sat_amount = SatAmount (sat_u64: u64)

definition sat_amount_parse :: "gvalue \<Rightarrow> input_value_error + sat_amount" where
  "sat_amount_parse value =
     (case value of
        GNumber n \<Rightarrow>
          bindR (ok_or (number_as_u64 n) (CustomInput ''SatAmount must be a non-negative integer'')) (\<lambda>v. Inr (SatAmount v))
      | GString s \<Rightarrow>
          bindR (map_err (\<lambda>e. CustomInput (''invalid SatAmount: '' @ parse_int_error_str e)) (parse_uint (2 ^ 64) s))
            (\<lambda>v. Inr (SatAmount (word_of_int v)))
      | other \<Rightarrow> Inl (ExpectedType other))"

definition sat_amount_to_value :: "sat_amount \<Rightarrow> gvalue" where
  "sat_amount_to_value a = GNumber (PosInt (sat_u64 a))"

text \<open>\<open>to_msat\<close> multiplies without a check.\<close>

definition sat_amount_to_msat :: "sat_amount \<Rightarrow> milli_satoshi" where
  "sat_amount_to_msat a = MilliSatoshi (sat_u64 a * 1000)"

datatype minutes = Minutes (minutes_u32: u32)

definition u32_try_from :: "u64 \<Rightarrow> u32 option" where
  "u32_try_from v = (if unat v < 2 ^ 32 then Some (ucast v) else None)"

definition minutes_parse :: "gvalue \<Rightarrow> input_value_error + minutes" where
  "minutes_parse value =
     (case value of
        GNumber n \<Rightarrow>
          bindR (ok_or (Option.bind (number_as_u64 n) u32_try_from) (CustomInput ''Minutes out of range''))
            (\<lambda>v. Inr (Minutes v))
      | GString s \<Rightarrow>
          bindR (map_err (\<lambda>e. CustomInput (''invalid Minutes: '' @ parse_int_error_str e)) (parse_uint (2 ^ 32) s))
            (\<lambda>v. Inr (Minutes (word_of_int v)))
      | other \<Rightarrow> Inl (ExpectedType other))"

definition minutes_to_value :: "minutes \<Rightarrow> gvalue" where
  "minutes_to_value m = GNumber (PosInt (ucast (minutes_u32 m)))"

text \<open>The scalars that wrap a string.\<close>

datatype tx_external_id = TxExternalId (tx_external_id_str: string)
datatype memo = Memo (memo_str: string)
datatype ln_payment_request = LnPaymentRequest (ln_request_str: string)
datatype ln_payment_secret = LnPaymentSecret (ln_secret_str: string)
datatype ln_payment_preimage = LnPaymentPreImage (ln_preimage_str: string)

definition string_parse :: "(string \<Rightarrow> 'a) \<Rightarrow> gvalue \<Rightarrow> input_value_error + 'a" where
  "string_parse wrap value = (case value of GString s \<Rightarrow> Inr (wrap s) | other \<Rightarrow> Inl (ExpectedType other))"

definition tx_external_id_parse :: "gvalue \<Rightarrow> input_value_error + tx_external_id" where
  "tx_external_id_parse = string_parse TxExternalId"

definition memo_parse :: "gvalue \<Rightarrow> input_value_error + memo" where
  "memo_parse = string_parse Memo"

definition ln_payment_request_parse :: "gvalue \<Rightarrow> input_value_error + ln_payment_request" where
  "ln_payment_request_parse = string_parse LnPaymentRequest"

definition ln_payment_secret_parse :: "gvalue \<Rightarrow> input_value_error + ln_payment_secret" where
  "ln_payment_secret_parse = string_parse LnPaymentSecret"

definition ln_payment_preimage_parse :: "gvalue \<Rightarrow> input_value_error + ln_payment_preimage" where
  "ln_payment_preimage_parse = string_parse LnPaymentPreImage"

definition request_of_bolt :: "bolt_invoice \<Rightarrow> ln_payment_request" where
  "request_of_bolt b = LnPaymentRequest (bolt_str b)"

text \<open>Wallet ids and payment hashes keep their domain types.\<close>

record uuid_codec =
  uc_parse :: "string \<Rightarrow> string + uuid"
  uc_show :: "uuid \<Rightarrow> string"

definition wallet_id_parse :: "uuid_codec \<Rightarrow> gvalue \<Rightarrow> input_value_error + wallet_id" where
  "wallet_id_parse U value =
     (case value of
        GString s \<Rightarrow>
          bindR (map_err (\<lambda>e. CustomInput (''invalid WalletId: '' @ e)) (uc_parse U s)) (\<lambda>u. Inr (WalletId u))
      | other \<Rightarrow> Inl (ExpectedType other))"

definition wallet_id_to_value :: "uuid_codec \<Rightarrow> wallet_id \<Rightarrow> gvalue" where
  "wallet_id_to_value U w = GString (uc_show U (wallet_uuid w))"

definition payment_hash_parse :: "hex_codec \<Rightarrow> (bytes_error \<Rightarrow> string) \<Rightarrow> gvalue \<Rightarrow> input_value_error + payment_hash" where
  "payment_hash_parse H show_err value =
     (case value of
        GString s \<Rightarrow> map_err (\<lambda>e. CustomInput (''invalid PaymentHash: '' @ show_err e)) (hash_from_str H s)
      | other \<Rightarrow> Inl (ExpectedType other))"

definition payment_hash_to_value :: "hex_codec \<Rightarrow> payment_hash \<Rightarrow> gvalue" where
  "payment_hash_to_value H h = GString (hash_to_hex H h)"

section \<open>Inputs and payloads\<close>

record ln_invoice_create_input =
  lic_amount :: sat_amount
  lic_expires_in :: "minutes option"
  lic_external_id :: "tx_external_id option"
  lic_memo :: "memo option"
  lic_wallet_id :: wallet_id

datatype graphql_error = GraphqlError (gql_message: string)

record ln_invoice =
  li_payment_hash :: payment_hash
  li_payment_request :: ln_payment_request
  li_payment_secret :: ln_payment_secret
  li_satoshis :: sat_amount

record ln_invoice_payload =
  lip_errors :: "graphql_error list"
  lip_invoice :: "ln_invoice option"

datatype payment_send_result = ResAlreadyPaid | ResFailure | ResPending | ResSuccess

record ln_invoice_payment_input =
  lpi_memo :: "memo option"
  lpi_payment_request :: ln_payment_request
  lpi_wallet_id :: wallet_id

record ln_invoice_fee_probe_input =
  lfi_payment_request :: ln_payment_request
  lfi_wallet_id :: wallet_id

datatype transaction = Transaction (tx_id: string)

record payment_send_payload =
  psp_errors :: "graphql_error list"
  psp_status :: "payment_send_result option"
  psp_transaction :: "transaction option"

record sat_amount_payload =
  sap_amount :: "sat_amount option"
  sap_errors :: "graphql_error list"

datatype invoice_payment_status = StExpired | StPaid | StPending

record status_payload =
  stp_errors :: "graphql_error list"
  stp_payment_hash :: "payment_hash option"
  stp_payment_preimage :: "ln_payment_preimage option"
  stp_payment_request :: "ln_payment_request option"
  stp_status :: "invoice_payment_status option"

section \<open>The contract of a scalar\<close>

text \<open>Every scalar parses what it prints; so it prints distinct values apart.\<close>

locale graphql_scalar =
  fixes parse :: "gvalue \<Rightarrow> input_value_error + 'a" and to_value :: "'a \<Rightarrow> gvalue" and wf :: "'a \<Rightarrow> bool"
  assumes parse_to_value: "wf x \<Longrightarrow> parse (to_value x) = Inr x"
begin

lemma to_value_inj: "wf x \<Longrightarrow> wf y \<Longrightarrow> to_value x = to_value y \<Longrightarrow> x = y"
  using parse_to_value by (metis sum.inject(2))

end

lemma minutes_word: "u32_try_from (ucast m) = Some m" for m :: u32
proof -
  have lt: "unat m < 2 ^ 32" using unsigned_less [of m] by simp
  moreover from this have up: "unat (ucast m :: u64) = unat m"
    by (simp add: unsigned_ucast_eq take_bit_nat_eq_self)
  moreover have "ucast (ucast m :: u64) = m"
    by (rule bit_word_eqI) (simp add: bit_simps)
  ultimately show ?thesis by (simp add: u32_try_from_def)
qed

interpretation sat_amount: graphql_scalar sat_amount_parse sat_amount_to_value "\<lambda>_. True"
  by unfold_locales (simp add: sat_amount_parse_def sat_amount_to_value_def)

interpretation minutes: graphql_scalar minutes_parse minutes_to_value "\<lambda>_. True"
  by unfold_locales (simp add: minutes_parse_def minutes_to_value_def minutes_word)

interpretation tx_external_id: graphql_scalar tx_external_id_parse "\<lambda>x. GString (tx_external_id_str x)" "\<lambda>_. True"
  by unfold_locales (simp add: tx_external_id_parse_def string_parse_def)

interpretation ln_request: graphql_scalar ln_payment_request_parse "\<lambda>x. GString (ln_request_str x)" "\<lambda>_. True"
  by unfold_locales (simp add: ln_payment_request_parse_def string_parse_def)

lemma payment_hash_scalar:
  assumes "hex_crate H"
  shows "graphql_scalar (payment_hash_parse H show_err) (payment_hash_to_value H) wf_hash"
  using hex_crate.hash_roundtrip [OF assms]
  by unfold_locales (simp add: payment_hash_parse_def payment_hash_to_value_def map_err_def)

lemma wallet_id_scalar:
  assumes "\<And>u. uc_parse U (uc_show U u) = Inr u"
  shows "graphql_scalar (wallet_id_parse U) (wallet_id_to_value U) (\<lambda>_. True)"
  by unfold_locales (simp add: wallet_id_parse_def wallet_id_to_value_def assms)

text \<open>A decimal string parses to its number exactly when the number fits.\<close>

lemma digit_value_nonneg: "is_digit c \<Longrightarrow> 0 \<le> digit_value c"
  by (simp add: is_digit_def digit_value_def) (metis of_nat_le_iff of_nat_numeral of_nat_of_char)

lemma foldl_digits_ge:
  "list_all is_digit cs \<Longrightarrow> 0 \<le> acc \<Longrightarrow> acc \<le> foldl (\<lambda>acc c. 10 * acc + digit_value c) acc cs"
proof (induction cs arbitrary: acc)
  case (Cons c cs)
  from Cons.IH [of "10 * acc + digit_value c"] Cons.prems digit_value_nonneg [of c] show ?case by simp
qed simp

lemma parse_uint_digits_value:
  "list_all is_digit cs \<Longrightarrow> 0 \<le> acc \<Longrightarrow> acc < bound \<Longrightarrow>
   parse_uint_digits bound acc cs =
     (if foldl (\<lambda>acc c. 10 * acc + digit_value c) acc cs < bound
      then Inr (foldl (\<lambda>acc c. 10 * acc + digit_value c) acc cs) else Inl PosOverflow)"
proof (induction cs arbitrary: acc)
  case (Cons c cs)
  have c: "0 \<le> 10 * acc + digit_value c" using Cons.prems digit_value_nonneg [of c] by simp
  show ?case
    using Cons.IH [OF _ c] foldl_digits_ge [OF _ c, of cs] Cons.prems by auto
qed simp

lemma parse_uint_decimal:
  assumes "0 < bound"
  shows "parse_uint bound (decimal n) = (if int n < bound then Inr (int n) else Inl PosOverflow)"
proof -
  have ds: "list_all is_digit (decimal n)" "decimal n \<noteq> []" using decimal_digits [of n] by simp_all
  then have "parse_uint bound (decimal n) = parse_uint_digits bound 0 (decimal n)"
    by (auto simp: parse_uint_def is_digit_def split: list.split)
  with parse_uint_digits_value [OF ds(1), of 0 bound] assms show ?thesis
    by (simp add: foldl_decimal)
qed

section \<open>Properties\<close>


text \<open>A codec for ids: the decimal form.\<close>

definition sample_uuid :: uuid_codec where
  "sample_uuid = \<lparr>uc_parse = (\<lambda>s. case parse_signed s of Some v \<Rightarrow> Inr (word_of_int v) | None \<Rightarrow> Inl ''invalid''),
     uc_show = (\<lambda>u. decimal (unat u))\<rparr>"


end
