(* ===== verification/Wallet.thy ===== *)
theory Wallet
  imports App_World "HOL-Library.Mapping"
begin

text \<open>
  Wallet ownership (\<open>src/wallet/ownership.rs\<close>): the caller's identity, the membership query against the
  router and the checker with its cache. The HTTP client, the header syntax check and the display forms of
  library types are parameters; an instant is a number of nanoseconds of the monotonic clock.
\<close>

section \<open>The caller\<close>

definition caller_auth_default :: caller_auth where
  "caller_auth_default = CallerAuth [] []"

definition is_authenticated :: "caller_auth \<Rightarrow> bool" where
  "is_authenticated c \<longleftrightarrow> ca_jwt c \<noteq> [] \<and> ca_sub c \<noteq> []"

section \<open>Configuration and errors\<close>

record ownership_config =
  oc_router_endpoint :: string
  oc_cache_secs :: u64

definition default_cache_secs :: u64 where
  "default_cache_secs = 60"

definition ownership_config_default :: ownership_config where
  "ownership_config_default = \<lparr>oc_router_endpoint = [], oc_cache_secs = default_cache_secs\<rparr>"

definition CACHE_PRUNE_THRESHOLD :: nat where
  "CACHE_PRUNE_THRESHOLD = 10000"

datatype ownership_error =
    NotOwned wallet_id
  | Unauthenticated
  | Unreachable string
  | QueryError string

fun ownership_error_str :: "(wallet_id \<Rightarrow> string) \<Rightarrow> ownership_error \<Rightarrow> string" where
  "ownership_error_str show_wallet (NotOwned w) = ''wallet '' @ show_wallet w @ '' is not owned by the caller''"
| "ownership_error_str show_wallet Unauthenticated = ''caller is not authenticated''"
| "ownership_error_str show_wallet (Unreachable e) = ''wallet-ownership router unreachable: '' @ e"
| "ownership_error_str show_wallet (QueryError e) = ''wallet-ownership query returned an error: '' @ e"

section \<open>The membership answer\<close>

record graphql_err =
  ge_message :: string

record wallet_ref =
  wr_id :: string

record default_account =
  da_wallets :: "wallet_ref list"

record me =
  me_default_account :: "default_account option"

record me_data =
  md_me :: "me option"

record envelope =
  en_data :: "me_data option"
  en_errors :: "graphql_err list option"

text \<open>The outcome of the POST: it could not be sent, or a status with a body that decodes or does not.\<close>

datatype http_result = SendError string | HttpResponse nat "string + envelope"

datatype checker_mode = Real (cm_endpoint: string) | OwnershipBootStub

type_synonym instant = nat

type_synonym ownership_cache = "(string, string set \<times> instant) mapping"

record checker =
  ck_mode :: checker_mode
  ck_ttl :: nat
  ck_cache :: ownership_cache

record router_params =
  rp_post :: "string \<Rightarrow> string \<Rightarrow> http_result"
  rp_header_ok :: "string \<Rightarrow> bool"
  rp_show_status :: "nat \<Rightarrow> string"
  rp_show_wallet :: "wallet_id \<Rightarrow> string"

section \<open>Construction\<close>

definition duration_from_secs :: "u64 \<Rightarrow> nat" where
  "duration_from_secs secs = unat secs * 1000000000"

definition ownership_boot_stub :: "nat \<Rightarrow> checker" where
  "ownership_boot_stub ttl = \<lparr>ck_mode = OwnershipBootStub, ck_ttl = ttl, ck_cache = Mapping.empty\<rparr>"

text \<open>The flag says whether the HTTP client could be built.\<close>

definition ownership_checker_new :: "bool \<Rightarrow> ownership_config \<Rightarrow> checker" where
  "ownership_checker_new client_built config =
     (let ttl = duration_from_secs (oc_cache_secs config) in
      if dropWhile is_space (oc_router_endpoint config) = [] then ownership_boot_stub ttl
      else if \<not> client_built then ownership_boot_stub ttl
      else \<lparr>ck_mode = Real (oc_router_endpoint config), ck_ttl = ttl, ck_cache = Mapping.empty\<rparr>)"

section \<open>Cache\<close>

definition elapsed :: "instant \<Rightarrow> instant \<Rightarrow> nat" where
  "elapsed now since = now - since"

definition cached :: "instant \<Rightarrow> string \<Rightarrow> checker \<Rightarrow> string set option" where
  "cached now sub ck =
     (case Mapping.lookup (ck_cache ck) sub of
        None \<Rightarrow> None
      | Some (owned, since) \<Rightarrow> if elapsed now since < ck_ttl ck then Some owned else None)"

definition store :: "instant \<Rightarrow> string \<Rightarrow> string set \<Rightarrow> checker \<Rightarrow> checker" where
  "store now sub owned ck =
     (let kept = (if CACHE_PRUNE_THRESHOLD \<le> Mapping.size (ck_cache ck)
                  then Mapping.filter (\<lambda>_ (_, since). elapsed now since < ck_ttl ck) (ck_cache ck)
                  else ck_cache ck) in
      ck\<lparr>ck_cache := Mapping.update sub (owned, now) kept\<rparr>)"

section \<open>The query and the check\<close>

definition is_success :: "nat \<Rightarrow> bool" where
  "is_success status \<longleftrightarrow> 200 \<le> status \<and> status < 300"

definition membership :: "envelope \<Rightarrow> ownership_error + string set" where
  "membership en =
     (case en_errors en of
        Some (e # _) \<Rightarrow> Inl (QueryError (ge_message e))
      | _ \<Rightarrow>
          bindR (ok_or (Option.bind (Option.bind (en_data en) md_me) me_default_account)
                   (QueryError ''me.defaultAccount missing'')) (\<lambda>a.
          Inr (set (map wr_id (da_wallets a)))))"

definition fetch_owned_wallets :: "router_params \<Rightarrow> caller_auth \<Rightarrow> checker \<Rightarrow> ownership_error + string set" where
  "fetch_owned_wallets P caller ck =
     (case ck_mode ck of
        OwnershipBootStub \<Rightarrow> Inl (Unreachable ''wallet-ownership checker not configured (boot stub)'')
      | Real endpoint \<Rightarrow>
          let bearer = ''Bearer '' @ ca_jwt caller in
          if \<not> rp_header_ok P bearer then Inl (QueryError ''invalid bearer token'')
          else case rp_post P endpoint bearer of
            SendError e \<Rightarrow> Inl (Unreachable e)
          | HttpResponse status body \<Rightarrow>
              if \<not> is_success status then Inl (QueryError (''router returned HTTP '' @ rp_show_status P status))
              else bindR (map_err (\<lambda>e. QueryError (''decode: '' @ e)) body) membership)"

text \<open>\<open>check\<close> reads the clock at the lookup and again when it stores the fetched set.\<close>

definition membership_verdict :: "router_params \<Rightarrow> wallet_id \<Rightarrow> string set \<Rightarrow> ownership_error + unit" where
  "membership_verdict P wallet owned = (if rp_show_wallet P wallet \<in> owned then Inr () else Inl (NotOwned wallet))"

definition ownership_check ::
  "router_params \<Rightarrow> instant \<Rightarrow> instant \<Rightarrow> caller_auth \<Rightarrow> wallet_id \<Rightarrow> (checker, ownership_error, unit) cmd" where
  "ownership_check P looked_up stored caller wallet ck =
     (if \<not> is_authenticated caller then (Inl Unauthenticated, ck)
      else case cached looked_up (ca_sub caller) ck of
        Some owned \<Rightarrow> (membership_verdict P wallet owned, ck)
      | None \<Rightarrow>
          (case fetch_owned_wallets P caller ck of
             Inl e \<Rightarrow> (Inl e, ck)
           | Inr owned \<Rightarrow> (membership_verdict P wallet owned, store stored (ca_sub caller) owned ck)))"

section \<open>The cache\<close>

text \<open>The stores so far, as (subject, set, time); concurrent checks interleave theirs in any order.\<close>

type_synonym cache_ops = "(string \<times> string set \<times> instant) list"

definition cache_after :: "cache_ops \<Rightarrow> checker \<Rightarrow> checker" where
  "cache_after ops ck = fold (\<lambda>(sub, owned, t). store t sub owned) ops ck"

text \<open>What the cache means: the last set stored for the subject, while it is younger than the TTL.\<close>

definition last_fresh :: "nat \<Rightarrow> cache_ops \<Rightarrow> string \<Rightarrow> instant \<Rightarrow> string set option" where
  "last_fresh ttl ops sub now =
     (case find (\<lambda>(s, _, _). s = sub) (rev ops) of
        None \<Rightarrow> None
      | Some (_, owned, since) \<Rightarrow> if elapsed now since < ttl then Some owned else None)"

lemma store_ttl [simp]: "ck_ttl (store t sub owned ck) = ck_ttl ck" "ck_mode (store t sub owned ck) = ck_mode ck"
  by (simp_all add: store_def Let_def)

lemma cached_store:
  assumes "now \<le> t"
  shows "cached t s (store now sub owned ck) =
    (if s = sub then (if elapsed t now < ck_ttl ck then Some owned else None) else cached t s ck)"
  using assms
  by (auto simp: cached_def store_def Let_def lookup_update' lookup_filter elapsed_def split: option.split)

lemma cache_after_fields [simp]:
  "ck_ttl (cache_after ops ck) = ck_ttl ck" "ck_mode (cache_after ops ck) = ck_mode ck"
  by (induction ops arbitrary: ck) (auto simp: cache_after_def)

lemma cached_after:
  assumes "\<forall>(_, _, t) \<in> set ops. t \<le> now" and "ck_cache ck = Mapping.empty"
  shows "cached now sub (cache_after ops ck) = last_fresh (ck_ttl ck) ops sub now"
  using assms(1)
proof (induction ops rule: rev_induct)
  case Nil
  show ?case using assms(2) by (simp add: cache_after_def cached_def last_fresh_def)
next
  case (snoc op ops)
  obtain s owned t where op: "op = (s, owned, t)" by (cases op)
  have "cache_after (ops @ [op]) ck = store t s owned (cache_after ops ck)" by (simp add: cache_after_def op)
  with snoc op show ?case by (simp add: cached_store last_fresh_def)
qed

text \<open>A router that owns one wallet for everybody.\<close>

definition sample_router :: router_params where
  "sample_router = \<lparr>rp_post = (\<lambda>_ _. HttpResponse 200 (Inr \<lparr>en_data = Some \<lparr>md_me = Some
       \<lparr>me_default_account = Some \<lparr>da_wallets = [\<lparr>wr_id = ''w5''\<rparr>]\<rparr>\<rparr>\<rparr>, en_errors = None\<rparr>)),
     rp_header_ok = (\<lambda>_. True), rp_show_status = (\<lambda>_. ''status''), rp_show_wallet = (\<lambda>w. if w = WalletId 5 then ''w5'' else ''other'')\<rparr>"

section \<open>Properties\<close>

text \<open>C22. The ownership check against its specification: whatever sets concurrent checks have stored
  before, in any order, a check succeeds exactly when the caller carries a token and a subject and
  the wallet is in the last set stored for that subject within the TTL or, when there is none, in the set
  the router returns now. Pruning the cache is invisible.\<close>

theorem ownership_check_spec:
  assumes "\<forall>(_, _, t) \<in> set ops. t \<le> now"
    and "ck = cache_after ops (ownership_checker_new built config)"
  shows "fst (ownership_check P now stored caller wallet ck) = Inr () \<longleftrightarrow>
    is_authenticated caller \<and>
    (case last_fresh (duration_from_secs (oc_cache_secs config)) ops (ca_sub caller) now of
       Some owned \<Rightarrow> rp_show_wallet P wallet \<in> owned
     | None \<Rightarrow> (\<exists>owned. fetch_owned_wallets P caller ck = Inr owned \<and> rp_show_wallet P wallet \<in> owned))"
proof -
  let ?new = "ownership_checker_new built config"
  have "ck_cache ?new = Mapping.empty" "ck_ttl ?new = duration_from_secs (oc_cache_secs config)"
    by (simp_all add: ownership_checker_new_def ownership_boot_stub_def Let_def)
  with cached_after [OF assms(1), of ?new "ca_sub caller"] assms(2)
  have "cached now (ca_sub caller) ck = last_fresh (duration_from_secs (oc_cache_secs config)) ops (ca_sub caller) now"
    by simp
  then show ?thesis
    by (auto simp: ownership_check_def membership_verdict_def split: option.split sum.split)
qed

theorem ownership_check_spec_witness:
  "fst (ownership_check sample_router 7 8 (CallerAuth ''token'' ''user'') (WalletId 5)
     (cache_after [(''other'', {}, 3), (''user'', {''w5''}, 5)]
        (ownership_checker_new True \<lparr>oc_router_endpoint = ''http://router'', oc_cache_secs = 60\<rparr>))) = Inr ()"
proof -
  let ?ops = "[(''other'', {}, 3), (''user'', {''w5''}, 5)] :: cache_ops"
  let ?config = "\<lparr>oc_router_endpoint = ''http://router'', oc_cache_secs = 60\<rparr>"
  have "\<forall>(_, _, t) \<in> set ?ops. t \<le> 7" by simp
  from ownership_check_spec [OF this refl, of sample_router 8 "CallerAuth ''token'' ''user''" "WalletId 5" True ?config]
  show ?thesis
    by (simp add: is_authenticated_def last_fresh_def elapsed_def duration_from_secs_def sample_router_def)
qed

text \<open>The membership query fails closed: it yields a set only for a configured router that was reached
  with a valid header, answered with a success status and a decodable body without errors, and
  named a default account; the set is then exactly that account's wallets.\<close>

lemma membership_fail_closed:
  "fetch_owned_wallets P caller ck = Inr owned \<longleftrightarrow>
    (\<exists>endpoint status en d m a. ck_mode ck = Real endpoint \<and> rp_header_ok P (''Bearer '' @ ca_jwt caller) \<and>
       rp_post P endpoint (''Bearer '' @ ca_jwt caller) = HttpResponse status (Inr en) \<and>
       200 \<le> status \<and> status < 300 \<and> (en_errors en = None \<or> en_errors en = Some []) \<and>
       en_data en = Some d \<and> md_me d = Some m \<and> me_default_account m = Some a \<and>
       owned = wr_id ` set (da_wallets a))"
proof -
  have mem: "membership en = Inr owned \<longleftrightarrow>
      (en_errors en = None \<or> en_errors en = Some []) \<and>
      (\<exists>d m a. en_data en = Some d \<and> md_me d = Some m \<and> me_default_account m = Some a \<and>
         owned = wr_id ` set (da_wallets a))" for en
    by (auto simp: membership_def bindR_Inr_iff ok_or_def bind_eq_Some_conv split: option.split list.split)
  show ?thesis
    by (cases "ck_mode ck")
      (auto simp: fetch_owned_wallets_def Let_def is_success_def bindR_Inr_iff mem split: http_result.split)
qed

end
