(* ===== verification/Auth.thy ===== *)
theory Auth
  imports Wallet
begin

text \<open>
  Authentication of a GraphQL request: the JWKS cache and token validation of \<open>src/server/jwks.rs\<close> and
  the request handler of \<open>src/server/graphql.rs\<close>. The \<open>jsonwebtoken\<close> crate (header parsing, signature and
  expiry validation, key construction) is a record of functions; the answers of the JWKS endpoint are an
  argument, one per attempt.
\<close>

section \<open>Keys (jwks.rs)\<close>

definition REFRESH_INTERVAL :: nat where
  "REFRESH_INTERVAL = 1800"

definition FETCH_RETRY_COUNT :: nat where
  "FETCH_RETRY_COUNT = 10"

definition FETCH_RETRY_BACKOFF :: nat where
  "FETCH_RETRY_BACKOFF = 2"

record jwt_claims =
  jc_sub :: string

datatype jwks_error = JwtInvalid string | FetchFailed string | NoKeyAvailable

record jwk =
  jwk_kid :: "string option"
  jwk_n :: string
  jwk_e :: string

type_synonym 'k keys_cache = "(string option \<times> 'k) list"

record 'k jwt_crate =
  jl_from_rsa :: "string \<Rightarrow> string \<Rightarrow> 'k option"
  jl_decode_header :: "string \<Rightarrow> string + string option"
  jl_decode :: "string \<Rightarrow> 'k \<Rightarrow> string + jwt_claims"

text \<open>A GET of the JWKS: a transport error, or a response whose body decodes or does not.\<close>

datatype jwks_get = GetError string | GetResponse "string + jwk list"

definition decoding_keys :: "'k jwt_crate \<Rightarrow> jwk list \<Rightarrow> 'k keys_cache" where
  "decoding_keys J jwks =
     List.map_filter (\<lambda>k. map_option (\<lambda>key. (jwk_kid k, key)) (jl_from_rsa J (jwk_n k) (jwk_e k))) jwks"

text \<open>The retry loop over the attempts that are left; the second component is the time slept, in seconds.\<close>

fun fetch_attempts ::
  "'k jwt_crate \<Rightarrow> (nat \<Rightarrow> jwks_get) \<Rightarrow> string option \<Rightarrow> nat \<Rightarrow> nat list \<Rightarrow> (jwks_error + 'k keys_cache) \<times> nat" where
  "fetch_attempts J get last_error slept [] =
     (Inl (FetchFailed (unwrap_or last_error ''jwks fetch retries exhausted'')), slept)"
| "fetch_attempts J get last_error slept (attempt # attempts) =
     (case get attempt of
        GetResponse body \<Rightarrow>
          (bindR (map_err FetchFailed body) (\<lambda>jwks. Inr (decoding_keys J jwks)), slept)
      | GetError e \<Rightarrow>
          fetch_attempts J get (Some e)
            (if attempt < FETCH_RETRY_COUNT then slept + FETCH_RETRY_BACKOFF else slept) attempts)"

definition fetch_jwks :: "'k jwt_crate \<Rightarrow> (nat \<Rightarrow> jwks_get) \<Rightarrow> (jwks_error + 'k keys_cache) \<times> nat" where
  "fetch_jwks J get = fetch_attempts J get None 0 [1..<Suc FETCH_RETRY_COUNT]"

definition refresh_keys :: "'k jwt_crate \<Rightarrow> (nat \<Rightarrow> jwks_get) \<Rightarrow> ('k keys_cache, jwks_error, unit) cmd" where
  "refresh_keys J get cache =
     (case fst (fetch_jwks J get) of
        Inl e \<Rightarrow> (Inl e, cache)
      | Inr keys \<Rightarrow> (Inr (), keys))"

text \<open>The background loop, over the answers its iterations meet; a failed refresh is logged.\<close>

fun refresh_keys_periodically :: "'k jwt_crate \<Rightarrow> (nat \<Rightarrow> jwks_get) list \<Rightarrow> 'k keys_cache \<Rightarrow> 'k keys_cache" where
  "refresh_keys_periodically J [] cache = cache"
| "refresh_keys_periodically J (get # gets) cache =
     refresh_keys_periodically J gets (snd (refresh_keys J get cache))"

fun decode_with_any :: "'k jwt_crate \<Rightarrow> string \<Rightarrow> jwks_error \<Rightarrow> 'k keys_cache \<Rightarrow> jwks_error + jwt_claims" where
  "decode_with_any J token last_err [] = Inl last_err"
| "decode_with_any J token last_err ((_, key) # keys) =
     (case jl_decode J token key of
        Inr claims \<Rightarrow> Inr claims
      | Inl e \<Rightarrow> decode_with_any J token (JwtInvalid e) keys)"

definition jwks_decode :: "'k jwt_crate \<Rightarrow> 'k keys_cache \<Rightarrow> string \<Rightarrow> jwks_error + jwt_claims" where
  "jwks_decode J keys token =
     bindR (map_err JwtInvalid (jl_decode_header J token)) (\<lambda>kid.
     case Option.bind kid (\<lambda>target. find (\<lambda>(kid, _). kid = Some target) keys) of
       Some (_, key) \<Rightarrow> map_err JwtInvalid (jl_decode J token key)
     | None \<Rightarrow> decode_with_any J token NoKeyAvailable keys)"

section \<open>The request handler (graphql.rs)\<close>

text \<open>The value of the \<open>Authorization\<close> header: text, or bytes that are no text.\<close>

datatype header_value = HeaderText string | HeaderOpaque

definition strip_prefix :: "string \<Rightarrow> string \<Rightarrow> string option" where
  "strip_prefix pre s = (if take (length pre) s = pre then Some (drop (length pre) s) else None)"

definition bearer_token :: "header_value option \<Rightarrow> string option" where
  "bearer_token authorization =
     (case authorization of
        Some (HeaderText v) \<Rightarrow> strip_prefix ''Bearer '' v
      | _ \<Rightarrow> None)"

text \<open>What the handler puts into the request's data before it executes the schema.\<close>

definition graphql_handler_auth :: "'k jwt_crate \<Rightarrow> 'k keys_cache \<Rightarrow> header_value option \<Rightarrow> caller_auth option" where
  "graphql_handler_auth J keys authorization =
     (case bearer_token authorization of
        None \<Rightarrow> None
      | Some token \<Rightarrow>
          (case jwks_decode J keys token of
             Inr claims \<Rightarrow> Some (CallerAuth token (jc_sub claims))
           | Inl _ \<Rightarrow> None))"

section \<open>Facts\<close>

lemma decode_with_any_Inr:
  "decode_with_any J token e keys = Inr claims \<Longrightarrow> \<exists>key \<in> snd ` set keys. jl_decode J token key = Inr claims"
  by (induction J token e keys rule: decode_with_any.induct) (auto split: sum.splits)

lemma jwks_decode_Inr:
  assumes "jwks_decode J keys token = Inr claims"
  shows "\<exists>key \<in> snd ` set keys. jl_decode J token key = Inr claims"
proof -
  from assms obtain kid where
    kid: "(case Option.bind kid (\<lambda>target. find (\<lambda>(kid, _). kid = Some target) keys) of
       Some (_, key) \<Rightarrow> map_err JwtInvalid (jl_decode J token key)
     | None \<Rightarrow> decode_with_any J token NoKeyAvailable keys) = Inr claims"
    by (auto simp: jwks_decode_def bindR_Inr_iff)
  show ?thesis
  proof (cases "Option.bind kid (\<lambda>target. find (\<lambda>(kid, _). kid = Some target) keys)")
    case None
    with kid decode_with_any_Inr [of J token NoKeyAvailable keys claims] show ?thesis by simp
  next
    case (Some p)
    then have "p \<in> set keys" by (auto simp: bind_eq_Some_conv find_Some_iff) (metis nth_mem)
    with Some kid show ?thesis by (force split: prod.splits)
  qed
qed

lemma strip_prefix_Some: "strip_prefix pre s = Some r \<longleftrightarrow> s = pre @ r"
  by (auto simp: strip_prefix_def) (metis append_take_drop_id)

text \<open>The attempts are tried in order until the first response.\<close>

fun get_error :: "jwks_get \<Rightarrow> string" where
  "get_error (GetError e) = e"
| "get_error (GetResponse _) = []"

lemma fetch_attempts_errors:
  "\<forall>a \<in> set as. \<exists>e. get a = GetError e \<Longrightarrow>
   fetch_attempts J get last_error slept (as @ bs) =
     fetch_attempts J get (if as = [] then last_error else Some (get_error (get (last as))))
       (slept + FETCH_RETRY_BACKOFF * length (filter (\<lambda>a. a < FETCH_RETRY_COUNT) as)) bs"
  by (induction as arbitrary: last_error slept) (auto simp: add.assoc)

lemma fetch_all_failed:
  assumes "\<forall>a \<in> {1..FETCH_RETRY_COUNT}. \<exists>e. get a = GetError e"
  shows "\<exists>e. get FETCH_RETRY_COUNT = GetError e \<and> fetch_jwks J get = (Inl (FetchFailed e), 18)"
proof -
  let ?as = "[1..<Suc FETCH_RETRY_COUNT]"
  have as: "\<forall>a \<in> set ?as. \<exists>e. get a = GetError e" using assms by auto
  obtain e where e: "get FETCH_RETRY_COUNT = GetError e"
    using assms by (force simp: FETCH_RETRY_COUNT_def)
  have "last ?as = FETCH_RETRY_COUNT" "?as \<noteq> []" "length (filter (\<lambda>a. a < FETCH_RETRY_COUNT) ?as) = 9"
    by code_simp+
  with e fetch_attempts_errors [OF as, of J None 0 "[]"] show ?thesis
    by (simp add: fetch_jwks_def FETCH_RETRY_BACKOFF_def)
qed

lemma fetch_first_response:
  assumes "1 \<le> k" "k \<le> FETCH_RETRY_COUNT" "\<forall>a \<in> {1..<k}. \<exists>e. get a = GetError e" "get k = GetResponse body"
  shows "fetch_jwks J get = (bindR (map_err FetchFailed body) (\<lambda>jwks. Inr (decoding_keys J jwks)), 2 * (k - 1))"
proof -
  have "[1..<Suc FETCH_RETRY_COUNT] = [1..<k] @ k # [Suc k..<Suc FETCH_RETRY_COUNT]"
    using assms(1,2) upt_add_eq_append [of 1 k "Suc FETCH_RETRY_COUNT - k"] by (simp add: upt_conv_Cons)
  moreover have "filter (\<lambda>a. a < FETCH_RETRY_COUNT) [1..<k] = [1..<k]"
    using assms(2) by (auto simp: filter_id_conv)
  moreover have "\<forall>a \<in> set [1..<k]. \<exists>e. get a = GetError e" using assms(3) by auto
  ultimately show ?thesis
    using fetch_attempts_errors [of "[1..<k]" get J None 0 "k # [Suc k..<Suc FETCH_RETRY_COUNT]"] assms(4)
    by (simp add: fetch_jwks_def FETCH_RETRY_BACKOFF_def)
qed

text \<open>A library whose keys are numbers: key 2 verifies the token \<open>tok2\<close>, which names no key.\<close>

definition sample_jwt :: "nat jwt_crate" where
  "sample_jwt = \<lparr>jl_from_rsa = (\<lambda>n _. Some (length n)), jl_decode_header = (\<lambda>_. Inr None),
     jl_decode = (\<lambda>token key. if token = ''tok2'' \<and> key = 2 then Inr \<lparr>jc_sub = ''user''\<rparr> else Inl ''InvalidSignature'')\<rparr>"

section \<open>Properties\<close>

text \<open>C23. A request runs with an identity exactly as validated: the handler injects a caller only when the
  \<open>Authorization\<close> header is \<open>Bearer\<close> and a token, and one of the cached keys verified that very token; the
  subject is then the one of its claims. Without keys no request has an identity.\<close>

theorem injected_caller_is_validated:
  assumes "graphql_handler_auth J keys authorization = Some caller"
  shows "authorization = Some (HeaderText (''Bearer '' @ ca_jwt caller)) \<and>
    (\<exists>kid key claims. (kid, key) \<in> set keys \<and> jl_decode J (ca_jwt caller) key = Inr claims \<and>
       ca_sub caller = jc_sub claims)"
proof -
  from assms obtain token claims where t: "bearer_token authorization = Some token"
    "jwks_decode J keys token = Inr claims" "caller = CallerAuth token (jc_sub claims)"
    by (auto simp: graphql_handler_auth_def split: option.splits sum.splits)
  have "authorization = Some (HeaderText (''Bearer '' @ token))"
    using t(1) by (auto simp: bearer_token_def strip_prefix_Some split: option.splits header_value.splits)
  with t jwks_decode_Inr [OF t(2)] show ?thesis by force
qed

theorem injected_caller_is_validated_witness:
  "graphql_handler_auth sample_jwt [(Some ''k1'', 1), (None, 2)] (Some (HeaderText ''Bearer tok2'')) =
     Some (CallerAuth ''tok2'' ''user'') \<and>
   (\<exists>kid key claims. (kid, key) \<in> set [(Some ''k1'', 1), (None, 2)] \<and>
     jl_decode sample_jwt ''tok2'' key = Inr claims \<and> ''user'' = jc_sub claims)"
proof -
  have a: "graphql_handler_auth sample_jwt [(Some ''k1'', 1), (None, 2)] (Some (HeaderText ''Bearer tok2'')) =
     Some (CallerAuth ''tok2'' ''user'')"
    by code_simp
  from injected_caller_is_validated [OF a] a show ?thesis by simp
qed


end
