(* ===== verification/Graphql_Mutation.thy ===== *)
theory Graphql_Mutation
  imports Graphql_Types Auth App_Invoices App_Payments
begin

text \<open>
  The mutations of \<open>src/api/graphql/mutation.rs\<close>, over the use cases they call. A resolver runs in the
  world of the application coordinator; its result is a payload, a GraphQL error (no coordinator
  configured) or a panic. The display form of an error is a parameter.
\<close>

section \<open>Resolvers\<close>

datatype gql_failure = GqlError string | GqlPanic string

text \<open>\<open>ctx.data_opt::<CallerAuth>().cloned().unwrap_or_default()\<close>.\<close>

definition ctx_caller_auth :: "caller_auth option \<Rightarrow> caller_auth" where
  "ctx_caller_auth data = unwrap_or data caller_auth_default"

definition ctx_app :: "'env option \<Rightarrow> ('w, gql_failure, 'env) cmd" where
  "ctx_app app = liftC (ok_or app (GqlError ''App coordinator not configured''))"

definition saturating_mul_u32 :: "u32 \<Rightarrow> u32 \<Rightarrow> u32" where
  "saturating_mul_u32 a b = (if 2 ^ 32 \<le> uint a * uint b then 2 ^ 32 - 1 else a * b)"

definition create_request :: "caller_auth option \<Rightarrow> ln_invoice_create_input \<Rightarrow> new_invoice_request" where
  "create_request auth input =
     (let expiry_minutes = unwrap_or (map_option minutes_u32 (lic_expires_in input)) 1440;
          expiry_seconds = saturating_mul_u32 expiry_minutes 60 in
      \<lparr>nir_caller_auth = ctx_caller_auth auth, nir_wallet_id = lic_wallet_id input,
       nir_amount_msat = sat_amount_to_msat (lic_amount input), nir_expiry_seconds = expiry_seconds,
       nir_memo = map_option memo_str (lic_memo input),
       nir_external_id = map_option tx_external_id_str (lic_external_id input)\<rparr>)"

text \<open>A panic of the use case is a panic of the resolver.\<close>

definition on_app_error :: "(app_error \<Rightarrow> 'p) \<Rightarrow> app_error \<Rightarrow> ('w, gql_failure, 'p) cmd" where
  "on_app_error payload e = (case e of AppPanic msg \<Rightarrow> throwC (GqlPanic msg) | _ \<Rightarrow> retC (payload e))"

definition ln_invoice_create ::
  "(app_error \<Rightarrow> string) \<Rightarrow> ('ie, 'pe, 's) env option \<Rightarrow> caller_auth option \<Rightarrow> ln_invoice_create_input \<Rightarrow>
   ('s world, gql_failure, ln_invoice_payload) cmd" where
  "ln_invoice_create show_err app auth input =
     bindC (ctx_app app) (\<lambda>env.
     matchC (create_invoice env (create_request auth input))
       (on_app_error (\<lambda>e. \<lparr>lip_errors = [GraphqlError (show_err e)], lip_invoice = None\<rparr>))
       (\<lambda>invoice.
         case inv_amount_msat invoice of
           None \<Rightarrow> throwC (GqlPanic ''lnInvoiceCreate always supplies Some(amount_msat)'')
         | Some amount \<Rightarrow>
             retC \<lparr>lip_errors = [], lip_invoice = Some
               \<lparr>li_payment_hash = inv_payment_hash invoice,
                li_payment_request = LnPaymentRequest (bolt_str (inv_bolt_invoice invoice)),
                li_payment_secret = LnPaymentSecret [],
                li_satoshis = SatAmount (as_u64 amount div 1000)\<rparr>\<rparr>))"

definition pay_request_of :: "caller_auth option \<Rightarrow> ln_invoice_payment_input \<Rightarrow> pay_request" where
  "pay_request_of auth input =
     \<lparr>pq_caller_auth = ctx_caller_auth auth, pq_wallet_id = lpi_wallet_id input,
      pq_payment_request = ln_request_str (lpi_payment_request input), pq_memo = map_option memo_str (lpi_memo input)\<rparr>"

fun send_result :: "payment_state \<Rightarrow> payment_send_result" where
  "send_result Pending = ResPending"
| "send_result Initiated = ResPending"
| "send_result Completed = ResSuccess"
| "send_result Failed = ResFailure"
| "send_result Reversed = ResFailure"

definition send_error_payload :: "(app_error \<Rightarrow> string) \<Rightarrow> app_error \<Rightarrow> payment_send_payload" where
  "send_error_payload show_err e =
     (case e of
        AppPayment (AlreadyPaid _) \<Rightarrow> \<lparr>psp_errors = [], psp_status = Some ResAlreadyPaid, psp_transaction = None\<rparr>
      | _ \<Rightarrow> \<lparr>psp_errors = [GraphqlError (show_err e)], psp_status = Some ResFailure, psp_transaction = None\<rparr>)"

definition ln_invoice_payment_send ::
  "(app_error \<Rightarrow> string) \<Rightarrow> ('ie, 'pe, 's) env option \<Rightarrow> caller_auth option \<Rightarrow> ln_invoice_payment_input \<Rightarrow>
   ('s world, gql_failure, payment_send_payload) cmd" where
  "ln_invoice_payment_send show_err app auth input =
     bindC (ctx_app app) (\<lambda>env.
     matchC (send_payment env (pay_request_of auth input))
       (on_app_error (send_error_payload show_err))
       (\<lambda>payment. retC \<lparr>psp_errors = [], psp_status = Some (send_result (pay_state payment)), psp_transaction = None\<rparr>))"

definition fee_probe_request_of :: "caller_auth option \<Rightarrow> ln_invoice_fee_probe_input \<Rightarrow> fee_probe_request" where
  "fee_probe_request_of auth input =
     \<lparr>fq_caller_auth = ctx_caller_auth auth, fq_wallet_id = lfi_wallet_id input,
      fq_payment_request = ln_request_str (lfi_payment_request input)\<rparr>"

definition ln_invoice_fee_probe ::
  "(app_error \<Rightarrow> string) \<Rightarrow> ('ie, 'pe, 's) env option \<Rightarrow> caller_auth option \<Rightarrow> ln_invoice_fee_probe_input \<Rightarrow>
   ('s world, gql_failure, sat_amount_payload) cmd" where
  "ln_invoice_fee_probe show_err app auth input =
     bindC (ctx_app app) (\<lambda>env.
     matchC (fee_probe env (fee_probe_request_of auth input))
       (on_app_error (\<lambda>e. \<lparr>sap_amount = None, sap_errors = [GraphqlError (show_err e)]\<rparr>))
       (\<lambda>fee_msat. retC \<lparr>sap_amount = Some (SatAmount (as_u64 fee_msat div 1000)), sap_errors = []\<rparr>))"

section \<open>Wiring of the ownership checker\<close>

text \<open>The coordinator's ownership oracle is the checker of \<open>src/wallet/ownership.rs\<close>: the answer at step \<open>n\<close>
  is that of a check against the checker's state at that step, displayed.\<close>

definition ownership_wired ::
  "router_params \<Rightarrow> (nat \<Rightarrow> checker) \<Rightarrow> (nat \<Rightarrow> instant \<times> instant) \<Rightarrow> ('ie, 'pe, 's) env \<Rightarrow> bool" where
  "ownership_wired P ck clock env \<longleftrightarrow>
     (\<forall>n auth wallet. e_ownership env n auth wallet =
        map_err (ownership_error_str (rp_show_wallet P))
          (fst (ownership_check P (fst (clock n)) (snd (clock n)) auth wallet (ck n))))"

lemma wired_unauthenticated:
  assumes "ownership_wired P ck clock env"
  shows "e_ownership env n caller_auth_default wallet = Inl ''caller is not authenticated''"
  using assms by (simp add: ownership_wired_def ownership_check_def is_authenticated_def caller_auth_default_def)

text \<open>A refused check ends each use case with nothing done.\<close>

lemma refused_use_cases:
  assumes "\<And>n. e_ownership env n auth wallet = Inl msg"
  shows "nir_caller_auth req = auth \<Longrightarrow> nir_wallet_id req = wallet \<Longrightarrow>
      \<exists>w'. create_invoice env req w = (Inl (AppWalletOwnership msg), w') \<and> w_db w' = w_db w \<and>
        w_trace w' = w_trace w @ [EOwnership wallet False]"
    and "pq_caller_auth preq = auth \<Longrightarrow> pq_wallet_id preq = wallet \<Longrightarrow>
      \<exists>w'. send_payment env preq w = (Inl (AppWalletOwnership msg), w') \<and> w_db w' = w_db w \<and>
        w_trace w' = w_trace w @ [EOwnership wallet False]"
    and "fq_caller_auth freq = auth \<Longrightarrow> fq_wallet_id freq = wallet \<Longrightarrow>
      \<exists>w'. fee_probe env freq w = (Inl (AppWalletOwnership msg), w') \<and> w_db w' = w_db w \<and>
        w_trace w' = w_trace w @ [EOwnership wallet False]"
  using assms
  by (auto simp: create_invoice_def send_payment_def fee_probe_def bindC_def check_wallet_ownership_def mapErrC_def
      call_def draw_def Let_def)

section \<open>Results\<close>

definition returns :: "(gql_failure + 'p) \<times> 'w \<Rightarrow> ('p \<Rightarrow> bool) \<Rightarrow> bool" where
  "returns r ok_payload \<longleftrightarrow> (case fst r of Inl _ \<Rightarrow> True | Inr p \<Rightarrow> ok_payload p)"

lemma ctx_app_apply: "bindC (ctx_app app) f w =
    (case app of None \<Rightarrow> (Inl (GqlError ''App coordinator not configured''), w) | Some env \<Rightarrow> f env w)"
  by (simp add: ctx_app_def bindC_def split: option.split)

lemma returns_match:
  assumes "\<And>e. returns (on_app_error payload e (snd (m w))) Q" "\<And>x. returns (f x (snd (m w))) Q"
  shows "returns (matchC m (on_app_error payload) f w) Q"
  using assms by (cases "m w") (auto simp: matchC_def split: sum.split)

lemma returns_on_app_error: "(\<And>e. Q (payload e)) \<Longrightarrow> returns (on_app_error payload e w) Q"
  by (simp add: returns_def on_app_error_def split: app_error.split)

lemma returns_simps [simp]:
  "returns (retC p w) Q \<longleftrightarrow> Q p"
  "returns (throwC e w) Q"
  "returns (Inl e, w) Q"
  "returns (Inr p, w) Q \<longleftrightarrow> Q p"
  by (simp_all add: returns_def)

lemma to_msat_value:
  "unat (as_u64 (sat_amount_to_msat a) div 1000) = unat (sat_u64 a) * 1000 mod 2 ^ 64 div 1000"
  by (simp add: sat_amount_to_msat_def unat_div unat_word_ariths)

lemma wrapped_sats: "n * 1000 mod 2 ^ 64 div 1000 = n \<longleftrightarrow> n \<le> 18446744073709551" for n :: nat
proof
  have "n * 1000 mod 2 ^ 64 < (2 ^ 64 :: nat)" by (rule mod_less_divisor) simp
  then have "n * 1000 mod 2 ^ 64 div 1000 \<le> (2 ^ 64 - 1) div (1000 :: nat)" by (intro div_le_mono) simp
  moreover assume "n * 1000 mod 2 ^ 64 div 1000 = n"
  ultimately show "n \<le> 18446744073709551" by simp
qed simp

section \<open>Properties\<close>

text \<open>A request without a validated token does nothing: when the handler injects no caller, each of
  the three mutations asks the ownership checker once, is refused, touches neither LND nor Symphony nor
  the database, and answers with the refusal.\<close>

lemma anonymous_mutations_denied:
  assumes "graphql_handler_auth J keys authorization = None" and "ownership_wired P ck clock env"
    and "auth = graphql_handler_auth J keys authorization"
    and "denied = GraphqlError (show_err (AppWalletOwnership ''caller is not authenticated''))"
  shows "(\<exists>w'. ln_invoice_create show_err (Some env) auth create_in w = (Inr \<lparr>lip_errors = [denied], lip_invoice = None\<rparr>, w') \<and>
      w_db w' = w_db w \<and> w_trace w' = w_trace w @ [EOwnership (lic_wallet_id create_in) False]) \<and>
    (\<exists>w'. ln_invoice_payment_send show_err (Some env) auth pay_in w =
        (Inr \<lparr>psp_errors = [denied], psp_status = Some ResFailure, psp_transaction = None\<rparr>, w') \<and>
      w_db w' = w_db w \<and> w_trace w' = w_trace w @ [EOwnership (lpi_wallet_id pay_in) False]) \<and>
    (\<exists>w'. ln_invoice_fee_probe show_err (Some env) auth probe_in w = (Inr \<lparr>sap_amount = None, sap_errors = [denied]\<rparr>, w') \<and>
      w_db w' = w_db w \<and> w_trace w' = w_trace w @ [EOwnership (lfi_wallet_id probe_in) False])"
proof -
  note refused = refused_use_cases [of env caller_auth_default _ "''caller is not authenticated''", OF wired_unauthenticated [OF assms(2)]]
  have auth: "auth = None" using assms(1,3) by simp
  have "\<exists>w'. create_invoice env (create_request None create_in) w = (Inl (AppWalletOwnership ''caller is not authenticated''), w') \<and>
      w_db w' = w_db w \<and> w_trace w' = w_trace w @ [EOwnership (lic_wallet_id create_in) False]"
    by (rule refused(1)) (simp_all add: create_request_def ctx_caller_auth_def Let_def)
  moreover have "\<exists>w'. send_payment env (pay_request_of None pay_in) w = (Inl (AppWalletOwnership ''caller is not authenticated''), w') \<and>
      w_db w' = w_db w \<and> w_trace w' = w_trace w @ [EOwnership (lpi_wallet_id pay_in) False]"
    by (rule refused(2)) (simp_all add: pay_request_of_def ctx_caller_auth_def)
  moreover have "\<exists>w'. fee_probe env (fee_probe_request_of None probe_in) w = (Inl (AppWalletOwnership ''caller is not authenticated''), w') \<and>
      w_db w' = w_db w \<and> w_trace w' = w_trace w @ [EOwnership (lfi_wallet_id probe_in) False]"
    by (rule refused(3)) (simp_all add: fee_probe_request_of_def ctx_caller_auth_def)
  ultimately show ?thesis
    by (auto simp: auth assms(4) ln_invoice_create_def ln_invoice_payment_send_def ln_invoice_fee_probe_def
        ctx_app_apply matchC_def on_app_error_def send_error_payload_def)
qed

definition sample_create :: ln_invoice_create_input where
  "sample_create = \<lparr>lic_amount = SatAmount 2100, lic_expires_in = None, lic_external_id = Some (TxExternalId ''a-1''),
     lic_memo = None, lic_wallet_id = WalletId 5\<rparr>"

text \<open>The payloads are well typed: an invoice or a fee comes exactly without errors, and a payment
  always has a status, which is a failure when there are errors.\<close>

lemma mutation_payloads_typed:
  "returns (ln_invoice_create show_err app auth create_in w) (\<lambda>p. lip_errors p = [] \<longleftrightarrow> lip_invoice p \<noteq> None) \<and>
   returns (ln_invoice_payment_send show_err app auth pay_in w)
     (\<lambda>p. psp_status p \<noteq> None \<and> (psp_errors p = [] \<or> psp_status p = Some ResFailure)) \<and>
   returns (ln_invoice_fee_probe show_err app auth probe_in w) (\<lambda>p. sap_errors p = [] \<longleftrightarrow> sap_amount p \<noteq> None)"
  by (auto simp: ln_invoice_create_def ln_invoice_payment_send_def ln_invoice_fee_probe_def ctx_app_apply
      send_error_payload_def intro!: returns_match returns_on_app_error
      split: option.split app_error.split payment_error.split)

text \<open>C38. The amount of a created invoice: the resolver never panics, and the amount it reports is the
  requested one as long as that is below \<open>2^64 / 1000\<close> satoshis; above, the conversion to millisatoshis
  wraps and the invoice is for the wrapped amount.\<close>

theorem created_invoice_amount:
  assumes "gateway_repos (e_ies env) (e_pes env) (e_repos env)"
  shows "case fst (ln_invoice_create show_err (Some env) auth create_in w) of
      Inl _ \<Rightarrow> False
    | Inr p \<Rightarrow>
        (case lip_invoice p of
           None \<Rightarrow> True
         | Some made \<Rightarrow>
             unat (sat_u64 (li_satoshis made)) = unat (sat_u64 (lic_amount create_in)) * 1000 mod 2 ^ 64 div 1000 \<and>
             (li_satoshis made = lic_amount create_in \<longleftrightarrow> unat (sat_u64 (lic_amount create_in)) \<le> 18446744073709551))"
proof -
  have request: "nir_amount_msat (create_request auth create_in) = sat_amount_to_msat (lic_amount create_in)"
    by (simp add: create_request_def Let_def)
  obtain r w' where r: "create_invoice env (create_request auth create_in) w = (r, w')" by fastforce
  with create_invoice_amount [OF assms, of "create_request auth create_in"]
  have ok: "case r of Inl e \<Rightarrow> (\<forall>msg. e \<noteq> AppPanic msg)
      | Inr i \<Rightarrow> inv_amount_msat i = Some (sat_amount_to_msat (lic_amount create_in))"
    unfolding emits_def request by blast
  show ?thesis
  proof (cases r)
    case (Inl e)
    with r ok show ?thesis
      by (auto simp: ln_invoice_create_def ctx_app_apply matchC_def on_app_error_def split: app_error.splits)
  next
    case (Inr i)
    let ?a = "lic_amount create_in"
    have amount: "inv_amount_msat i = Some (sat_amount_to_msat ?a)" using ok Inr by simp
    have "SatAmount (as_u64 (sat_amount_to_msat ?a) div 1000) = ?a \<longleftrightarrow>
        unat (sat_u64 ?a) * 1000 mod 2 ^ 64 div 1000 = unat (sat_u64 ?a)"
      by (metis sat_amount.collapse sat_amount.inject to_msat_value word_unat_eq_iff)
    also have "\<dots> \<longleftrightarrow> unat (sat_u64 ?a) \<le> 18446744073709551"
      by (rule wrapped_sats)
    finally show ?thesis
      using r Inr amount
      by (simp add: ln_invoice_create_def ctx_app_apply matchC_def to_msat_value)
  qed
qed

theorem created_invoice_amount_witness:
  "case fst (ln_invoice_create (\<lambda>_. ''error'') (Some ref_env) (Some (CallerAuth ''token'' ''user'')) sample_create ref_world) of
     Inl _ \<Rightarrow> False
   | Inr p \<Rightarrow>
       (case lip_invoice p of
          None \<Rightarrow> True
        | Some made \<Rightarrow>
            unat (sat_u64 (li_satoshis made)) = 2100 \<and> li_satoshis made = lic_amount sample_create)"
proof -
  have "gateway_repos (e_ies ref_env) (e_pes ref_env) (e_repos ref_env)"
    by (simp add: ref_env_def ref_gateway.gateway_repos_axioms)
  from created_invoice_amount [OF this, where show_err = "\<lambda>_. ''error''" and auth = "Some (CallerAuth ''token'' ''user'')"
      and create_in = sample_create and w = ref_world]
  show ?thesis by (simp add: sample_create_def split: sum.splits option.splits)
qed

end
