(* ===== verification/Access.thy ===== *)
theory Access
  imports Graphql_Mutation
begin

text \<open>
  Access from the request to the coordinator: the identity the handler validated (\<open>Auth\<close>), the ownership checker
  behind the coordinator (\<open>Wallet\<close>) and the three mutations together.
\<close>

section \<open>Evidence of ownership\<close>

text \<open>The caller's wallets, as the cache has them or as the router answers now, contain the wallet.\<close>

definition wallet_confirmed ::
  "router_params \<Rightarrow> (nat \<Rightarrow> checker) \<Rightarrow> (nat \<Rightarrow> instant \<times> instant) \<Rightarrow> caller_auth \<Rightarrow> wallet_id \<Rightarrow> bool" where
  "wallet_confirmed P ck clock caller wallet \<longleftrightarrow>
     (\<exists>n owned. rp_show_wallet P wallet \<in> owned \<and>
        (cached (fst (clock n)) (ca_sub caller) (ck n) = Some owned \<or> fetch_owned_wallets P caller (ck n) = Inr owned))"

text \<open>The request carries a token that a cached key verified, for the subject of its claims.\<close>

definition token_verified :: "'k jwt_crate \<Rightarrow> 'k keys_cache \<Rightarrow> header_value option \<Rightarrow> caller_auth \<Rightarrow> bool" where
  "token_verified J keys authorization caller \<longleftrightarrow>
     authorization = Some (HeaderText (''Bearer '' @ ca_jwt caller)) \<and>
     (\<exists>kid key claims. (kid, key) \<in> set keys \<and> jl_decode J (ca_jwt caller) key = Inr claims \<and> ca_sub caller = jc_sub claims)"

lemma handler_verified: "graphql_handler_auth J keys authorization = Some caller \<Longrightarrow> token_verified J keys authorization caller"
  by (fastforce simp: graphql_handler_auth_def token_verified_def bearer_token_def strip_prefix_Some
      dest!: jwks_decode_Inr split: option.splits sum.splits header_value.splits)

lemma wired_confirms:
  assumes "ownership_wired P ck clock env" "e_ownership env n caller wallet = Inr ()"
  shows "is_authenticated caller" "wallet_confirmed P ck clock caller wallet"
  using assms
  by (auto simp: ownership_wired_def ownership_check_def membership_verdict_def wallet_confirmed_def
      split: if_splits option.splits sum.splits)

section \<open>Nothing happens without it\<close>

text \<open>A use case whose ownership check cannot succeed.\<close>

definition untouched :: "wallet_id \<Rightarrow> 's world \<Rightarrow> 's world \<Rightarrow> bool" where
  "untouched wallet w w' \<longleftrightarrow> w_db w' = w_db w \<and> w_trace w' = w_trace w @ [EOwnership wallet False]"

lemma refused_untouched:
  assumes "\<And>n. e_ownership env n auth wallet \<noteq> Inr ()"
  shows "nir_caller_auth req = auth \<Longrightarrow> nir_wallet_id req = wallet \<Longrightarrow> untouched wallet w (snd (create_invoice env req w))"
    and "pq_caller_auth preq = auth \<Longrightarrow> pq_wallet_id preq = wallet \<Longrightarrow> untouched wallet w (snd (send_payment env preq w))"
    and "fq_caller_auth freq = auth \<Longrightarrow> fq_wallet_id freq = wallet \<Longrightarrow> untouched wallet w (snd (fee_probe env freq w))"
proof -
  have "\<exists>msg. e_ownership env n auth wallet = Inl msg" for n
    using assms [of n] by (cases "e_ownership env n auth wallet") auto
  then obtain msg where "\<And>n. e_ownership env n auth wallet = Inl (msg n)" by metis
  then show "nir_caller_auth req = auth \<Longrightarrow> nir_wallet_id req = wallet \<Longrightarrow> untouched wallet w (snd (create_invoice env req w))"
    and "pq_caller_auth preq = auth \<Longrightarrow> pq_wallet_id preq = wallet \<Longrightarrow> untouched wallet w (snd (send_payment env preq w))"
    and "fq_caller_auth freq = auth \<Longrightarrow> fq_wallet_id freq = wallet \<Longrightarrow> untouched wallet w (snd (fee_probe env freq w))"
    by (auto simp: untouched_def create_invoice_def send_payment_def fee_probe_def bindC_def check_wallet_ownership_def
        mapErrC_def call_def draw_def Let_def)
qed

lemma resolver_world:
  "snd (ln_invoice_create show_err (Some env) auth create_in w) = snd (create_invoice env (create_request auth create_in) w)"
  "snd (ln_invoice_payment_send show_err (Some env) auth pay_in w) = snd (send_payment env (pay_request_of auth pay_in) w)"
  "snd (ln_invoice_fee_probe show_err (Some env) auth probe_in w) = snd (fee_probe env (fee_probe_request_of auth probe_in) w)"
  by (simp_all add: ln_invoice_create_def ln_invoice_payment_send_def ln_invoice_fee_probe_def ctx_app_apply matchC_def
      on_app_error_def split: prod.split sum.split app_error.split option.split)

lemma confirmed_caller:
  assumes "ownership_wired P ck clock env"
    and "e_ownership env n (ctx_caller_auth (graphql_handler_auth J keys authorization)) wallet = Inr ()"
  shows "\<exists>caller. token_verified J keys authorization caller \<and> wallet_confirmed P ck clock caller wallet"
proof (cases "graphql_handler_auth J keys authorization")
  case None
  with wired_confirms(1) [OF assms] show ?thesis
    by (simp add: ctx_caller_auth_def is_authenticated_def caller_auth_default_def)
next
  case (Some caller)
  with wired_confirms(2) [OF assms] handler_verified [OF Some] show ?thesis
    by (auto simp: ctx_caller_auth_def)
qed

section \<open>Properties\<close>

text \<open>C21. Only the owner acts: a mutation that has any effect beyond a refused ownership check (that changes the
  database, or touches LND, Symphony or the listeners) came with a token that a cached key verified, and the
  wallet it acts on is one of the wallets of that token's subject, as the cache holds them within their time to
  live or as the router answered for that token.\<close>

theorem only_the_owner_acts:
  assumes "ownership_wired P ck clock env" "auth = graphql_handler_auth J keys authorization"
  shows "(untouched (lic_wallet_id create_in) w (snd (ln_invoice_create show_err (Some env) auth create_in w)) \<or>
      (\<exists>caller. token_verified J keys authorization caller \<and> wallet_confirmed P ck clock caller (lic_wallet_id create_in))) \<and>
    (untouched (lpi_wallet_id pay_in) w (snd (ln_invoice_payment_send show_err (Some env) auth pay_in w)) \<or>
      (\<exists>caller. token_verified J keys authorization caller \<and> wallet_confirmed P ck clock caller (lpi_wallet_id pay_in))) \<and>
    (untouched (lfi_wallet_id probe_in) w (snd (ln_invoice_fee_probe show_err (Some env) auth probe_in w)) \<or>
      (\<exists>caller. token_verified J keys authorization caller \<and> wallet_confirmed P ck clock caller (lfi_wallet_id probe_in)))"
proof -
  have refused: "e_ownership env n (ctx_caller_auth auth) wallet \<noteq> Inr ()"
    if "\<nexists>caller. token_verified J keys authorization caller \<and> wallet_confirmed P ck clock caller wallet" for n wallet
    using that confirmed_caller [OF assms(1)] assms(2) by blast
  show ?thesis
    unfolding resolver_world
    using refused_untouched(1) [OF refused, of "lic_wallet_id create_in" "create_request auth create_in" w]
      refused_untouched(2) [OF refused, of "lpi_wallet_id pay_in" "pay_request_of auth pay_in" w]
      refused_untouched(3) [OF refused, of "lfi_wallet_id probe_in" "fee_probe_request_of auth probe_in" w]
    by (auto simp: create_request_def pay_request_of_def fee_probe_request_of_def Let_def)
qed

definition sample_checker :: checker where
  "sample_checker = ownership_checker_new True \<lparr>oc_router_endpoint = ''http://router'', oc_cache_secs = 60\<rparr>"

definition wired_env :: "(ref_ie, ref_pe, ref_store) env" where
  "wired_env = ref_env\<lparr>e_ownership := (\<lambda>n auth wallet. map_err (ownership_error_str (rp_show_wallet sample_router))
     (fst (ownership_check sample_router n n auth wallet sample_checker)))\<rparr>"

definition sample_probe :: ln_invoice_fee_probe_input where
  "sample_probe = \<lparr>lfi_payment_request = LnPaymentRequest ''lnbc1'', lfi_wallet_id = WalletId 5\<rparr>"

lemma sample_owned: "e_ownership wired_env n (CallerAuth ''tok2'' ''user'') (WalletId 5) = Inr ()"
  by (simp add: wired_env_def ownership_check_def is_authenticated_def cached_def sample_checker_def ownership_checker_new_def
      fetch_owned_wallets_def sample_router_def membership_def membership_verdict_def is_space_def is_success_def
      ok_or_def Let_def)

theorem only_the_owner_acts_witness:
  "\<not> untouched (WalletId 5) ref_world (snd (ln_invoice_fee_probe (\<lambda>_. ''denied'') (Some wired_env)
      (graphql_handler_auth sample_jwt [(None, 2)] (Some (HeaderText ''Bearer tok2''))) sample_probe ref_world)) \<and>
   (\<exists>caller. token_verified sample_jwt [(None, 2)] (Some (HeaderText ''Bearer tok2'')) caller \<and>
      wallet_confirmed sample_router (\<lambda>_. sample_checker) (\<lambda>n. (n, n)) caller (WalletId 5))"
proof -
  have wired: "ownership_wired sample_router (\<lambda>_. sample_checker) (\<lambda>n. (n, n)) wired_env"
    by (simp add: ownership_wired_def wired_env_def)
  have auth: "graphql_handler_auth sample_jwt [(None, 2)] (Some (HeaderText ''Bearer tok2'')) = Some (CallerAuth ''tok2'' ''user'')"
    by code_simp
  have "\<not> untouched (WalletId 5) ref_world (snd (ln_invoice_fee_probe (\<lambda>_. ''denied'') (Some wired_env)
      (Some (CallerAuth ''tok2'' ''user'')) sample_probe ref_world))"
    by (auto simp: resolver_world untouched_def fee_probe_def fee_probe_request_of_def sample_probe_def ctx_caller_auth_def
        bindC_def check_wallet_ownership_def mapErrC_def call_def sample_owned decode_payment_request_def lnd_fee_probe_def
        draw_def Let_def split: sum.splits prod.splits)
  with only_the_owner_acts [OF wired refl, where probe_in = sample_probe and w = ref_world and show_err = "\<lambda>_. ''denied''"
      and J = sample_jwt and keys = "[(None, 2)]" and authorization = "Some (HeaderText ''Bearer tok2'')"]
  show ?thesis by (simp add: sample_probe_def auth)
qed

end
