(* ===== verification/Spend_Evidence.thy ===== *)
theory Spend_Evidence
  imports Op_Effects App_Services
begin

text \<open>
  The coordinator on top of the Symphony client: what it takes for an approval is what the client of
  \<open>src/symphony/client.rs\<close> makes of an answer of the service. Money moves (a send to LND, a recorded transfer within
  the gateway) only when the service answered \<open>authorized\<close> to the request for exactly that spend.
\<close>

section \<open>Evidence\<close>

text \<open>A configured service answered the request on the wire with \<open>authorized\<close>.\<close>

definition spend_backed ::
  "(json \<Rightarrow> string option) \<Rightarrow> (nat \<Rightarrow> client_mode) \<Rightarrow> symphony_authorize_request \<Rightarrow> bool" where
  "spend_backed ts mode q \<longleftrightarrow>
     (\<exists>k rpc resp. mode k = Real rpc \<and> rpc_authorize_spend rpc (proto_spend_request_of ts q) = Inr resp \<and> psp_authorized resp)"

text \<open>An effect that moves money, and what must back it: a send to LND the hold of its amount and fee limit, a
  transfer within the gateway the request that posts it.\<close>

definition transfer_writes :: "new_payment \<Rightarrow> db_write list \<Rightarrow> bool" where
  "transfer_writes n ws \<longleftrightarrow> (\<exists>i rest. ws = WCreatePayment n # WUpdatePayment i Completed # rest)"

fun justified :: "('ie, 'pe, 's) env \<Rightarrow> (symphony_authorize_request \<Rightarrow> bool) \<Rightarrow> effect \<Rightarrow> bool" where
  "justified env backed (ELndSend p) \<longleftrightarrow> (\<exists>n. p = send_params n \<and> backed (hold_request env n))"
| "justified env backed (ECommit ws) \<longleftrightarrow>
     (\<forall>n. transfer_writes n ws \<longrightarrow> (\<exists>recipient. backed (transfer_request env n (np_wallet_id n) recipient)))"
| "justified env backed _ \<longleftrightarrow> True"

section \<open>Answers of the service\<close>

fun answered :: "('ie, 'pe, 's) env \<Rightarrow> effect \<Rightarrow> bool" where
  "answered env (EAuthorize q a) \<longleftrightarrow> (\<exists>k. e_authorize env k q = a)"
| "answered env _ \<longleftrightarrow> True"

text \<open>What an environment must do for its approvals to be backed.\<close>

locale spend_service =
  fixes env :: "('ie, 'pe, 's) env" and backed :: "symphony_authorize_request \<Rightarrow> bool"
  assumes repos: "gateway_repos (e_ies env) (e_pes env) (e_repos env)"
    and approval_backed: "approved (e_authorize env k q) \<Longrightarrow> backed q"
begin

lemma answered_call: "emits_all (answered env) (symphony_authorize_spend env q)"
  unfolding symphony_authorize_spend_def emits_all_def by (rule emits_call) auto

lemma answered_outcome: "outcome_tail env i h a t \<Longrightarrow> list_all (answered env) t"
  by (auto simp: outcome_tail_def completed_tail_def failed_tail_def)

lemma answered_intent: "emits_all (answered env) (persist_intent env n a)"
  unfolding emits_all_def by (rule emits_mono [OF persist_intent_emits]) auto

lemma answered_outcomes:
  "emits_all (answered env) (fail_inline env p h a reason now)"
  "emits_all (answered env) (send_payment_dispatch env p h a bolt fee now)"
  unfolding emits_all_def
  by (rule emits_mono [OF outcome_emits(1)] emits_mono [OF dispatch_emits]; auto dest: answered_outcome)+

lemma answered_transfer: "emits_all (answered env) (intraledger_commit env n i pre sw rw now)"
  unfolding intraledger_commit_def create_payment_in_op_def
  by (rule all_tx) (auto intro!: writes_rules record_payment_quiet)

lemma answered_send: "emits_all (answered env) (send_payment env req)"
  unfolding send_payment_def route_payment_def send_ln_payment_def send_intraledger_payment_def intraledger_authorize_def
    send_payment_authorize_def decode_payment_request_def check_wallet_ownership_def lnd_cancel_invoice_def
    maybe_find_invoice_def Let_def
  by (auto intro!: all_rules answered_call answered_intent answered_outcomes answered_transfer split: option.split)

section \<open>Justified effects\<close>

lemma justified_outcome: "outcome_tail env i h a t \<Longrightarrow> list_all (justified env backed) t"
  by (auto simp: outcome_tail_def completed_tail_def failed_tail_def transfer_writes_def)

lemma justified_intent:
  assumes "after_intent env n i t" "list_all (answered env) t"
  shows "list_all (justified env backed) t"
  using assms
  by (cases "(env, n, i, t)" rule: after_intent.cases)
    (auto simp: failed_tail_def transfer_writes_def dest!: approval_backed justified_outcome split: if_splits)

lemma justified_transfer:
  assumes "transfer_protocol env n sender rcp t" "np_wallet_id n = sender" "list_all (answered env) t"
  shows "list_all (justified env backed) t"
  using assms
  by (cases "(env, n, sender, rcp, t)" rule: transfer_protocol.cases)
    (auto simp: transfer_commit_def transfer_writes_def dest!: approval_backed split: if_splits)

lemma justified_ln:
  assumes "ln_protocol env wallet t" "list_all (answered env) t"
  shows "list_all (justified env backed) t"
  using assms justified_intent
  by (cases "(env, wallet, t)" rule: ln_protocol.cases) (auto simp: transfer_writes_def)

lemma justified_protocol:
  assumes "send_protocol env wallet t" "list_all (answered env) t"
  shows "list_all (justified env backed) t"
  using assms justified_ln justified_transfer unfolding send_protocol_def intra_protocol_def by fastforce

lemma justified_send: "emits_all (justified env backed) (send_payment env req)"
  unfolding emits_all_def
  by (rule emits_mono [OF emits_conj [OF send_payment_emits [OF repos] answered_send [unfolded emits_all_def]]])
    (auto intro: justified_protocol)

lemma justified_idle: "idle_trace t \<Longrightarrow> list_all (justified env backed) t"
proof (elim list.pred_mono_strong)
  show "\<not> spends e \<Longrightarrow> justified env backed e" for e
    by (cases e rule: spends.cases) (auto simp: transfer_writes_def)
qed

lemma justified_op: "\<exists>t. w_trace (run_op env op w) = w_trace w @ t \<and> list_all (justified env backed) t"
proof (cases "is_send op")
  case True
  then obtain req where "op = OpSendPayment req" by (cases op) auto
  then show ?thesis using emits_all_snd [OF justified_send] by simp
next
  case False
  from idle_op [OF repos False] show ?thesis using justified_idle by blast
qed

lemma justified_ops: "\<exists>t. w_trace (run_ops env ops w) = w_trace w @ t \<and> list_all (justified env backed) t"
proof (induction ops arbitrary: w)
  case (Cons op ops)
  from justified_op [of op w] Cons.IH [of "run_op env op w"] obtain t1 t2 where
    "w_trace (run_op env op w) = w_trace w @ t1" "list_all (justified env backed) t1"
    "w_trace (run_ops env ops (run_op env op w)) = (w_trace w @ t1) @ t2" "list_all (justified env backed) t2" by fastforce
  then show ?case by (intro exI [of _ "t1 @ t2"]) (simp add: run_ops_def)
qed (simp add: run_ops_def)

end

section \<open>The client is such a service\<close>

text \<open>The coordinator on the Symphony client; the client of a step may be the stub or a real one.\<close>

definition symphony_env ::
  "(nat \<Rightarrow> lnd_api) \<Rightarrow> (nat \<Rightarrow> bool) \<Rightarrow> (json \<Rightarrow> string option) \<Rightarrow> (nat \<Rightarrow> client_mode) \<Rightarrow> ('ie, 'pe, 's) env \<Rightarrow> ('ie, 'pe, 's) env" where
  "symphony_env lnd deadline ts mode env =
     app_new lnd deadline (\<lambda>n. authorize_spend ts (mode n)) (e_ownership env) env"

lemma approved_backed:
  assumes "approved (authorize_spend ts (mode k) q)"
  shows "spend_backed ts mode q"
proof (cases "mode k")
  case (Real rpc)
  with assms show ?thesis
    by (auto simp: approved_def authorize_spend_def symphony_client_def bindR_def map_err_def Let_def spend_backed_def
        split: sum.splits if_splits)
next
  case BootStub
  with assms show ?thesis by (simp add: approved_def authorize_spend_def symphony_client_def bindR_def)
qed

lemma symphony_service:
  "gateway_repos (e_ies env) (e_pes env) (e_repos env) \<Longrightarrow> spend_service (symphony_env lnd deadline ts mode env) (spend_backed ts mode)"
  by (rule spend_service.intro) (simp_all add: symphony_env_def approved_backed)

text \<open>On the stub nothing is ever backed.\<close>

lemma boot_stub_backs_nothing: "\<not> spend_backed ts (\<lambda>_. symphony_boot_stub) q"
  by (simp add: spend_backed_def symphony_boot_stub_def)

definition sample_rpc :: spend_rpc where
  "sample_rpc = \<lparr>rpc_authorize_spend = (\<lambda>_. Inr \<lparr>psp_authorized = True, psp_authorization_id = ''auth-1'', psp_decline_reason = 0,
       psp_decline_message = []\<rparr>), rpc_void_spend = (\<lambda>_. Inr ())\<rparr>"

definition spend_env :: "(nat \<Rightarrow> client_mode) \<Rightarrow> (ref_ie, ref_pe, ref_store) env" where
  "spend_env mode = symphony_env (\<lambda>_. stub_lnd) (\<lambda>_. True) (\<lambda>_. None) mode ref_env"

interpretation wired: spend_service "spend_env mode" "spend_backed (\<lambda>_. None) mode"
  unfolding spend_env_def by (rule symphony_service [OF ref_env_repos])

definition spend_run :: "effect list" where
  "spend_run = w_trace (run_ops (spend_env (\<lambda>_. Real sample_rpc)) [OpSendPayment sample_request] ref_world)"

lemma spend_run_sends: "list_ex is_lnd_send spend_run"
  by code_simp

section \<open>Properties\<close>



end
