(* ===== verification/Graphql_Subscription.thy ===== *)
theory Graphql_Subscription
  imports Graphql_Types Grpc_Stream Repositories
begin

text \<open>
  The invoice-status subscription of \<open>src/api/graphql/subscription.rs\<close>. A stream is a state machine, one step
  for each wait of the task: the lookups, the queries of the backfill, the events of the fan-out, the loss of
  the subscriber, shutdown. What a step meets is its input; the flag of an input says whether the send succeeds.
\<close>

section \<open>Statuses and payloads\<close>

record status_emitter =
  se_last :: "invoice_payment_status option"

definition emitter_next :: "invoice_payment_status \<Rightarrow> status_emitter \<Rightarrow> invoice_payment_status option \<times> status_emitter" where
  "emitter_next status self =
     (if se_last self = Some status then (None, self) else (Some status, self\<lparr>se_last := Some status\<rparr>))"

definition is_terminal :: "invoice_payment_status \<Rightarrow> bool" where
  "is_terminal status \<longleftrightarrow> status \<in> {StPaid, StExpired}"

definition initial_status :: "(invoice_state \<times> timestamp) option \<Rightarrow> timestamp \<Rightarrow> invoice_payment_status" where
  "initial_status state_and_expiry now =
     (case state_and_expiry of
        None \<Rightarrow> StExpired
      | Some (Settled, _) \<Rightarrow> StPaid
      | Some (Canceled, _) \<Rightarrow> StExpired
      | Some (Held, _) \<Rightarrow> StPending
      | Some (Open, expiry_at) \<Rightarrow> if expiry_at \<le> now then StExpired else StPending)"

fun status_from_event :: "gateway_domain_event \<Rightarrow> invoice_payment_status option" where
  "status_from_event LightningHtlcHeld = Some StPending"
| "status_from_event LightningInvoiceSettled = Some StPaid"
| "status_from_event LightningIntraledgerTransferCompleted = Some StPaid"
| "status_from_event LightningInvoiceCanceled = Some StExpired"
| "status_from_event LightningPaymentInitiated = None"
| "status_from_event LightningPaymentCompleted = None"
| "status_from_event LightningPaymentFailed = None"
| "status_from_event LightningPaymentReversed = None"

definition build_payload ::
  "hex_codec \<Rightarrow> invoice_payment_status \<Rightarrow> payment_hash \<Rightarrow> 'es invoice option \<Rightarrow> status_payload" where
  "build_payload H status hash invoice =
     (let (pre, request) =
        (case (status, invoice) of
           (StPaid, Some i) \<Rightarrow>
             (Some (LnPaymentPreImage (preimage_to_hex H (inv_payment_preimage i))),
              Some (LnPaymentRequest (bolt_str (inv_bolt_invoice i))))
         | _ \<Rightarrow> (None, None)) in
      \<lparr>stp_errors = [], stp_payment_hash = Some hash, stp_payment_preimage = pre, stp_payment_request = request,
       stp_status = Some status\<rparr>)"

definition error_payload :: "string \<Rightarrow> status_payload" where
  "error_payload message =
     \<lparr>stp_errors = [GraphqlError message], stp_payment_hash = None, stp_payment_preimage = None,
      stp_payment_request = None, stp_status = None\<rparr>"

text \<open>\<open>maybe_find_by_payment_hash\<close>, with a failed lookup logged and taken for no invoice.\<close>

definition lookup_invoice :: "es_find_error + 'es invoice option \<Rightarrow> 'es invoice option" where
  "lookup_invoice found = (case found of Inr invoice \<Rightarrow> invoice | Inl _ \<Rightarrow> None)"

definition payment_hash_from_request :: "(string \<Rightarrow> string + bolt11) \<Rightarrow> string \<Rightarrow> string + payment_hash" where
  "payment_hash_from_request parse payment_request =
     bindR (map_err (\<lambda>e. ''invalid lightning invoice: '' @ e) (parse payment_request)) (\<lambda>invoice.
     bindR (map_err (\<lambda>_. ''payment hash not 32 bytes'') (try_into_array 32 (b11_payment_hash invoice))) (\<lambda>bytes.
     Inr (PaymentHash bytes)))"

section \<open>The stream\<close>

datatype flow = FlowContinue | FlowStop

text \<open>The flag of the drain phases says whether the drain is the one of a resumed stream.\<close>

datatype st_phase =
    SFresh
  | SDrain bool
  | SFetch bool
  | SPage bool "outbox_event list"
  | SDerive
  | SLive
  | SEnd

record st_state =
  st_phase :: st_phase
  st_cursor :: i64
  st_emitter :: status_emitter
  st_out :: "status_payload list"

datatype 'es st_input =
    StFresh "es_find_error + 'es invoice option" timestamp bool
  | StCount table
  | StFetch table
  | StEvent "es_find_error + 'es invoice option" bool
  | StDerive "es_find_error + 'es invoice option" timestamp bool
  | StSubscriberGone
  | StCancelled
  | StRecv outbox_event "es_find_error + 'es invoice option" bool
  | StLagged
  | StClosed

record stream_cfg =
  sc_hex :: hex_codec
  sc_hash :: payment_hash

definition sc_reference :: "stream_cfg \<Rightarrow> string" where
  "sc_reference C = hash_to_hex (sc_hex C) (sc_hash C)"

text \<open>Send a payload; the emitter has taken the status before.\<close>

definition send_status ::
  "stream_cfg \<Rightarrow> invoice_payment_status \<Rightarrow> 'es invoice option \<Rightarrow> bool \<Rightarrow> st_state \<Rightarrow> bool \<times> st_state" where
  "send_status C status invoice sent s =
     (case emitter_next status (st_emitter s) of
        (None, _) \<Rightarrow> (True, s)
      | (Some status, emitter) \<Rightarrow>
          if sent
          then (True, s\<lparr>st_emitter := emitter,
                        st_out := st_out s @ [build_payload (sc_hex C) status (sc_hash C) invoice]\<rparr>)
          else (False, s\<lparr>st_emitter := emitter\<rparr>))"

definition emit_for_event ::
  "stream_cfg \<Rightarrow> gateway_domain_event \<Rightarrow> es_find_error + 'es invoice option \<Rightarrow> bool \<Rightarrow> st_state \<Rightarrow> flow \<times> st_state" where
  "emit_for_event C domain_event found sent s =
     (case status_from_event domain_event of
        None \<Rightarrow> (FlowContinue, s)
      | Some status \<Rightarrow>
          if fst (emitter_next status (st_emitter s)) = None then (FlowContinue, s)
          else
            let invoice = (if status = StPaid then lookup_invoice found else None);
                (accepted, s') = send_status C status invoice sent s in
            if \<not> accepted then (FlowStop, s')
            else if is_terminal status then (FlowStop, s') else (FlowContinue, s'))"

definition after_flow :: "st_phase \<Rightarrow> flow \<times> st_state \<Rightarrow> st_state" where
  "after_flow next r = (case r of (FlowStop, s) \<Rightarrow> s\<lparr>st_phase := SEnd\<rparr> | (FlowContinue, s) \<Rightarrow> s\<lparr>st_phase := next\<rparr>)"

text \<open>\<open>initial_status\<close> of the stored invoice.\<close>

definition derived_status :: "'es invoice option \<Rightarrow> timestamp \<Rightarrow> invoice_payment_status" where
  "derived_status invoice now = initial_status (map_option (\<lambda>i. (inv_state i, inv_expiry_at i)) invoice) now"

definition fresh_step ::
  "stream_cfg \<Rightarrow> es_find_error + 'es invoice option \<Rightarrow> timestamp \<Rightarrow> bool \<Rightarrow> st_state \<Rightarrow> st_state" where
  "fresh_step C found now sent s =
     (let invoice = lookup_invoice found; status = derived_status invoice now;
          (accepted, s') = send_status C status invoice sent s in
      if \<not> accepted \<or> is_terminal status then s'\<lparr>st_phase := SEnd\<rparr> else s'\<lparr>st_phase := SLive\<rparr>)"

definition derive_step ::
  "stream_cfg \<Rightarrow> es_find_error + 'es invoice option \<Rightarrow> timestamp \<Rightarrow> bool \<Rightarrow> st_state \<Rightarrow> st_state" where
  "derive_step C found now sent s =
     (let invoice = lookup_invoice found; status = derived_status invoice now in
      if is_terminal status then (snd (send_status C status invoice sent s))\<lparr>st_phase := SEnd\<rparr>
      else s\<lparr>st_phase := SLive\<rparr>)"

text \<open>\<open>drain_backfill\<close>: the size check, the loop over the batches, the loop over a batch.\<close>

definition drain_step :: "bool \<Rightarrow> table \<Rightarrow> st_state \<Rightarrow> st_state" where
  "drain_step resume db s =
     (case db of
        Inl _ \<Rightarrow> s\<lparr>st_phase := SEnd\<rparr>
      | Inr rows \<Rightarrow>
          (let count = count_after rows (st_cursor s) in
           if count > MAX_BACKFILL_EVENTS
           then s\<lparr>st_phase := SEnd, st_out := st_out s @ [error_payload
             (''too many events to backfill ('' @ decimal count @ ''); reconnect from a more recent sequence'')]\<rparr>
           else s\<lparr>st_phase := SFetch resume\<rparr>))"

definition drained :: "bool \<Rightarrow> st_phase" where
  "drained resume = (if resume then SDerive else SLive)"

definition st_fetch_step :: "bool \<Rightarrow> table \<Rightarrow> st_state \<Rightarrow> st_state" where
  "st_fetch_step resume db s =
     (case bindR db (\<lambda>rows. fetch_after_batch rows (st_cursor s)) of
        Inl _ \<Rightarrow> s\<lparr>st_phase := SEnd\<rparr>
      | Inr [] \<Rightarrow> s\<lparr>st_phase := drained resume\<rparr>
      | Inr batch \<Rightarrow> s\<lparr>st_phase := SPage resume batch\<rparr>)"

definition st_event_step ::
  "stream_cfg \<Rightarrow> bool \<Rightarrow> outbox_event list \<Rightarrow> es_find_error + 'es invoice option \<Rightarrow> bool \<Rightarrow> st_state \<Rightarrow> st_state" where
  "st_event_step C resume batch found sent s =
     (case batch of
        [] \<Rightarrow> s\<lparr>st_phase := SFetch resume\<rparr>
      | ev # rest \<Rightarrow>
          (let s' = s\<lparr>st_cursor := ob_sequence ev\<rparr>;
               next = (if rest = [] then SFetch resume else SPage resume rest) in
           if ob_reference_id ev \<noteq> sc_reference C then s'\<lparr>st_phase := next\<rparr>
           else after_flow next (emit_for_event C (ob_domain_event ev) found sent s')))"

definition recv_step ::
  "stream_cfg \<Rightarrow> outbox_event \<Rightarrow> es_find_error + 'es invoice option \<Rightarrow> bool \<Rightarrow> st_state \<Rightarrow> st_state" where
  "recv_step C ev found sent s =
     (if sint (ob_sequence ev) \<le> sint (st_cursor s) then s
      else
        let s' = s\<lparr>st_cursor := ob_sequence ev\<rparr> in
        if ob_reference_id ev = sc_reference C
        then after_flow SLive (emit_for_event C (ob_domain_event ev) found sent s') else s')"

text \<open>An input the current phase does not wait for leaves the state alone.\<close>

definition status_step :: "stream_cfg \<Rightarrow> 'es st_input \<Rightarrow> st_state \<Rightarrow> st_state" where
  "status_step C i s =
     (case st_phase s of
        SFresh \<Rightarrow> (case i of StFresh found now sent \<Rightarrow> fresh_step C found now sent s | _ \<Rightarrow> s)
      | SDrain resume \<Rightarrow> (case i of StCount db \<Rightarrow> drain_step resume db s | _ \<Rightarrow> s)
      | SFetch resume \<Rightarrow> (case i of StFetch db \<Rightarrow> st_fetch_step resume db s | _ \<Rightarrow> s)
      | SPage resume batch \<Rightarrow>
          (case i of StEvent found sent \<Rightarrow> st_event_step C resume batch found sent s | _ \<Rightarrow> s)
      | SDerive \<Rightarrow> (case i of StDerive found now sent \<Rightarrow> derive_step C found now sent s | _ \<Rightarrow> s)
      | SLive \<Rightarrow>
          (case i of
             StSubscriberGone \<Rightarrow> s\<lparr>st_phase := SEnd\<rparr>
           | StCancelled \<Rightarrow> s\<lparr>st_phase := SEnd\<rparr>
           | StRecv ev found sent \<Rightarrow> recv_step C ev found sent s
           | StLagged \<Rightarrow> s\<lparr>st_phase := SDrain False\<rparr>
           | StClosed \<Rightarrow> s\<lparr>st_phase := SEnd\<rparr>
           | _ \<Rightarrow> s)
      | SEnd \<Rightarrow> s)"

definition status_start :: "i64 option \<Rightarrow> st_state" where
  "status_start resume =
     \<lparr>st_phase = (case resume of None \<Rightarrow> SFresh | Some _ \<Rightarrow> SDrain True), st_cursor = unwrap_or resume 0,
      st_emitter = \<lparr>se_last = None\<rparr>, st_out = []\<rparr>"

definition run_status_stream :: "stream_cfg \<Rightarrow> i64 option \<Rightarrow> 'es st_input list \<Rightarrow> st_state" where
  "run_status_stream C resume ins = fold (status_step C) ins (status_start resume)"

text \<open>\<open>build_status_stream\<close>: the stream, or one error payload.\<close>

definition build_status_stream ::
  "bool \<Rightarrow> bool \<Rightarrow> hex_codec \<Rightarrow> string + payment_hash \<Rightarrow> i64 option \<Rightarrow> 'es st_input list \<Rightarrow> status_payload list" where
  "build_status_stream has_app has_fanout H hash_result resume ins =
     (case hash_result of
        Inl message \<Rightarrow> [error_payload message]
      | Inr hash \<Rightarrow>
          if has_app \<and> has_fanout then st_out (run_status_stream \<lparr>sc_hex = H, sc_hash = hash\<rparr> resume ins)
          else [error_payload ''subscription backend not configured''])"

text \<open>The three fields; the two that take a payment request are the same.\<close>

definition ln_invoice_payment_status_by_hash where
  "ln_invoice_payment_status_by_hash has_app has_fanout H hash resume ins =
     build_status_stream has_app has_fanout H (Inr hash) resume ins"

definition ln_invoice_payment_status_by_payment_request where
  "ln_invoice_payment_status_by_payment_request parse has_app has_fanout H request resume ins =
     build_status_stream has_app has_fanout H (payment_hash_from_request parse (ln_request_str request)) resume ins"

definition ln_invoice_payment_status where
  "ln_invoice_payment_status parse has_app has_fanout H request resume ins =
     build_status_stream has_app has_fanout H (payment_hash_from_request parse (ln_request_str request)) resume ins"

text \<open>A request that parses is followed by its hash; one that does not ends at once with an error.\<close>

lemma status_by_request:
  "payment_hash_from_request parse (ln_request_str request) = Inr hash \<Longrightarrow>
   ln_invoice_payment_status_by_payment_request parse has_app has_fanout H request resume ins =
     ln_invoice_payment_status_by_hash has_app has_fanout H hash resume ins"
  "payment_hash_from_request parse (ln_request_str request) = Inl message \<Longrightarrow>
   ln_invoice_payment_status_by_payment_request parse has_app has_fanout H request resume ins = [error_payload message]"
  "ln_invoice_payment_status = ln_invoice_payment_status_by_payment_request"
  by (simp_all add: ln_invoice_payment_status_by_payment_request_def ln_invoice_payment_status_by_hash_def
      ln_invoice_payment_status_def build_status_stream_def fun_eq_iff)

section \<open>The shape of a stream\<close>

definition pending_payload :: "stream_cfg \<Rightarrow> status_payload" where
  "pending_payload C =
     \<lparr>stp_errors = [], stp_payment_hash = Some (sc_hash C), stp_payment_preimage = None,
      stp_payment_request = None, stp_status = Some StPending\<rparr>"

text \<open>A payload that may end a stream.\<close>

definition final_payload :: "stream_cfg \<Rightarrow> status_payload \<Rightarrow> bool" where
  "final_payload C p \<longleftrightarrow>
     (\<exists>msg. p = error_payload msg) \<or>
     (stp_errors p = [] \<and> stp_payment_hash p = Some (sc_hash C) \<and>
      (stp_status p = Some StPaid \<or>
       stp_status p = Some StExpired \<and> stp_payment_preimage p = None \<and> stp_payment_request p = None))"

definition running_out :: "stream_cfg \<Rightarrow> st_state \<Rightarrow> bool" where
  "running_out C s \<longleftrightarrow>
     st_out s = [] \<and> se_last (st_emitter s) = None \<or>
     st_out s = [pending_payload C] \<and> se_last (st_emitter s) = Some StPending"

definition ended_out :: "stream_cfg \<Rightarrow> st_state \<Rightarrow> bool" where
  "ended_out C s \<longleftrightarrow>
     st_out s = [] \<or> st_out s = [pending_payload C] \<or>
     (\<exists>p. final_payload C p \<and> (st_out s = [p] \<or> st_out s = [pending_payload C, p]))"

definition stream_shape :: "stream_cfg \<Rightarrow> st_state \<Rightarrow> bool" where
  "stream_shape C s \<longleftrightarrow> (if st_phase s = SEnd then ended_out C s else running_out C s)"

lemma running_ended: "running_out C s \<Longrightarrow> ended_out C (s\<lparr>st_phase := SEnd\<rparr>)"
  by (auto simp: running_out_def ended_out_def)

lemma running_phase [simp]: "running_out C (s\<lparr>st_phase := p\<rparr>) = running_out C s"
  "running_out C (s\<lparr>st_cursor := c\<rparr>) = running_out C s"
  by (simp_all add: running_out_def)

lemma shape_next: "running_out C s \<Longrightarrow> stream_shape C (s\<lparr>st_phase := p\<rparr>)"
  using running_ended by (auto simp: stream_shape_def)

lemma build_payload_final: "is_terminal status \<Longrightarrow> final_payload C (build_payload (sc_hex C) status (sc_hash C) i)"
  by (cases status; cases i) (simp_all add: final_payload_def build_payload_def is_terminal_def)

lemma build_payload_pending: "build_payload (sc_hex C) StPending (sc_hash C) i = pending_payload C"
  by (simp add: build_payload_def pending_payload_def)

lemma send_status_running:
  assumes "running_out C s" and "send_status C status i sent s = (accepted, s')"
  shows "ended_out C s'" and "accepted \<Longrightarrow> \<not> is_terminal status \<Longrightarrow> running_out C s'"
proof -
  from assms have "ended_out C s' \<and> (accepted \<longrightarrow> \<not> is_terminal status \<longrightarrow> running_out C s')"
    using build_payload_final [of status C i] build_payload_pending [of C i]
    by (cases status)
      (auto simp: send_status_def emitter_next_def running_out_def ended_out_def is_terminal_def split: if_splits)
  then show "ended_out C s'" and "accepted \<Longrightarrow> \<not> is_terminal status \<Longrightarrow> running_out C s'" by blast+
qed

lemma emit_for_event_running:
  assumes "running_out C s" and "emit_for_event C e found sent s = (f, s')"
  shows "f = FlowContinue \<Longrightarrow> running_out C s'" and "ended_out C s'"
proof -
  have "(f = FlowContinue \<longrightarrow> running_out C s') \<and> ended_out C s'"
  proof (cases "status_from_event e")
    case None
    with assms show ?thesis using running_ended [of C s] by (auto simp: emit_for_event_def ended_out_def)
  next
    case (Some status)
    show ?thesis
    proof (cases "fst (emitter_next status (st_emitter s)) = None")
      case True
      with assms Some show ?thesis using running_ended [of C s] by (auto simp: emit_for_event_def ended_out_def)
    next
      case False
      let ?i = "if status = StPaid then lookup_invoice found else None"
      obtain accepted t where t: "send_status C status ?i sent s = (accepted, t)" by fastforce
      with assms(2) Some False have "s' = t" "f = FlowContinue \<longleftrightarrow> accepted \<and> \<not> is_terminal status"
        by (auto simp: emit_for_event_def Let_def split: if_splits)
      with send_status_running [OF assms(1) t] show ?thesis by blast
    qed
  qed
  then show "f = FlowContinue \<Longrightarrow> running_out C s'" and "ended_out C s'" by blast+
qed

lemma after_flow_shape:
  assumes "running_out C s"
  shows "stream_shape C (after_flow p (emit_for_event C e found sent s))"
proof -
  obtain f s' where r: "emit_for_event C e found sent s = (f, s')" by fastforce
  show ?thesis
    using emit_for_event_running [OF assms r] r
    by (cases f) (auto simp: after_flow_def shape_next stream_shape_def ended_out_def)
qed

lemma fresh_shape: "running_out C s \<Longrightarrow> stream_shape C (fresh_step C found now sent s)"
  and derive_shape: "running_out C s \<Longrightarrow> stream_shape C (derive_step C found now sent s)"
proof -
  assume s: "running_out C s"
  let ?st = "derived_status (lookup_invoice found) now"
  obtain a t where t: "send_status C ?st (lookup_invoice found) sent s = (a, t)" by fastforce
  have e: "ended_out C (t\<lparr>st_phase := SEnd\<rparr>)"
    using send_status_running(1) [OF s t] by (simp add: ended_out_def)
  with send_status_running(2) [OF s t] t show "stream_shape C (fresh_step C found now sent s)"
    by (auto simp: fresh_step_def Let_def stream_shape_def)
  from e s t show "stream_shape C (derive_step C found now sent s)"
    by (auto simp: derive_step_def Let_def stream_shape_def)
qed

lemma stream_shape_step: "stream_shape C s \<Longrightarrow> stream_shape C (status_step C i s)"
proof -
  assume shape: "stream_shape C s"
  show ?thesis
  proof (cases "st_phase s")
    case SFresh
    with shape show ?thesis
      by (cases i) (auto simp: status_step_def stream_shape_def [of C s] fresh_shape)
  next
    case (SDrain resume)
    with shape have s: "running_out C s" by (simp add: stream_shape_def)
    then have "ended_out C (s\<lparr>st_phase := SEnd, st_out := st_out s @ [error_payload msg]\<rparr>)" for msg
      by (auto simp: running_out_def ended_out_def final_payload_def)
    with s shape SDrain show ?thesis
      by (cases i) (auto simp: status_step_def drain_step_def Let_def shape_next stream_shape_def [of _ "_\<lparr>st_out := _\<rparr>"]
          split: sum.split)
  next
    case (SFetch resume)
    with shape show ?thesis
      by (cases i) (auto simp: status_step_def st_fetch_step_def stream_shape_def [of C s] shape_next split: sum.split list.split)
  next
    case (SPage resume batch)
    with shape show ?thesis
      by (cases i) (auto simp: status_step_def st_event_step_def stream_shape_def [of C s] shape_next after_flow_shape Let_def
          split: list.split)
  next
    case SDerive
    with shape show ?thesis
      by (cases i) (auto simp: status_step_def stream_shape_def [of C s] derive_shape)
  next
    case SLive
    with shape show ?thesis
      by (cases i) (auto simp: status_step_def recv_step_def stream_shape_def [of C s] shape_next after_flow_shape Let_def
          stream_shape_def [of C "_\<lparr>st_cursor := _\<rparr>"])
  next
    case SEnd
    with shape show ?thesis by (simp add: status_step_def)
  qed
qed

lemma stream_shape_fold: "stream_shape C s \<Longrightarrow> stream_shape C (fold (status_step C) ins s)"
  by (induction ins arbitrary: s) (simp_all add: stream_shape_step)

section \<open>What a PAID rests on\<close>

definition paid_event :: "stream_cfg \<Rightarrow> outbox_event \<Rightarrow> bool" where
  "paid_event C ev \<longleftrightarrow> ob_reference_id ev = sc_reference C \<and> status_from_event (ob_domain_event ev) = Some StPaid"

text \<open>An input from which the stream may learn that its invoice is paid.\<close>

definition paid_evidence :: "stream_cfg \<Rightarrow> 'es st_input \<Rightarrow> bool" where
  "paid_evidence C i \<longleftrightarrow>
     (case i of
        StFresh found now sent \<Rightarrow> (\<exists>x. found = Inr (Some x) \<and> inv_state x = Settled)
      | StDerive found now sent \<Rightarrow> (\<exists>x. found = Inr (Some x) \<and> inv_state x = Settled)
      | StRecv ev found sent \<Rightarrow> paid_event C ev
      | StFetch db \<Rightarrow> (\<exists>rows ev. db = Inr rows \<and> row_event (set rows) ev \<and> paid_event C ev)
      | _ \<Rightarrow> False)"

fun st_page :: "st_phase \<Rightarrow> outbox_event list" where
  "st_page (SPage resume batch) = batch"
| "st_page _ = []"

text \<open>\<open>E\<close> says that there was evidence.\<close>

definition paid_inv :: "stream_cfg \<Rightarrow> bool \<Rightarrow> st_state \<Rightarrow> bool" where
  "paid_inv C E s \<longleftrightarrow>
     (\<forall>p \<in> set (st_out s). stp_status p = Some StPaid \<longrightarrow> E) \<and>
     (\<forall>ev \<in> set (st_page (st_phase s)). paid_event C ev \<longrightarrow> E)"

lemma paid_inv_phase: "paid_inv C E s \<Longrightarrow> \<forall>ev \<in> set (st_page p). paid_event C ev \<longrightarrow> E \<Longrightarrow> paid_inv C E (s\<lparr>st_phase := p\<rparr>)"
  by (simp add: paid_inv_def)

lemma paid_inv_cursor [simp]: "paid_inv C E (s\<lparr>st_cursor := c\<rparr>) = paid_inv C E s"
  by (simp add: paid_inv_def)

lemma build_payload_status [simp]: "stp_status (build_payload H status h i) = Some status"
  by (cases status; cases i) (simp_all add: build_payload_def)

lemma send_status_paid:
  "paid_inv C E s \<Longrightarrow> (status = StPaid \<longrightarrow> E) \<Longrightarrow> paid_inv C E (snd (send_status C status i sent s))"
  by (auto simp: send_status_def paid_inv_def emitter_next_def)

lemma emit_for_event_paid:
  assumes "paid_inv C E s" and "status_from_event e = Some StPaid \<longrightarrow> E"
  shows "paid_inv C E (snd (emit_for_event C e found sent s))"
proof (cases "status_from_event e")
  case None
  with assms show ?thesis by (simp add: emit_for_event_def)
next
  case (Some status)
  let ?r = "send_status C status (if status = StPaid then lookup_invoice found else None) sent s"
  have "snd (emit_for_event C e found sent s) \<in> {s, snd ?r}"
    by (cases ?r) (simp add: emit_for_event_def Some Let_def)
  moreover have "paid_inv C E (snd ?r)" using assms Some by (intro send_status_paid) auto
  ultimately show ?thesis using assms(1) by auto
qed

lemma after_flow_paid:
  "paid_inv C E (snd r) \<Longrightarrow> \<forall>ev \<in> set (st_page p). paid_event C ev \<longrightarrow> E \<Longrightarrow> paid_inv C E (after_flow p r)"
  by (cases r; cases "fst r") (auto simp: after_flow_def intro: paid_inv_phase)

lemma derived_paid:
  "derived_status (lookup_invoice found) now = StPaid \<Longrightarrow> \<exists>x. found = Inr (Some x) \<and> inv_state x = Settled"
  by (auto simp: derived_status_def initial_status_def lookup_invoice_def
      split: sum.splits option.splits invoice_state.splits if_splits)

lemma paid_inv_step:
  assumes inv: "paid_inv C E s"
  shows "paid_inv C (E \<or> paid_evidence C i) (status_step C i s)"
proof -
  let ?E = "E \<or> paid_evidence C i"
  have s: "paid_inv C ?E s" using inv by (auto simp: paid_inv_def)
  have idle: "paid_inv C ?E (s\<lparr>st_phase := p\<rparr>)" if "st_page p = []" for p
    using s that by (simp add: paid_inv_def)
  show ?thesis
  proof (cases i)
    case (StFresh found now sent)
    let ?st = "derived_status (lookup_invoice found) now"
    have "paid_inv C ?E (snd (send_status C ?st (lookup_invoice found) sent s))"
      by (rule send_status_paid [OF s]) (use StFresh in \<open>auto simp: paid_evidence_def dest: derived_paid\<close>)
    with s StFresh show ?thesis
      by (cases "st_phase s") (auto simp: status_step_def fresh_step_def Let_def paid_inv_def split: prod.split)
  next
    case (StDerive found now sent)
    let ?st = "derived_status (lookup_invoice found) now"
    have "paid_inv C ?E (snd (send_status C ?st (lookup_invoice found) sent s))"
      by (rule send_status_paid [OF s]) (use StDerive in \<open>auto simp: paid_evidence_def dest: derived_paid\<close>)
    with s StDerive show ?thesis
      by (cases "st_phase s") (auto simp: status_step_def derive_step_def Let_def paid_inv_def)
  next
    case (StFetch db)
    have "\<forall>ev \<in> set evs. paid_event C ev \<longrightarrow> paid_evidence C i"
      if "db = Inr rows" "fetch_after_batch rows (st_cursor s) = Inr evs" for rows evs
      using fetch_after_batch_rows [OF that(2)] that(1) StFetch by (auto simp: paid_evidence_def)
    with s StFetch show ?thesis
      by (cases "st_phase s"; cases db)
        (auto simp: status_step_def st_fetch_step_def drained_def paid_inv_def split: sum.split list.split)
  next
    case (StEvent found sent)
    show ?thesis
    proof (cases "st_phase s")
      case (SPage resume batch)
      then have batch: "\<forall>ev \<in> set batch. paid_event C ev \<longrightarrow> ?E" using s by (simp add: paid_inv_def)
      show ?thesis
      proof (cases batch)
        case (Cons ev rest)
        let ?t = "s\<lparr>st_cursor := ob_sequence ev\<rparr>"
        let ?p = "if rest = [] then SFetch resume else SPage resume rest"
        have "paid_inv C ?E (after_flow ?p (emit_for_event C (ob_domain_event ev) found sent ?t))"
          if "ob_reference_id ev = sc_reference C"
          using s batch Cons that by (intro after_flow_paid emit_for_event_paid) (auto simp: paid_event_def)
        moreover have "paid_inv C ?E (?t\<lparr>st_phase := ?p\<rparr>)"
          using s batch Cons by (intro paid_inv_phase) auto
        ultimately show ?thesis
          using StEvent SPage Cons by (simp add: status_step_def st_event_step_def Let_def)
      qed (use s StEvent SPage in \<open>simp add: status_step_def st_event_step_def paid_inv_def\<close>)
    qed (use s StEvent in \<open>simp_all add: status_step_def\<close>)
  next
    case (StRecv ev found sent)
    have "paid_inv C ?E (after_flow SLive (emit_for_event C (ob_domain_event ev) found sent (s\<lparr>st_cursor := ob_sequence ev\<rparr>)))"
      if "ob_reference_id ev = sc_reference C"
      using s StRecv that
      by (intro after_flow_paid emit_for_event_paid) (auto simp: paid_event_def paid_evidence_def)
    with s StRecv show ?thesis by (cases "st_phase s") (simp_all add: status_step_def recv_step_def Let_def)
  next
    case (StCount db)
    with s show ?thesis
      by (cases "st_phase s"; cases db)
        (auto simp: status_step_def drain_step_def Let_def paid_inv_def error_payload_def)
  qed (use s idle in \<open>cases "st_phase s"; simp add: status_step_def\<close>)+
qed

lemma paid_inv_fold:
  "paid_inv C E s \<Longrightarrow> paid_inv C (E \<or> (\<exists>i \<in> set ins. paid_evidence C i)) (fold (status_step C) ins s)"
proof (induction ins arbitrary: E s)
  case (Cons i ins)
  from Cons.IH [OF paid_inv_step [OF Cons.prems, of i]] show ?case by (simp add: disj_assoc)
qed simp

text \<open>A subscriber of an open invoice, the row that settles it and a row of another invoice.\<close>

definition missed_cfg :: stream_cfg where
  "missed_cfg = \<lparr>sc_hex = ref_hex, sc_hash = PaymentHash [7]\<rparr>"

definition open_invoice :: "unit invoice" where
  "open_invoice = \<lparr>inv_id = InvoiceId 1, inv_payment_hash = PaymentHash [7], inv_payment_preimage = Preimage [9],
     inv_wallet_id = WalletId 5, inv_amount_msat = Some (MilliSatoshi 1000), inv_expiry_at = Timestamp 100,
     inv_bolt_invoice = BoltInvoice ''lnbc'', inv_external_id = ''x'', inv_state = Open, inv_created_at = Timestamp 0,
     inv_held_amount_msat = None, inv_canceled_reason = None, inv_events = ()\<rparr>"

definition missed_subscribe :: "unit st_input" where
  "missed_subscribe = StFresh (Inr (Some open_invoice)) (Timestamp 10) True"

definition settled_new :: new_outbox_event where
  "settled_new = for_lightning_invoice_settled ''c1'' (sc_reference missed_cfg) 1 (Timestamp 20) JNull"

definition missed_rows :: "outbox_row list" where
  "missed_rows = [publish_row 1 settled_new, publish_row 2 demo_event]"

definition settled_event :: outbox_event where
  "settled_event = \<lparr>ob_sequence = 1, ob_correlation_id = ''c1'', ob_domain_event = LightningInvoiceSettled,
     ob_event_type = to_standardized LightningInvoiceSettled, ob_reference_id = sc_reference missed_cfg,
     ob_amount_sat = 1, ob_timestamp = Timestamp 20, ob_gateway_metadata = JNull\<rparr>"

definition other_event :: outbox_event where
  "other_event = \<lparr>ob_sequence = 2, ob_correlation_id = ''c1'', ob_domain_event = LightningHtlcHeld,
     ob_event_type = to_standardized LightningHtlcHeld, ob_reference_id = ''hash'',
     ob_amount_sat = 5, ob_timestamp = Timestamp 0, ob_gateway_metadata = JNull\<rparr>"

text \<open>What the connection task sends, as the ingest loop of the fan-out receives it.\<close>

definition ingest_of :: "table \<Rightarrow> outbox_error + i64 \<Rightarrow> ingest_obs" where
  "ingest_of db x = (case x of Inr n \<Rightarrow> InSequence n db | Inl e \<Rightarrow> InError e)"

section \<open>Properties\<close>

text \<open>C35. The shape of a status stream: whatever the lookups, the queries, the fan-out and the subscriber
  do, a stream sends at most one \<open>PENDING\<close> and then at most one last payload, which is \<open>PAID\<close>, \<open>EXPIRED\<close> or
  an error and ends the stream; only \<open>PAID\<close> carries a preimage or a payment request.\<close>

theorem status_stream_shape:
  "\<exists>front end. st_out (run_status_stream C resume ins) = front @ end \<and>
     (front = [] \<or> front = [pending_payload C]) \<and>
     (end = [] \<or> (\<exists>p. end = [p] \<and> final_payload C p \<and> st_phase (run_status_stream C resume ins) = SEnd))"
proof -
  let ?s = "run_status_stream C resume ins"
  have "stream_shape C (status_start resume)"
    by (simp add: stream_shape_def status_start_def running_out_def split: option.split)
  then have "stream_shape C ?s" by (simp add: run_status_stream_def stream_shape_fold)
  then consider "st_out ?s = []" | "st_out ?s = [pending_payload C]"
    | p where "final_payload C p" "st_phase ?s = SEnd" "st_out ?s = [p] \<or> st_out ?s = [pending_payload C, p]"
    by (auto simp: stream_shape_def running_out_def ended_out_def split: if_splits)
  then show ?thesis
  proof cases
    case 3
    then show ?thesis by (metis append_Cons append_Nil)
  qed auto
qed




end
