(* ===== verification/Graphql_Schema.thy ===== *)
theory Graphql_Schema
  imports Access Spend_Evidence Graphql_Subscription
begin

text \<open>
  The schema (\<open>api/graphql/schema.rs\<close>, \<open>api/graphql/query.rs\<close>): the data its resolvers read, with and without the
  fan-out, and the schema of \<open>bin/write_sdl.rs\<close>, whose coordinator stands on stubs only.
\<close>

section \<open>Schema data\<close>

text \<open>\<open>ctx.data\<close> of a schema: the coordinator, and the fan-out where one was injected. The registration of the
  types is async-graphql's.\<close>

record ('app, 'fanout) gateway_schema =
  gs_app :: "'app option"
  gs_fanout :: "'fanout option"

definition schema_builder :: "'app \<Rightarrow> ('app, 'fanout) gateway_schema" where
  "schema_builder app = \<lparr>gs_app = Some app, gs_fanout = None\<rparr>"

definition build_schema :: "'app \<Rightarrow> ('app, 'fanout) gateway_schema" where
  "build_schema app = schema_builder app"

definition build_schema_with_fanout :: "'app \<Rightarrow> 'fanout \<Rightarrow> ('app, 'fanout) gateway_schema" where
  "build_schema_with_fanout app fanout = (schema_builder app)\<lparr>gs_fanout := Some fanout\<rparr>"

definition query_ping :: string where
  "query_ping = ''ok''"

text \<open>A status field, as a schema serves it.\<close>

definition schema_status_by_hash ::
  "('app, 'fanout) gateway_schema \<Rightarrow> hex_codec \<Rightarrow> payment_hash \<Rightarrow> i64 option \<Rightarrow> 'es st_input list \<Rightarrow> status_payload list" where
  "schema_status_by_hash schema = ln_invoice_payment_status_by_hash (gs_app schema \<noteq> None) (gs_fanout schema \<noteq> None)"

text \<open>With the fan-out the stream runs; without it the subscriber gets one error payload.\<close>

lemma schema_status:
  "schema_status_by_hash (build_schema_with_fanout app fanout) H hash resume ins =
     st_out (run_status_stream \<lparr>sc_hex = H, sc_hash = hash\<rparr> resume ins)"
  "schema_status_by_hash (build_schema app) H hash resume ins = [error_payload ''subscription backend not configured'']"
  by (simp_all add: schema_status_by_hash_def ln_invoice_payment_status_by_hash_def build_status_stream_def
      build_schema_with_fanout_def build_schema_def schema_builder_def)

section \<open>The schema of the SDL writer\<close>

text \<open>The coordinator of \<open>main\<close>: LND is \<open>StubLnd\<close>, Symphony the boot stub, and the ownership checker the one of the
  default configuration. \<open>P\<close> and \<open>built\<close> are the router and whether an HTTP client could be built.\<close>

definition sdl_app :: "router_params \<Rightarrow> bool \<Rightarrow> (json \<Rightarrow> string option) \<Rightarrow> ('ie, 'pe, 's) env \<Rightarrow> ('ie, 'pe, 's) env" where
  "sdl_app P built ts pool =
     app_new (\<lambda>_. stub_lnd) (\<lambda>_. False) (\<lambda>_. authorize_spend ts symphony_boot_stub)
       (\<lambda>n caller wallet. map_err (ownership_error_str (rp_show_wallet P))
          (fst (ownership_check P n n caller wallet (ownership_checker_new built ownership_config_default)))) pool"

definition sdl_schema ::
  "router_params \<Rightarrow> bool \<Rightarrow> (json \<Rightarrow> string option) \<Rightarrow> ('ie, 'pe, 's) env \<Rightarrow> (('ie, 'pe, 's) env, unit) gateway_schema" where
  "sdl_schema P built ts pool = build_schema (sdl_app P built ts pool)"

lemma sdl_wired:
  "ownership_wired P (\<lambda>_. ownership_checker_new built ownership_config_default) (\<lambda>n. (n, n)) (sdl_app P built ts pool)"
  by (simp add: ownership_wired_def sdl_app_def app_new_def)

lemma sdl_refuses: "e_ownership (sdl_app P built ts pool) n caller wallet \<noteq> Inr ()"
proof -
  have "\<not> wallet_confirmed P (\<lambda>_. ownership_checker_new built ownership_config_default) (\<lambda>n. (n, n)) caller wallet"
    by (simp add: wallet_confirmed_def ownership_checker_new_def ownership_config_default_def ownership_boot_stub_def
        cached_def fetch_owned_wallets_def Let_def lookup_empty)
  with wired_confirms(2) [OF sdl_wired] show ?thesis by blast
qed

text \<open>No resolver of that schema can act, whoever asks: every mutation ends at the refused ownership check.\<close>

lemma sdl_schema_inert:
  "\<exists>app. gs_app (sdl_schema P built ts pool) = Some app \<and>
     untouched (lic_wallet_id create_in) w (snd (ln_invoice_create show_err (Some app) auth create_in w)) \<and>
     untouched (lpi_wallet_id pay_in) w (snd (ln_invoice_payment_send show_err (Some app) auth pay_in w)) \<and>
     untouched (lfi_wallet_id probe_in) w (snd (ln_invoice_fee_probe show_err (Some app) auth probe_in w))"
  unfolding resolver_world
  by (rule exI [of _ "sdl_app P built ts pool"])
    (auto simp: sdl_schema_def build_schema_def schema_builder_def create_request_def pay_request_of_def
      fee_probe_request_of_def Let_def
      intro: refused_untouched [OF sdl_refuses, where auth = "ctx_caller_auth auth"])

end
