(* ===== verification/Boot.thy ===== *)
theory Boot
  imports Symphony Auth Grpc_Service
begin

text \<open>
  The start of the process (\<open>src/cli.rs\<close>, \<open>src/cli/\<close>, \<open>src/server/\<close>, \<open>src/tracing.rs\<close>, \<open>src/health.rs\<close>): the
  configuration and its defaults, the commands, what a boot decides and in which order it can fail, and
  the entry points of the three servers. Files, YAML, connections, migrations and sockets are parameters
  that say how each of them ends. An error of \<open>anyhow\<close> is its chain, printed outermost first.
\<close>

definition with_context :: "string \<Rightarrow> string + 'a \<Rightarrow> string + 'a" where
  "with_context c r = map_err (\<lambda>e. c @ '': '' @ e) r"

lemma with_context_Inr_iff [simp]: "with_context c r = Inr x \<longleftrightarrow> r = Inr x"
  by (simp add: with_context_def)

section \<open>Configuration\<close>

record subgraph_server_config =
  sg_port :: nat
  sg_jwks_url :: string
  sg_pg_config :: string

record grpc_server_config =
  gs_port :: nat
  gs_pg_config :: string
  gs_keepalive_interval_secs :: u64
  gs_keepalive_timeout_secs :: u64
  gs_shutdown_grace_secs :: u64

record db_config =
  dc_pg_con :: string
  dc_pool_size :: u32

record lnd_config =
  lc_address :: string
  lc_cert_path :: string
  lc_macaroon_path :: string

record tracing_config =
  tc_exporter_otlp_url :: string
  tc_service_name :: string

record gateway_config =
  gc_db :: db_config
  gc_subgraph_server :: subgraph_server_config
  gc_grpc_server :: grpc_server_config
  gc_health_port :: nat
  gc_symphony_endpoint :: string
  gc_wallet_ownership :: ownership_config
  gc_lnd :: "lnd_config option"
  gc_tracing :: "tracing_config option"

definition default_graphql_port :: nat where
  "default_graphql_port = 6691"

definition default_grpc_port :: nat where
  "default_grpc_port = 6690"

definition default_jwks_url :: string where
  "default_jwks_url = ''http://localhost:4456/.well-known/jwks.json''"

definition default_health_port :: nat where
  "default_health_port = 8080"

definition default_keepalive_interval_secs :: u64 where
  "default_keepalive_interval_secs = 30"

definition default_keepalive_timeout_secs :: u64 where
  "default_keepalive_timeout_secs = 10"

definition default_shutdown_grace_secs :: u64 where
  "default_shutdown_grace_secs = 5"

definition subgraph_server_default :: subgraph_server_config where
  "subgraph_server_default =
     \<lparr>sg_port = default_graphql_port, sg_jwks_url = default_jwks_url, sg_pg_config = []\<rparr>"

definition grpc_server_default :: grpc_server_config where
  "grpc_server_default =
     \<lparr>gs_port = default_grpc_port, gs_pg_config = [], gs_keepalive_interval_secs = default_keepalive_interval_secs,
      gs_keepalive_timeout_secs = default_keepalive_timeout_secs, gs_shutdown_grace_secs = default_shutdown_grace_secs\<rparr>"

definition health_port_default :: nat where
  "health_port_default = default_health_port"

definition db_config_default :: db_config where
  "db_config_default = \<lparr>dc_pg_con = [], dc_pool_size = 20\<rparr>"

definition lnd_config_stub :: lnd_config where
  "lnd_config_stub = \<lparr>lc_address = ''stub:0'', lc_cert_path = ''/dev/null'', lc_macaroon_path = ''/dev/null''\<rparr>"

text \<open>The symphony endpoint has no default but the empty one.\<close>

definition tracing_config_default :: tracing_config where
  "tracing_config_default =
     \<lparr>tc_exporter_otlp_url = ''http://localhost:4317'', tc_service_name = ''blink-lightning-gateway-dev''\<rparr>"

definition gateway_config_default :: gateway_config where
  "gateway_config_default =
     \<lparr>gc_db = db_config_default, gc_subgraph_server = subgraph_server_default, gc_grpc_server = grpc_server_default,
      gc_health_port = health_port_default, gc_symphony_endpoint = [],
      gc_wallet_ownership = ownership_config_default, gc_lnd = None, gc_tracing = None\<rparr>"

definition config_from_path ::
  "(string \<Rightarrow> string + gateway_config) \<Rightarrow> string + string \<Rightarrow> string \<Rightarrow> string + gateway_config" where
  "config_from_path yaml file pg_con =
     bindR (with_context ''Couldn't read config file'' file) (\<lambda>body.
     bindR (if dropWhile is_space body = [] then Inr gateway_config_default
            else with_context ''Couldn't parse config file'' (yaml body)) (\<lambda>config.
     Inr (config\<lparr>gc_db := (gc_db config)\<lparr>dc_pg_con := pg_con\<rparr>\<rparr>)))"

section \<open>Boot\<close>

text \<open>What a boot meets: the outcomes of installing the subscriber, connecting to the database (by pool size
  and connection string) and migrating it, connecting to LND, parsing the endpoint of Symphony, and of
  the job service.\<close>

record boot_env =
  be_try_init :: "string + unit"
  be_connect :: "u32 \<Rightarrow> string \<Rightarrow> string + unit"
  be_migrate :: "string + unit"
  be_lnd_connect :: "lnd_config \<Rightarrow> string + unit"
  be_connect_lazy :: "string \<Rightarrow> string + unit"
  be_jobs_config :: "string + unit"
  be_jobs_init :: "string + unit"
  be_start_poll :: "string + unit"
  be_spawn :: "string \<Rightarrow> string + unit"

definition init_fmt_subscriber :: "boot_env \<Rightarrow> string + unit" where
  "init_fmt_subscriber B = map_err (\<lambda>e. ''failed to init tracing subscriber: '' @ e) (be_try_init B)"

text \<open>The exporter is not wired: the configuration is only printed.\<close>

definition init_tracer :: "boot_env \<Rightarrow> tracing_config \<Rightarrow> string + unit" where
  "init_tracer B config = init_fmt_subscriber B"

definition run_migrations :: "boot_env \<Rightarrow> db_config \<Rightarrow> string + unit" where
  "run_migrations B config = bindR (be_connect B 1 (dc_pg_con config)) (\<lambda>_. be_migrate B)"

definition init_pool :: "boot_env \<Rightarrow> db_config \<Rightarrow> string + unit" where
  "init_pool B config = bindR (be_connect B (dc_pool_size config) (dc_pg_con config)) (\<lambda>_. be_migrate B)"

text \<open>What a boot starts with: the mode of the LND client, the jobs, the ownership checker and the
  configurations of the two servers that listen on the outbox.\<close>

record boot_plan =
  bp_lnd_connected :: bool
  bp_jobs :: "string list"
  bp_ownership :: checker
  bp_grpc :: grpc_server_config
  bp_graphql :: subgraph_server_config

definition boot_lnd :: "boot_env \<Rightarrow> gateway_config \<Rightarrow> string + bool" where
  "boot_lnd B config =
     (case gc_lnd config of
        Some lnd \<Rightarrow>
          bindR (map_err (\<lambda>e. ''failed to connect to LND at '' @ lc_address lnd @ '': '' @ e) (be_lnd_connect B lnd))
            (\<lambda>_. Inr True)
      | None \<Rightarrow> Inr False)"

definition boot_job_names :: "bool \<Rightarrow> string list" where
  "boot_job_names has_lnd =
     (if has_lnd
      then [''invoice_subscription_recovery_sweep'', ''invoice_reconciliation_sweep'', ''orphan_hold_sweep''] else [])"

fun spawn_jobs :: "boot_env \<Rightarrow> string list \<Rightarrow> string + unit" where
  "spawn_jobs B [] = Inr ()"
| "spawn_jobs B (j # js) = bindR (with_context (''spawn_unique '' @ j) (be_spawn B j)) (\<lambda>_. spawn_jobs B js)"

definition run_cmd_boot :: "boot_env \<Rightarrow> bool \<Rightarrow> gateway_config \<Rightarrow> string + boot_plan" where
  "run_cmd_boot B http_client_built config =
     bindR (init_pool B (gc_db config)) (\<lambda>_.
     bindR (boot_lnd B config) (\<lambda>has_lnd.
     bindR (map_err (\<lambda>e. ''symphony config invalid: '' @ e) (symphony_config_validate (gc_symphony_endpoint config))) (\<lambda>_.
     bindR (be_connect_lazy B (gc_symphony_endpoint config)) (\<lambda>_.
     bindR (map_err (\<lambda>e. ''build JobSvcConfig: '' @ e) (be_jobs_config B)) (\<lambda>_.
     bindR (be_jobs_init B) (\<lambda>_.
     bindR (with_context ''Jobs::start_poll'' (be_start_poll B)) (\<lambda>_.
     bindR (spawn_jobs B (boot_job_names has_lnd)) (\<lambda>_.
     Inr \<lparr>bp_lnd_connected = has_lnd, bp_jobs = boot_job_names has_lnd,
          bp_ownership = ownership_checker_new http_client_built (gc_wallet_ownership config),
          bp_grpc = (gc_grpc_server config)\<lparr>gs_pg_config := dc_pg_con (gc_db config)\<rparr>,
          bp_graphql = (gc_subgraph_server config)\<lparr>sg_pg_config := dc_pg_con (gc_db config)\<rparr>\<rparr>))))))))"

datatype cli_command = Migrate

text \<open>What \<open>run\<close> comes to once its checks pass: the migrations are done, or the tasks of \<open>run_cmd\<close> start.\<close>

datatype cli_outcome = Migrated | Booted boot_plan

definition migrate_cmd :: "boot_env \<Rightarrow> gateway_config \<Rightarrow> string + cli_outcome" where
  "migrate_cmd B config = bindR (run_migrations B (gc_db config)) (\<lambda>_. Inr Migrated)"

definition cli_run ::
  "(string \<Rightarrow> string + gateway_config) \<Rightarrow> boot_env \<Rightarrow> bool \<Rightarrow> string + string \<Rightarrow> string \<Rightarrow> cli_command option \<Rightarrow>
   string + cli_outcome" where
  "cli_run yaml B http_client_built file pg_con command =
     (if dropWhile is_space pg_con = [] then Inl ''PG_CON / --pg-con must not be empty''
      else
        bindR (config_from_path yaml file pg_con) (\<lambda>config.
        bindR (case gc_tracing config of Some tc \<Rightarrow> init_tracer B tc | None \<Rightarrow> init_fmt_subscriber B) (\<lambda>_.
        case command of
          Some Migrate \<Rightarrow> migrate_cmd B config
        | None \<Rightarrow> bindR (run_cmd_boot B http_client_built config) (\<lambda>plan. Inr (Booted plan)))))"

section \<open>The servers\<close>

datatype server_error = SeTransport string | SeBind string | SeOutbox outbox_error

fun outbox_error_text :: "outbox_error \<Rightarrow> string" where
  "outbox_error_text (Db e) = e"
| "outbox_error_text (UnknownEventType t) = ''unknown gateway domain-event type: '' @ t"
| "outbox_error_text (Metadata e) = ''outbox metadata serialization failed: '' @ e"
| "outbox_error_text ListenDisconnected = ''LISTEN connection lost''"
| "outbox_error_text (Configuration e) = ''outbox listener configuration error: '' @ e"

fun server_error_text :: "server_error \<Rightarrow> string" where
  "server_error_text (SeTransport e) = ''gRPC transport error: '' @ e"
| "server_error_text (SeBind e) = ''listener bind error: '' @ e"
| "server_error_text (SeOutbox e) = ''outbox subsystem error: '' @ outbox_error_text e"

text \<open>\<open>serve\<close>, \<open>bind\<close>: how serving until the token is cancelled, and binding a port, end.\<close>

definition run_grpc_server :: "(nat \<Rightarrow> string + unit) \<Rightarrow> grpc_server_config \<Rightarrow> server_error + unit" where
  "run_grpc_server serve config =
     bindR (map_err SeOutbox (gateway_service_new (gs_pg_config config))) (\<lambda>_.
     map_err SeTransport (serve (gs_port config)))"

definition run_graphql_server ::
  "(nat \<Rightarrow> string + unit) \<Rightarrow> (nat \<Rightarrow> string + unit) \<Rightarrow> subgraph_server_config \<Rightarrow> server_error + unit" where
  "run_graphql_server bind serve config =
     bindR (map_err SeOutbox (fanout_start (sg_pg_config config))) (\<lambda>_.
     bindR (map_err SeBind (bind (sg_port config))) (\<lambda>_.
     map_err SeBind (serve (sg_port config))))"

definition health_run :: "(nat \<Rightarrow> string + unit) \<Rightarrow> (nat \<Rightarrow> string + unit) \<Rightarrow> nat \<Rightarrow> server_error + unit" where
  "health_run bind serve port =
     bindR (map_err SeBind (bind port)) (\<lambda>_. map_err SeBind (serve port))"

section \<open>Health probes (health.rs)\<close>

datatype probe_result = ProbeOk | ProbeFailed | ProbeTimeout

definition check_postgres :: "probe_result \<Rightarrow> nat" where
  "check_postgres r = (case r of ProbeOk \<Rightarrow> 200 | ProbeFailed \<Rightarrow> 503 | ProbeTimeout \<Rightarrow> 503)"

text \<open>The routes; None: the router's own answer to an unknown path.\<close>

definition health_route :: "string \<Rightarrow> probe_result \<Rightarrow> nat option" where
  "health_route path probe =
     (if path = ''/health/startup'' then Some (check_postgres probe)
      else if path = ''/health/live'' then Some 200
      else if path = ''/health/ready'' then Some (check_postgres probe)
      else None)"

section \<open>What a boot guarantees\<close>

text \<open>A booted gateway has a connection string that both listening servers accept, a symphony endpoint,
  and the sweeps exactly when it is connected to LND.\<close>

lemma booted_gateway:
  assumes "cli_run yaml B built file pg_con command = Inr (Booted plan)"
  shows "gateway_service_new (gs_pg_config (bp_grpc plan)) = Inr ()" "fanout_start (sg_pg_config (bp_graphql plan)) = Inr ()"
    "bp_jobs plan = boot_job_names (bp_lnd_connected plan)"
  using assms
  by (auto simp: cli_run_def config_from_path_def run_cmd_boot_def migrate_cmd_def bindR_Inr_iff gateway_service_new_def
      fanout_start_def listen_validate_def split: if_splits option.splits cli_command.splits)

text \<open>Its servers fail on the network only, never on the configuration of the outbox listener.\<close>

lemma booted_servers_fail_on_network:
  assumes "cli_run yaml B built file pg_con command = Inr (Booted plan)"
  shows "run_grpc_server serve (bp_grpc plan) = map_err SeTransport (serve (gs_port (bp_grpc plan)))"
    "run_graphql_server bind serve (bp_graphql plan) \<noteq> Inl (SeOutbox e)"
  using booted_gateway [OF assms]
  by (auto simp: run_grpc_server_def run_graphql_server_def bindR_def map_err_def split: sum.split)

text \<open>No gateway boots without a database, an endpoint for Symphony, or the node it is configured for.\<close>

lemma boot_needs:
  assumes "run_cmd_boot B built config = Inr plan"
  shows "init_pool B (gc_db config) = Inr ()" "symphony_config_validate (gc_symphony_endpoint config) = Inr ()"
    "bp_lnd_connected plan \<longleftrightarrow> gc_lnd config \<noteq> None"
  using assms
  by (auto simp: run_cmd_boot_def bindR_Inr_iff boot_lnd_def split: option.splits)

end
