(* ===== verification/Supervisor.thy ===== *)
theory Supervisor
  imports App_Invoices App_Payments Boot
begin

text \<open>
  The running process (\<open>src/cli.rs\<close>): the consumers of LND's updates, and the supervisor with its one-slot
  channel, its shutdown signal and the drain of its tasks. A panic ends a task without a report.
\<close>

section \<open>The consumers of LND's updates\<close>

text \<open>How a task ends: with a report to the supervisor, or by a panic.\<close>

datatype task_end = Reports "string + unit" | Panics

datatype 'u consumer_obs = CoCancelled | CoUpdate 'u | CoSendersGone bool

text \<open>The flag of \<open>CoSendersGone\<close>: whether the token is cancelled by then. An error of the handler is logged.
  No end while observations run out: the task is still waiting.\<close>

fun invoice_consumer ::
  "('ie, 'pe, 's) env \<Rightarrow> invoice_update consumer_obs list \<Rightarrow> 's world \<Rightarrow> task_end option \<times> 's world" where
  "invoice_consumer env [] w = (None, w)"
| "invoice_consumer env (CoCancelled # _) w = (Some (Reports (Inr ())), w)"
| "invoice_consumer env (CoSendersGone cancelled # _) w =
     (Some (Reports (if cancelled then Inr ()
        else Inl ''invoice-update consumer exited: every listener Sender dropped'')), w)"
| "invoice_consumer env (CoUpdate u # obs) w =
     (case handle_invoice_update env u w of
        (Inl (AppPanic _), w') \<Rightarrow> (Some Panics, w')
      | (_, w') \<Rightarrow> invoice_consumer env obs w')"

fun payment_consumer ::
  "('ie, 'pe, 's) env \<Rightarrow> payment_update consumer_obs list \<Rightarrow> 's world \<Rightarrow> 's world" where
  "payment_consumer env [] w = w"
| "payment_consumer env (CoCancelled # _) w = w"
| "payment_consumer env (CoSendersGone _ # _) w = w"
| "payment_consumer env (CoUpdate u # obs) w =
     (case handle_payment_update env u w of
        (Inl (AppPanic _), w') \<Rightarrow> w'
      | (_, w') \<Rightarrow> payment_consumer env obs w')"

definition payment_task_result :: "bool \<Rightarrow> string + unit \<Rightarrow> string + unit" where
  "payment_task_result cancelled producer_result =
     (if cancelled then Inr ()
      else case producer_result of
        Inr _ \<Rightarrow> Inl ''LND payment-subscription producer exited without cancellation''
      | Inl e \<Rightarrow> with_context ''LND payment-subscription producer error'' (Inl e))"

section \<open>The supervisor\<close>

datatype task = GrpcTask | GraphqlTask | HealthTask | InvoiceConsumer | PaymentSubscription | SignalHandler

definition task_handles :: "task list" where
  "task_handles = [GrpcTask, GraphqlTask, HealthTask, InvoiceConsumer, PaymentSubscription, SignalHandler]"

datatype task_state = Running | Ended | Aborted

datatype signal_state = SigWaiting | SigGrace | SigDone

datatype sv_phase = SvWaiting | SvDraining "task list" | SvFinished

text \<open>\<open>sv_reports\<close> is ghost state: every report, in order.\<close>

record supervisor =
  sv_tasks :: "task \<Rightarrow> task_state"
  sv_signal :: signal_state
  sv_slot :: "(string + unit) option"
  sv_reports :: "(string + unit) list"
  sv_reason :: "(string + unit) option"
  sv_cancelled :: bool
  sv_serving :: bool
  sv_phase :: sv_phase

datatype sv_event =
    TaskEnds task task_end
  | SignalInstall "string + unit" "string + unit"
  | SignalReceived
  | GraceElapsed
  | SupervisorRecv
  | HandleDone
  | HandleTimeout
  | JobsShutdown

text \<open>Installing the two handlers; the wait itself is the event \<open>SignalReceived\<close>.\<close>

definition install_signals :: "string + unit \<Rightarrow> string + unit \<Rightarrow> string + unit" where
  "install_signals sigterm sigint =
     bindR (with_context ''install SIGTERM handler'' sigterm) (\<lambda>_. with_context ''install SIGINT handler'' sigint)"

definition report_exit :: "string + unit \<Rightarrow> supervisor \<Rightarrow> supervisor" where
  "report_exit r s =
     s\<lparr>sv_reports := sv_reports s @ [r],
       sv_slot := (case sv_slot s of None \<Rightarrow> Some r | Some r' \<Rightarrow> Some r')\<rparr>"

definition end_task :: "task \<Rightarrow> task_end \<Rightarrow> supervisor \<Rightarrow> supervisor" where
  "end_task t e s =
     (let s' = s\<lparr>sv_tasks := (sv_tasks s)(t := Ended)\<rparr> in
      case e of Reports r \<Rightarrow> report_exit r s' | Panics \<Rightarrow> s')"

text \<open>All senders are gone when no task runs; the supervisor has dropped its own.\<close>

definition senders_gone :: "supervisor \<Rightarrow> bool" where
  "senders_gone s \<longleftrightarrow> list_all (\<lambda>t. sv_tasks s t \<noteq> Running) task_handles"

definition supervisor_recv :: "supervisor \<Rightarrow> supervisor" where
  "supervisor_recv s =
     (case sv_slot s of
        Some r \<Rightarrow> s\<lparr>sv_slot := None, sv_reason := Some r, sv_cancelled := True, sv_phase := SvDraining task_handles\<rparr>
      | None \<Rightarrow>
          if senders_gone s
          then s\<lparr>sv_reason := Some (Inl ''all server tasks exited without reporting status''), sv_phase := SvFinished\<rparr>
          else s)"

definition supervisor_step :: "sv_event \<Rightarrow> supervisor \<Rightarrow> supervisor" where
  "supervisor_step ev s =
     (case ev of
        TaskEnds t e \<Rightarrow> if t \<noteq> SignalHandler \<and> sv_tasks s t = Running then end_task t e s else s
      | SignalInstall sigterm sigint \<Rightarrow>
          if sv_tasks s SignalHandler = Running \<and> sv_signal s = SigWaiting
          then (case install_signals sigterm sigint of
                  Inl e \<Rightarrow>
                    end_task SignalHandler (Reports (with_context ''install shutdown signal handler'' (Inl e)))
                      (s\<lparr>sv_signal := SigDone\<rparr>)
                | Inr _ \<Rightarrow> s)
          else s
      | SignalReceived \<Rightarrow>
          if sv_tasks s SignalHandler = Running \<and> sv_signal s = SigWaiting
          then s\<lparr>sv_signal := SigGrace, sv_serving := False\<rparr> else s
      | GraceElapsed \<Rightarrow>
          if sv_tasks s SignalHandler = Running \<and> sv_signal s = SigGrace
          then end_task SignalHandler (Reports (Inr ())) (s\<lparr>sv_signal := SigDone, sv_cancelled := True\<rparr>) else s
      | SupervisorRecv \<Rightarrow> if sv_phase s = SvWaiting then supervisor_recv s else s
      | HandleDone \<Rightarrow>
          (case sv_phase s of
             SvDraining (t # ts) \<Rightarrow> if sv_tasks s t \<noteq> Running then s\<lparr>sv_phase := SvDraining ts\<rparr> else s
           | _ \<Rightarrow> s)
      | HandleTimeout \<Rightarrow>
          (case sv_phase s of
             SvDraining (t # ts) \<Rightarrow>
               if sv_tasks s t = Running
               then s\<lparr>sv_tasks := (sv_tasks s)(t := Aborted), sv_phase := SvDraining ts\<rparr> else s
           | _ \<Rightarrow> s)
      | JobsShutdown \<Rightarrow> if sv_phase s = SvDraining [] then s\<lparr>sv_phase := SvFinished\<rparr> else s)"

definition supervisor_start :: supervisor where
  "supervisor_start =
     \<lparr>sv_tasks = (\<lambda>_. Running), sv_signal = SigWaiting, sv_slot = None, sv_reports = [], sv_reason = None,
      sv_cancelled = False, sv_serving = True, sv_phase = SvWaiting\<rparr>"

definition supervise :: "sv_event list \<Rightarrow> supervisor" where
  "supervise evs = fold supervisor_step evs supervisor_start"

section \<open>Invariant\<close>

definition exit_reason :: "supervisor \<Rightarrow> string + unit" where
  "exit_reason s =
     (if sv_reports s = [] then Inl ''all server tasks exited without reporting status'' else hd (sv_reports s))"

definition supervisor_inv :: "supervisor \<Rightarrow> bool" where
  "supervisor_inv s \<longleftrightarrow>
     (sv_phase s = SvWaiting \<longrightarrow> sv_reason s = None \<and>
        sv_slot s = (if sv_reports s = [] then None else Some (hd (sv_reports s)))) \<and>
     (sv_phase s \<noteq> SvWaiting \<longrightarrow> sv_reason s = Some (exit_reason s)) \<and>
     (sv_phase s \<noteq> SvWaiting \<longrightarrow> sv_reports s \<noteq> [] \<or> senders_gone s) \<and>
     (sv_signal s = SigGrace \<longrightarrow> \<not> sv_serving s) \<and>
     (sv_cancelled s \<longrightarrow> \<not> sv_serving s \<or> sv_reports s \<noteq> [])"

lemma task_in_handles: "t \<in> set task_handles"
  by (cases t) (simp_all add: task_handles_def)

lemma senders_gone_iff: "senders_gone s \<longleftrightarrow> (\<forall>t. sv_tasks s t \<noteq> Running)"
  using task_in_handles by (auto simp: senders_gone_def list_all_iff)

lemma report_exit_inv: "supervisor_inv s \<Longrightarrow> sv_reports s \<noteq> [] \<or> sv_phase s = SvWaiting \<Longrightarrow> supervisor_inv (report_exit r s)"
  by (cases "sv_reports s")
    (auto simp: supervisor_inv_def report_exit_def exit_reason_def senders_gone_iff split: option.split)

lemma end_task_inv:
  assumes "supervisor_inv s" "sv_tasks s t = Running"
  shows "supervisor_inv (end_task t e s)"
proof -
  let ?s = "s\<lparr>sv_tasks := (sv_tasks s)(t := Ended)\<rparr>"
  have "supervisor_inv ?s" using assms(1) by (auto simp: supervisor_inv_def exit_reason_def senders_gone_iff)
  moreover have "sv_reports ?s \<noteq> [] \<or> sv_phase ?s = SvWaiting"
    using assms by (auto simp: supervisor_inv_def senders_gone_iff)
  ultimately show ?thesis
    using report_exit_inv [of ?s] by (simp add: end_task_def Let_def split: task_end.split)
qed

lemma supervisor_inv_step:
  assumes inv: "supervisor_inv s"
  shows "supervisor_inv (supervisor_step ev s)"
proof (cases ev)
  case (TaskEnds t e)
  with inv show ?thesis by (simp add: supervisor_step_def end_task_inv)
next
  case (SignalInstall st si)
  have "supervisor_inv (s\<lparr>sv_signal := SigDone\<rparr>)"
    using inv by (auto simp: supervisor_inv_def exit_reason_def senders_gone_iff)
  with inv SignalInstall show ?thesis by (simp add: supervisor_step_def end_task_inv split: sum.split)
next
  case SignalReceived
  with inv show ?thesis by (auto simp: supervisor_step_def supervisor_inv_def exit_reason_def senders_gone_iff)
next
  case GraceElapsed
  have "supervisor_inv (s\<lparr>sv_signal := SigDone, sv_cancelled := True\<rparr>)" if "sv_signal s = SigGrace"
    using inv that by (auto simp: supervisor_inv_def exit_reason_def senders_gone_iff)
  with inv GraceElapsed show ?thesis by (simp add: supervisor_step_def end_task_inv)
next
  case SupervisorRecv
  with inv show ?thesis
    by (auto simp: supervisor_step_def supervisor_recv_def supervisor_inv_def exit_reason_def senders_gone_iff
        split: option.split if_splits)
next
  case HandleDone
  with inv show ?thesis
    by (auto simp: supervisor_step_def supervisor_inv_def exit_reason_def senders_gone_iff
        split: sv_phase.split list.split)
next
  case HandleTimeout
  with inv show ?thesis
    by (auto simp: supervisor_step_def supervisor_inv_def exit_reason_def senders_gone_iff
        split: sv_phase.split list.split)
next
  case JobsShutdown
  with inv show ?thesis
    by (auto simp: supervisor_step_def supervisor_inv_def exit_reason_def senders_gone_iff)
qed

lemma supervisor_inv_run: "supervisor_inv (supervise evs)"
proof -
  have "supervisor_inv s \<Longrightarrow> supervisor_inv (fold supervisor_step evs s)" for s
    by (induction evs arbitrary: s) (simp_all add: supervisor_inv_step)
  moreover have "supervisor_inv supervisor_start"
    by (simp add: supervisor_inv_def supervisor_start_def)
  ultimately show ?thesis by (simp add: supervise_def)
qed

text \<open>On what the repository returns, no update makes the consumer of invoice updates panic.\<close>

lemma invoice_consumer_panic_free:
  assumes "gateway_repos (e_ies env) (e_pes env) (e_repos env)"
  shows "fst (invoice_consumer env obs w) \<noteq> Some Panics"
proof (induction obs arbitrary: w)
  case (Cons ob obs)
  have "handle_invoice_update env u w \<noteq> (Inl (AppPanic m), w')" for u m w'
    using settlement_panic_free(2) [OF assms, of u] by (metis fst_conv never_panics_def no_panic_def)
  with Cons show ?case
    by (cases ob) (auto split: prod.split sum.split app_error.split)
qed simp

text \<open>The producer of payment updates ends only when the token is cancelled, so its task never reports that
  the subscription went dark; in particular a consumer that is gone is not reported.\<close>

lemma payment_producer_ends_cancelled:
  "fst (subscribe_payments H L has_lnd cancelled as) = Some r \<Longrightarrow>
   r = Inr () \<and> (cancelled \<or> list_ex (\<lambda>a. at_cancelled a \<or> at_cancelled_after a \<or> at_cancelled_sleep a) as)"
proof -
  have "fst (subscribe_payments_loop H L as) \<Longrightarrow>
    list_ex (\<lambda>a. at_cancelled a \<or> at_cancelled_after a \<or> at_cancelled_sleep a) as"
    by (induction as) (auto simp: Let_def split: if_splits sum.splits prod.splits option.splits)
  then show "fst (subscribe_payments H L has_lnd cancelled as) = Some r \<Longrightarrow> ?thesis"
    by (auto simp: subscribe_payments_def split: if_splits prod.splits)
qed

lemma payment_task_never_dark:
  assumes "fst (subscribe_payments H L has_lnd False as) = Some r"
    and "list_ex (\<lambda>a. at_cancelled a \<or> at_cancelled_after a \<or> at_cancelled_sleep a) as \<Longrightarrow> cancelled"
  shows "payment_task_result cancelled producer_result = Inr ()"
  using payment_producer_ends_cancelled [OF assms(1)] assms(2) by (simp add: payment_task_result_def)

section \<open>Properties\<close>

text \<open>C37. The supervisor over every sequence of events: the exit reason of the process is the first report
  of a task (or the failure that no task is left and none reported); the shutdown token is cancelled only
  after the health service says \<open>NotServing\<close> or after a report; and while some task runs and none has
  reported, the supervisor waits. So a panic of a task, which reports nothing, does not end the process.\<close>

theorem supervisor_exit:
  "(sv_reason (supervise evs) = None \<or> sv_reason (supervise evs) = Some (exit_reason (supervise evs))) \<and>
   (sv_cancelled (supervise evs) \<longrightarrow> \<not> sv_serving (supervise evs) \<or> sv_reports (supervise evs) \<noteq> []) \<and>
   (sv_reports (supervise evs) = [] \<and> sv_tasks (supervise evs) t = Running \<longrightarrow>
      sv_phase (supervise evs) = SvWaiting \<and> sv_reason (supervise evs) = None)"
  using supervisor_inv_run [of evs] unfolding supervisor_inv_def senders_gone_iff by blast

theorem supervisor_exit_witness:
  "sv_phase (supervise [TaskEnds InvoiceConsumer Panics, SupervisorRecv]) = SvWaiting \<and>
   sv_tasks (supervise [TaskEnds InvoiceConsumer Panics, SupervisorRecv]) InvoiceConsumer = Ended"
proof -
  let ?evs = "[TaskEnds InvoiceConsumer Panics, SupervisorRecv]"
  have "sv_reports (supervise ?evs) = []" "sv_tasks (supervise ?evs) GrpcTask = Running"
    "sv_tasks (supervise ?evs) InvoiceConsumer = Ended"
    by code_simp+
  with supervisor_exit [of ?evs GrpcTask] show ?thesis by blast
qed

end
