(* ===== verification/Spec2Isabelle.thy ===== *)
theory Spec2Isabelle
  imports End_To_End Lnd_Evidence Durability Event_Json Graphql_Schema Supervisor
begin

text \<open>
  \<^bold>\<open>Verification of the Lightning gateway.\<close>

  The gateway issues and settles Lightning invoices and pays invoices on behalf of wallets. It
  keeps event-sourced aggregates and an outbox table in a database, drives an LND node, and asks
  the ledger service Symphony to authorize every spend. Symphony learns of everything that
  happened from the outbox. Paths below are under \<open>src/src\<close>.

  \<^bold>\<open>The parts and where they are modelled.\<close>

  \<^item> \<open>Prelude\<close>: results, the command type \<open>'w \<Rightarrow> ('e + 'a) \<times> 'w\<close> with its combinators, gRPC statuses.
  \<^item> \<open>Primitives\<close> (\<open>primitives/\<close>): 64-bit amounts, byte newtypes, column and hex codecs. The hex crate
    is the locale \<open>hex_crate\<close>, interpreted on a reference codec.
  \<^item> \<open>Fees\<close> (\<open>fees/policy.rs\<close>): the fee cap in machine arithmetic.
  \<^item> \<open>Event_Sourcing\<close>: the contract of the event container of the es-entity crate (locale \<open>es_events\<close>) and
    of a command of an event-sourced entity (locale \<open>event_sourced\<close>).
  \<^item> \<open>Invoice\<close> (\<open>invoice/\<close>) and \<open>Payment\<close> (\<open>payment/\<close>): states, events, errors, constructors, commands,
    hydration and queries; the lifecycle as an automaton on event logs (\<open>inv_log\<close>, \<open>pay_log\<close>) and
    the reachable entities (commands and reloads, in any order).
  \<^item> \<open>Outbox\<close> (\<open>outbox/entity.rs\<close>, \<open>outbox/publisher.rs\<close>): vocabularies, rows, wire form, queries.
  \<^item> \<open>Event_Json\<close>: the stored form of the events of both aggregates (locale \<open>event_column\<close>).
  \<^item> \<open>Symphony\<close> (\<open>symphony/\<close>) and \<open>Lnd\<close> (\<open>lnd/\<close>): the two clients over the answers of their RPCs, the wire
    mappings and LND's stream pumps. \<open>Lnd_Client\<close>: LND's client as an implementation of \<open>LndApi\<close> (locale
    \<open>lnd_service\<close>), connected or the stub. \<open>App_Services\<close> (\<open>App::new\<close>): the coordinator on its services.
  \<^item> \<open>App_World\<close> (\<open>app.rs\<close>, \<open>app/helpers.rs\<close>, \<open>app/decode.rs\<close>): the world the coordinator acts on. The state
    is the database, the writes of the open transaction, a step counter and a ghost trace of the
    effects (calls to LND and Symphony, commits, listener starts). The environment answers for
    everything outside: both services, ownership, clocks, random draws, failing statements, lost
    and ambiguous commits, and what other tasks do to the database between two statements.
  \<^item> \<open>App_Effects\<close>: a small program logic over the trace (\<open>emits\<close>, \<open>writes\<close>); \<open>Db_Logic\<close>: its counterpart
    for what a run keeps of the database, also beside other tasks (\<open>keeps\<close>, \<open>keeps_to\<close>).
  \<^item> \<open>Repositories\<close>: the contract of the generated repositories (locale \<open>gateway_repos\<close>) and its
    interpretation on a store with the unique keys and the optimistic concurrency of the migrations.
    \<open>Entity_Store\<close> and \<open>Outbox_Mirror\<close>: what such a store keeps of its entities, and that the outbox tells what
    the entities went through.
  \<^item> \<open>App_Payments\<close> (\<open>app/send_payment.rs\<close>, \<open>app/send_intraledger_payment.rs\<close>, \<open>app/commit_payment.rs\<close>,
    \<open>app/handle_payment_update.rs\<close>, \<open>app/sweep_orphan_holds.rs\<close>, \<open>app/fee_probe.rs\<close>) and \<open>App_Invoices\<close>
    (\<open>app/create_invoice.rs\<close>, \<open>app/commit_invoice.rs\<close>, \<open>app/settle_hold_invoice.rs\<close>,
    \<open>app/reconcile_held_invoice.rs\<close>, \<open>app/handle_invoice_update.rs\<close>): the use cases, one definition per
    function of the source (a long function is split at its early returns).
  \<^item> \<open>Jobs\<close> (\<open>job/\<close>): the initializers and the runs of the three scheduled jobs.
  \<^item> \<open>Gateway_System\<close>: one instance of the gateway as a sequence of operations (requests, updates of LND, jobs)
    in one world. Over it: \<open>End_To_End\<close> (what a subscriber sees of it), \<open>Lnd_Evidence\<close> and \<open>Spend_Evidence\<close> (what LND
    and Symphony said before it), \<open>Op_Effects\<close> and \<open>Durability\<close> (what stays of it).
  \<^item> \<open>Outbox_Listen\<close> (\<open>outbox/listen_connection.rs\<close>, \<open>outbox/fanout.rs\<close>): the reconnecting \<open>LISTEN\<close> task and
    the fan-out's ingest loop, as state machines over what they observe.
  \<^item> \<open>Grpc_Service\<close> (\<open>api/grpc/\<close>): errors as statuses, and the subscription of \<open>service.rs\<close> as a state machine
    (one input per query, send, notification, connection loss or cancellation). \<open>Grpc_Stream\<close>: that machine
    beside committing transactions, and the follower of the log that it refines.
  \<^item> \<open>Wallet\<close> (\<open>wallet/ownership.rs\<close>): the membership query, the cache with its TTL and pruning, the check.
  \<^item> \<open>Auth\<close> (\<open>server/jwks.rs\<close>, \<open>server/graphql.rs\<close>): key refresh, token validation, the request's identity.
  \<^item> \<open>Graphql_Types\<close>, \<open>Graphql_Mutation\<close>, \<open>Graphql_Subscription\<close> (\<open>api/graphql/\<close>): scalars (each an
    interpretation of the locale \<open>graphql_scalar\<close>), payloads, the resolvers over the use cases, and the
    invoice-status stream as a state machine. \<open>Access\<close>: the way from the token to the use case.
    \<open>Graphql_Schema\<close>: the data a schema gives its resolvers, and the schema of \<open>bin/write_sdl.rs\<close>.
  \<^item> \<open>Boot\<close> (\<open>cli.rs\<close> up to the spawned tasks, \<open>cli/\<close>, \<open>server/\<close>, \<open>tracing.rs\<close>, \<open>health.rs\<close>): configuration, commands,
    what a boot needs, the servers' entry points. \<open>Supervisor\<close> (the rest of \<open>cli.rs\<close>): the update consumers,
    the shutdown signal, and the supervisor with its one-slot channel and drain.

  The parts meet as in the code. A request passes \<open>Auth\<close>, then a resolver of \<open>Graphql_Mutation\<close>, which runs a use
  case of \<open>App_Payments\<close> or \<open>App_Invoices\<close> in the world of \<open>App_World\<close>; ownership there is the checker of \<open>Wallet\<close>.
  A use case commits rows of \<open>Outbox\<close>, which reach subscribers through \<open>Outbox_Listen\<close> and then \<open>Grpc_Service\<close> or
  \<open>Graphql_Subscription\<close>. LND's updates come from the pumps of \<open>Lnd\<close> through the consumers of \<open>Supervisor\<close>.

  \<^bold>\<open>What is shown.\<close>

  \<^item> Money safety of sending: every run follows one protocol (ownership, durable intent with its
    event, authorization of amount plus fee cap, LND only after an approval, outcome with its event);
    a hash that is already stored is never sent again; the hold covers the worst case; late and
    replayed verdicts change nothing; the sweep acts only on LND's verdict.
  \<^item> Safety of receiving: the preimage is released only while LND still holds the payment, the
    committed state is the one LND reported, each commit carries its event, nothing panics.
  \<^item> The aggregates: every reachable entity is the hydration of its log, logs are runs of the
    automata, the answer of every command is a function of the state, outcomes are final.
  \<^item> One instance, whatever runs in it and beside it: the books stay in order; every payment stored
    as completed and every invoice stored as settled is backed by a message of LND, and every send and every
    transfer within the gateway by an authorization of Symphony; stored history is only ever extended; no invoice is sent twice over the
    life of an instance; and a subscriber's stream is the stored history of its entities.
  \<^item> Codecs and arithmetic: stored events and wire forms round trip, exact bounds, the fee policy, wire mappings.
  \<^item> Recovery: the reconciliation loop isolates faults, the boot-time sweep restores listeners, the
    dispatcher keeps one listener per hash.
  \<^item> Delivery: what a subscriber gets is strictly increasing and was stored; paging ends; while the \<open>LISTEN\<close>
    connection stays up and commits are in order the stream refines a follower of the log that misses
    nothing; runs that show what a reconnect can lose, on gRPC and on GraphQL.
  \<^item> Access: an identity comes only from a validated token, the ownership check equals its cache-free
    specification, and a mutation does nothing but the refused check unless a verified token's subject
    owns the wallet.
  \<^item> The GraphQL surface: typed payloads, scalars that read back what they print, the amount of a created
    invoice, and status streams that end with one last payload and say \<open>PAID\<close> only with evidence.
  \<^item> The process: what the exit reason is, the order of shutdown, and bounded retries and backoff.
  \<^item> An interleaving in which the two directions collide (below): the cancellation the intraledger
    path sends to LND comes back through the invoice's listener and makes the path's own
    transaction fail after the spend was posted.

  \<^bold>\<open>Conventions, bounds and limits.\<close> Machine integers are words; Rust arithmetic that is unchecked in
  release builds wraps. Strings are their bytes. Loops over lists are structural; loops that wait
  for streams are functions of the finite sequence of what was observed, and a loop that is still
  waiting says so in its result; no fuel is used. A backfill over \<open>n\<close> rows is shown to end within \<open>n\<close> sends and
  one query per page of 1000 rows, plus the empty one. Errors are values; a panic of the source is the
  error \<open>AppPanic\<close> (or a task that ends without a report). Libraries the code calls (es-entity, hex, SHA-256,
  uuid, BOLT11, jsonwebtoken, reqwest, tonic, sqlx, YAML) are parameters; their laws are the locales, interpreted on
  reference implementations, or premises of the theorem that needs them.

  A crash is a run in which every later statement and commit fails; what the next boot finds is the database
  that run leaves. The sequence counter of the outbox is not rolled back with its transaction, so a transaction
  that fails after an insert leaves a gap, as in the database; an insert that fails draws no number.

  \<^bold>\<open>Not modelled.\<close> Logging and trace contexts, the wire transports and sockets (their outcomes are inputs), SQL
  migrations, the scheduler of the job crate and tokio's broadcast buffer (a lag is an input). What remains
  of the sources decides nothing: the registration of GraphQL types and the printing of the schema, the
  implementations of \<open>Debug\<close>, \<open>Display\<close> and sqlx's \<open>Type\<close> that only forward, imports, module declarations
  (\<open>lib.rs\<close>, \<open>api.rs\<close> and their like) and the tests beside the sources.
\<close>

section \<open>An interleaving of the two directions\<close>

text \<open>A recipient invoice of wallet 6 that is open, as the gateway issued it.\<close>

definition recipient_log :: "invoice_event list" where
  "recipient_log = [EvCreated (PaymentHash (replicate 32 7)) (Preimage (replicate 32 9)) (WalletId 6)
     (Some (MilliSatoshi 25000)) (Timestamp (10 ^ 12)) (BoltInvoice ''lnbc1'') ''order-1'' (Timestamp 0)]"

definition transfer_world :: "ref_store world" where
  "transfer_world = ref_world\<lparr>w_db := (w_db ref_world)\<lparr>db_es :=
     \<lparr>rs_invoices = [(InvoiceId 1, recipient_log)], rs_payments = []\<rparr>\<rparr>\<rparr>"

text \<open>What LND reports to the listener of that invoice once the gateway has canceled it, and the
  database after the listener's handler has run.\<close>

definition canceled_update :: invoice_update where
  "canceled_update = \<lparr>iu_payment_hash = PaymentHash (replicate 32 7), iu_state = LndCanceled,
     iu_amt_paid_msat = MilliSatoshi 0, iu_payment_preimage = None\<rparr>"

definition after_listener :: "ref_store db \<Rightarrow> ref_store db" where
  "after_listener d = w_db (snd (handle_invoice_update ref_env canceled_update
     \<lparr>w_db = d, w_pending = [], w_step = 0, w_trace = []\<rparr>))"

text \<open>The handler runs between the cancellation (step 7 of the transfer) and the start of the
  transfer's own transaction (step 8).\<close>

definition race_env :: "(ref_ie, ref_pe, ref_store) env" where
  "race_env = ref_env\<lparr>e_others := (\<lambda>n d. if n = 8 then after_listener d else d)\<rparr>"

definition race_run :: "(app_error + ref_pe payment) \<times> ref_store world" where
  "race_run = send_payment race_env sample_request transfer_world"

fun race_trace :: "effect list \<Rightarrow> bool" where
  "race_trace [EOwnership _ True, EOwnership _ True, EAuthorize req ans, ELndCancel h] =
     (approved ans \<and> sar_sat_amount req = 25 \<and> h = PaymentHash (replicate 32 7))"
| "race_trace _ = False"


end
